(* ===== verification/ODC_Prelude.thy ===== *)
theory ODC_Prelude
  imports Main "HOL-Library.Word" "HOL-Library.AList" "HOL-Library.Char_ord" "HOL-Library.List_Lexorder"
begin

text \<open>
  What every component of the model shares: the C++ exception values, the standard containers
  and the few standard-library functions the sources call (decimal printing, \<^verbatim>\<open>std::quoted\<close>,
  \<^verbatim>\<open>std::stoi\<close>), with the lemmas about them that the component theories use.

  A call that may throw returns a value of a sum type, \<open>Inl\<close> for the exception. A call that may
  throw after it has already changed an object returns the object together with the exception.
  \<^verbatim>\<open>std::map\<close> is an association list kept strictly sorted by key (\<open>smap_set\<close>);
  \<^verbatim>\<open>std::unordered_map\<close> is an association list with distinct keys in an arbitrary order
  (\<open>AList.update\<close>); both are read by \<open>map_of\<close>. Both satisfy the locale \<open>container\<close>.
\<close>

section \<open>Rule collections\<close>

named_theorems op_simps \<open>unfolding rules of the asynchronous operations\<close>
named_theorems inv_intros \<open>preservation rules of the component invariants\<close>

section \<open>Machine integers\<close>

type_synonym u32 = "32 word"
type_synonym u64 = "64 word"

lemma unat_Suc_word:
  assumes "Suc (unat (w :: 'a::len word)) < 2 ^ LENGTH('a)"
  shows "unat (w + 1) = Suc (unat w)"
proof -
  have "unat (w + 1) = (unat w + 1) mod 2 ^ LENGTH('a)" by (simp add: unat_word_ariths unsigned_1)
  then show ?thesis using assms by simp
qed

lemma unat_pred_word: "0 < unat (w :: 'a::len word) \<Longrightarrow> unat (w - 1) = unat w - 1"
  by (simp add: unat_minus_one word_gt_0 unat_gt_0)

lemma word_of_nat_Suc: "(of_nat (Suc n) :: 'a::len word) = of_nat n + 1"
  by simp

section \<open>Exceptions\<close>

datatype exn =
    RuntimeError (what: string)
  | OutOfRange (what: string)
  | InvalidArgument (what: string)
  | OtherException (what: string)

section \<open>Lists\<close>

text \<open>\<^verbatim>\<open>vector::at\<close>: \<open>None\<close> stands for the \<^verbatim>\<open>std::out_of_range\<close> it throws.\<close>

definition at :: "'a list \<Rightarrow> nat \<Rightarrow> 'a option" where
  "at xs i = (if i < length xs then Some (xs ! i) else None)"

lemma at_Some [simp]: "i < length xs \<Longrightarrow> at xs i = Some (xs ! i)"
  by (simp add: at_def)

lemma at_eq_Some [simp]: "at xs i = Some x \<longleftrightarrow> i < length xs \<and> xs ! i = x"
  by (simp add: at_def)

lemma at_eq_None [simp]: "at xs i = None \<longleftrightarrow> length xs \<le> i"
  by (auto simp: at_def)

text \<open>How many positions of a list satisfy a predicate; the effect of one write on that number.\<close>

lemma length_filter_update_flip:
  "i < length xs \<Longrightarrow> \<not> P (xs ! i) \<Longrightarrow> P y \<Longrightarrow>
    length (filter P (xs[i := y])) = Suc (length (filter P xs))"
  by (induction xs arbitrary: i) (auto simp: nth_Cons' less_Suc_eq_0_disj split: nat.splits)

lemma length_filter_update_same:
  "i < length xs \<Longrightarrow> P y = P (xs ! i) \<Longrightarrow> length (filter P (xs[i := y])) = length (filter P xs)"
  by (induction xs arbitrary: i) (auto simp: less_Suc_eq_0_disj split: nat.splits)

lemma length_filter_update_unflip:
  assumes "i < length xs" "P (xs ! i)" "\<not> P y"
  shows "length (filter P xs) = Suc (length (filter P (xs[i := y])))"
  using length_filter_update_flip [of i "xs[i := y]" P "xs ! i"] assms by simp

section \<open>Containers\<close>

text \<open>\<^verbatim>\<open>m[k] = v\<close> on a \<^verbatim>\<open>std::map\<close>: the list stays sorted by key.\<close>

fun smap_set :: "'k::linorder \<Rightarrow> 'v \<Rightarrow> ('k \<times> 'v) list \<Rightarrow> ('k \<times> 'v) list" where
  "smap_set k v [] = [(k, v)]"
| "smap_set k v ((k', v') # m) =
     (if k < k' then (k, v) # (k', v') # m
      else if k = k' then (k, v) # m
      else (k', v') # smap_set k v m)"

text \<open>\<^verbatim>\<open>emplace\<close>, \<^verbatim>\<open>try_emplace\<close> and \<^verbatim>\<open>insert\<close>: an existing entry is kept.\<close>

definition smap_emplace :: "'k::linorder \<Rightarrow> 'v \<Rightarrow> ('k \<times> 'v) list \<Rightarrow> ('k \<times> 'v) list" where
  "smap_emplace k v m = (if map_of m k = None then smap_set k v m else m)"

definition umap_emplace :: "'k \<Rightarrow> 'v \<Rightarrow> ('k \<times> 'v) list \<Rightarrow> ('k \<times> 'v) list" where
  "umap_emplace k v m = (if map_of m k = None then AList.update k v m else m)"

definition smap_erase :: "'k::linorder \<Rightarrow> ('k \<times> 'v) list \<Rightarrow> ('k \<times> 'v) list" where
  "smap_erase k m = filter (\<lambda>e. fst e \<noteq> k) m"

definition sorted_keys :: "('k::linorder \<times> 'v) list \<Rightarrow> bool" where
  "sorted_keys m \<longleftrightarrow> sorted_wrt (<) (map fst m)"

definition distinct_keys :: "('k \<times> 'v) list \<Rightarrow> bool" where
  "distinct_keys m \<longleftrightarrow> distinct (map fst m)"

lemma set_keys_smap_set: "fst ` set (smap_set k v m) = insert k (fst ` set m)"
  by (induction k v m rule: smap_set.induct) auto

lemma sorted_keys_smap_set [inv_intros]: "sorted_keys m \<Longrightarrow> sorted_keys (smap_set k v m)"
proof (induction k v m rule: smap_set.induct)
  case (2 k v k' v' m)
  have "fst e \<in> insert k (fst ` set m)" if "e \<in> set (smap_set k v m)" for e
    using that set_keys_smap_set [of k v m] by blast
  with 2 show ?case by (fastforce simp: sorted_keys_def)
qed (simp add: sorted_keys_def)

lemma map_of_smap_set [simp]: "map_of (smap_set k v m) = (map_of m)(k \<mapsto> v)"
  by (induction k v m rule: smap_set.induct) (auto simp: fun_eq_iff)

lemma map_of_smap_erase [simp]: "map_of (smap_erase k m) = (map_of m)(k := None)"
  by (induction m) (auto simp: smap_erase_def fun_eq_iff)

lemma sorted_keys_smap_erase [inv_intros]: "sorted_keys m \<Longrightarrow> sorted_keys (smap_erase k m)"
  unfolding sorted_keys_def smap_erase_def by (simp add: sorted_wrt_map sorted_wrt_filter)

lemma map_of_smap_emplace [simp]:
  "map_of (smap_emplace k v m) = (case map_of m k of None \<Rightarrow> (map_of m)(k \<mapsto> v) | Some _ \<Rightarrow> map_of m)"
  by (simp add: smap_emplace_def split: option.split)

lemma map_of_umap_emplace [simp]:
  "map_of (umap_emplace k v m) = (case map_of m k of None \<Rightarrow> (map_of m)(k \<mapsto> v) | Some _ \<Rightarrow> map_of m)"
  by (simp add: umap_emplace_def update_conv' split: option.split)

lemma sorted_keys_smap_emplace [inv_intros]: "sorted_keys m \<Longrightarrow> sorted_keys (smap_emplace k v m)"
  by (simp add: smap_emplace_def sorted_keys_smap_set)

lemma distinct_keys_update [inv_intros]: "distinct_keys m \<Longrightarrow> distinct_keys (AList.update k v m)"
  by (simp add: distinct_keys_def distinct_update)

lemma distinct_keys_umap_emplace [inv_intros]: "distinct_keys m \<Longrightarrow> distinct_keys (umap_emplace k v m)"
  by (simp add: umap_emplace_def distinct_keys_update)

lemma distinct_keys_delete [inv_intros]: "distinct_keys m \<Longrightarrow> distinct_keys (AList.delete k m)"
  by (simp add: distinct_keys_def distinct_delete)

lemma sorted_keys_Nil [simp]: "sorted_keys []" and distinct_keys_Nil [simp]: "distinct_keys []"
  by (simp_all add: sorted_keys_def distinct_keys_def)

lemma sorted_keys_distinct: "sorted_keys m \<Longrightarrow> distinct_keys m"
  by (simp add: sorted_keys_def distinct_keys_def strict_sorted_iff)

text \<open>The interface both containers offer their clients.\<close>

locale container =
  fixes empty :: "('k \<times> 'v) list"
    and put :: "'k \<Rightarrow> 'v \<Rightarrow> ('k \<times> 'v) list \<Rightarrow> ('k \<times> 'v) list"
    and del :: "'k \<Rightarrow> ('k \<times> 'v) list \<Rightarrow> ('k \<times> 'v) list"
    and wf :: "('k \<times> 'v) list \<Rightarrow> bool"
  assumes wf_empty: "wf empty"
    and wf_put: "wf m \<Longrightarrow> wf (put k v m)"
    and wf_del: "wf m \<Longrightarrow> wf (del k m)"
    and get_empty: "map_of empty k = None"
    and get_put: "wf m \<Longrightarrow> map_of (put k v m) = (map_of m)(k \<mapsto> v)"
    and get_del: "wf m \<Longrightarrow> map_of (del k m) = (map_of m)(k := None)"
begin

lemma get_put_same: "wf m \<Longrightarrow> map_of (put k v m) k = Some v"
  by (simp add: get_put)

lemma get_put_other: "wf m \<Longrightarrow> k' \<noteq> k \<Longrightarrow> map_of (put k v m) k' = map_of m k'"
  by (simp add: get_put)

lemma get_del_same: "wf m \<Longrightarrow> map_of (del k m) k = None"
  by (simp add: get_del)

lemma get_del_other: "wf m \<Longrightarrow> k' \<noteq> k \<Longrightarrow> map_of (del k m) k' = map_of m k'"
  by (simp add: get_del)

lemma wf_fold_put: "wf m \<Longrightarrow> wf (fold (\<lambda>e. put (f e) (g e)) es m)"
  by (induction es arbitrary: m) (simp_all add: wf_put)

end

interpretation smap: container "[]" smap_set smap_erase sorted_keys
  by unfold_locales (auto intro: inv_intros)

interpretation umap: container "[]" AList.update AList.delete distinct_keys
  by unfold_locales (auto intro: inv_intros simp: update_conv' delete_conv')

text \<open>A \<^verbatim>\<open>for (auto& op : m)\<close> loop that changes the values in place.\<close>

definition map_vals :: "('v \<Rightarrow> 'v) \<Rightarrow> ('k \<times> 'v) list \<Rightarrow> ('k \<times> 'v) list" where
  "map_vals f m = map (\<lambda>(k, v). (k, f v)) m"

lemma map_of_map_vals [simp]: "map_of (map_vals f m) k = map_option f (map_of m k)"
  by (induction m) (auto simp: map_vals_def)

lemma keys_map_vals [simp]: "map fst (map_vals f m) = map fst m"
  by (induction m) (auto simp: map_vals_def)

lemma in_set_map_vals: "(k, v) \<in> set (map_vals f m) \<Longrightarrow> \<exists>v0. (k, v0) \<in> set m \<and> v = f v0"
  by (auto simp: map_vals_def)

lemma AList_update_new: "map_of m k = None \<Longrightarrow> AList.update k v m = m @ [(k, v)]"
  by (induction m) (auto split: if_splits)

section \<open>Transition systems\<close>

text \<open>
  A component whose operations are the steps of one function: an invariant they preserve and a relation
  between a state and its successors.
\<close>

locale transition_system =
  fixes step :: "'e \<Rightarrow> 's \<Rightarrow> 's"
    and inv :: "'s \<Rightarrow> bool"
    and later :: "'s \<Rightarrow> 's \<Rightarrow> bool"
  assumes step_inv: "inv s \<Longrightarrow> inv (step e s)"
    and step_later: "inv s \<Longrightarrow> later s (step e s)"
    and later_refl: "later s s"
    and later_trans: "later s t \<Longrightarrow> later t u \<Longrightarrow> later s u"
begin

lemma run_inv: "inv s \<Longrightarrow> inv (fold step es s)"
  by (induction es arbitrary: s) (simp_all add: step_inv)

lemma run_later: "inv s \<Longrightarrow> later s (fold step es s)"
  by (induction es arbitrary: s) (auto intro: later_refl later_trans step_later step_inv)

end

section \<open>Strings\<close>

definition digit_char :: "nat \<Rightarrow> char" where
  "digit_char d = char_of (48 + d)"

fun string_of_nat :: "nat \<Rightarrow> string" where
  "string_of_nat n = (if n < 10 then [digit_char n] else string_of_nat (n div 10) @ [digit_char (n mod 10)])"

declare string_of_nat.simps [simp del]

definition string_of_int :: "int \<Rightarrow> string" where
  "string_of_int i = (if i < 0 then ''-'' @ string_of_nat (nat (- i)) else string_of_nat (nat i))"

text \<open>\<^verbatim>\<open>std::quoted\<close>: double quotes around the text, backslash before a quote or a backslash.\<close>

definition quoted :: "string \<Rightarrow> string" where
  "quoted s = [CHR 0x22] @ concat (map (\<lambda>c. if c = CHR 0x22 \<or> c = CHR 0x5C then [CHR 0x5C, c] else [c]) s) @ [CHR 0x22]"

end
