(* ===== verification/ODC_Error.thy ===== *)
theory ODC_Error
  imports ODC_Prelude
begin

text \<open>
  \<^verbatim>\<open>src/odc/Error.h\<close>: the error codes of the service, their numeric values and their messages.
  A \<^verbatim>\<open>std::error_code\<close> is an optional code: \<open>None\<close> is the default-constructed
  \<^verbatim>\<open>std::error_code()\<close>, which tests false.
\<close>

datatype ErrorCode =
    RequestNotSupported | RequestTimeout | ResourcePluginFailed | OperationInProgress
  | OperationTimeout | OperationCanceled | DeviceChangeStateFailed
  | DeviceChangeStateInvalidTransition | DeviceGetPropertiesFailed | DeviceSetPropertiesFailed
  | TopologyFailed
  | DDSCreateSessionFailed | DDSShutdownSessionFailed | DDSAttachToSessionFailed
  | DDSCreateTopologyFailed | DDSCommanderInfoFailed | DDSSubmitAgentsFailed
  | DDSActivateTopologyFailed | DDSSubscribeToSessionFailed
  | FairMQCreateTopologyFailed | FairMQChangeStateFailed | FairMQGetStateFailed
  | FairMQSetPropertiesFailed | FairMQWaitForStateFailed

type_synonym error_code = "ErrorCode option"

definition MakeErrorCode :: "ErrorCode \<Rightarrow> error_code" where
  "MakeErrorCode ec = Some ec"

text \<open>The enumerators in the order of the \<^verbatim>\<open>enum class\<close>, with its three explicit start values.\<close>

definition error_groups :: "(nat \<times> ErrorCode list) list" where
  "error_groups =
    [(100, [RequestNotSupported, RequestTimeout, ResourcePluginFailed, OperationInProgress,
            OperationTimeout, OperationCanceled, DeviceChangeStateFailed,
            DeviceChangeStateInvalidTransition, DeviceGetPropertiesFailed,
            DeviceSetPropertiesFailed, TopologyFailed]),
     (200, [DDSCreateSessionFailed, DDSShutdownSessionFailed, DDSAttachToSessionFailed,
            DDSCreateTopologyFailed, DDSCommanderInfoFailed, DDSSubmitAgentsFailed,
            DDSActivateTopologyFailed, DDSSubscribeToSessionFailed]),
     (300, [FairMQCreateTopologyFailed, FairMQChangeStateFailed, FairMQGetStateFailed,
            FairMQSetPropertiesFailed, FairMQWaitForStateFailed])]"

definition ErrorCode_table :: "(ErrorCode \<times> nat) list" where
  "ErrorCode_table = concat (map (\<lambda>(start, cs). zip cs [start..<start + length cs]) error_groups)"

definition ErrorCode_value :: "ErrorCode \<Rightarrow> nat" where
  "ErrorCode_value ec = (case map_of ErrorCode_table ec of Some n \<Rightarrow> n | None \<Rightarrow> 0)"

text \<open>\<^verbatim>\<open>static_cast<ErrorCode>(condition)\<close> with the \<^verbatim>\<open>default\<close> case of the switch as \<open>None\<close>.\<close>

definition ErrorCode_of_value :: "nat \<Rightarrow> ErrorCode option" where
  "ErrorCode_of_value n = map_of (map (\<lambda>(c, v). (v, c)) ErrorCode_table) n"

definition ErrorCode_messages :: "(ErrorCode \<times> string) list" where
  "ErrorCode_messages =
    [(RequestNotSupported, ''Request not supported''),
     (RequestTimeout, ''Request timeout''),
     (ResourcePluginFailed, ''Resource plugin failed''),
     (OperationInProgress, ''async operation already in progress''),
     (OperationTimeout, ''async operation timed out''),
     (OperationCanceled, ''async operation canceled''),
     (DeviceChangeStateFailed, ''Failed to change state of a FairMQ device''),
     (DeviceChangeStateInvalidTransition, ''Requested transition is not valid from the current state''),
     (DeviceGetPropertiesFailed, ''Failed to get FairMQ device properties''),
     (DeviceSetPropertiesFailed, ''Failed to set FairMQ device properties''),
     (TopologyFailed, ''Failed topology''),
     (DDSCreateSessionFailed, ''Failed to create a DDS session''),
     (DDSShutdownSessionFailed, ''Failed to shutdown a DDS session''),
     (DDSAttachToSessionFailed, ''Failed to attach to a DDS session''),
     (DDSCreateTopologyFailed, ''Failed to create DDS topology''),
     (DDSCommanderInfoFailed, ''Failed to receive DDS commander info''),
     (DDSSubmitAgentsFailed, ''Failed to submit DDS agents''),
     (DDSActivateTopologyFailed, ''Failed to activate DDS topology''),
     (FairMQCreateTopologyFailed, ''Failed to create FairMQ topology''),
     (FairMQChangeStateFailed, ''Failed to change FairMQ device state''),
     (FairMQGetStateFailed, ''Failed to get FairMQ device state''),
     (FairMQSetPropertiesFailed, ''Failed to set FairMQ device properties'')]"

definition ErrorCode_message :: "ErrorCode \<Rightarrow> string" where
  "ErrorCode_message ec =
     (case map_of ErrorCode_messages ec of Some m \<Rightarrow> m | None \<Rightarrow> ''Unknown error'')"

definition ErrorCategory_message :: "nat \<Rightarrow> string" where
  "ErrorCategory_message n =
     (case ErrorCode_of_value n of Some ec \<Rightarrow> ErrorCode_message ec | None \<Rightarrow> ''Unknown error'')"

text \<open>The value table is a bijection between the codes and their numbers.\<close>

lemma ErrorCode_table_codes: "map fst ErrorCode_table = concat (map snd error_groups)"
  by (simp add: ErrorCode_table_def error_groups_def)

lemma in_ErrorCode_table: "ec \<in> set (map fst ErrorCode_table)"
  unfolding ErrorCode_table_codes error_groups_def by (cases ec) simp_all

lemma ErrorCode_values_distinct:
  "distinct (map snd ErrorCode_table)" "\<forall>v \<in> set (map snd ErrorCode_table). 0 < v"
  by (simp_all add: ErrorCode_table_def error_groups_def)

lemma map_of_swap:
  "map_of m k = Some v \<Longrightarrow> distinct (map snd m) \<Longrightarrow> map_of (map (\<lambda>(c, v). (v, c)) m) v = Some k"
  by (induction m) (auto split: if_splits dest!: map_of_SomeD simp: rev_image_eqI)

lemma ErrorCode_value_lookup: "map_of ErrorCode_table ec = Some (ErrorCode_value ec)"
  using in_ErrorCode_table [of ec] unfolding ErrorCode_value_def
  by (metis map_of_eq_None_iff option.exhaust_sel option.simps(5) set_map)

lemma ErrorCode_of_value_value: "ErrorCode_of_value (ErrorCode_value ec) = Some ec"
  unfolding ErrorCode_of_value_def
  by (rule map_of_swap [OF ErrorCode_value_lookup ErrorCode_values_distinct(1)])

lemma ErrorCode_value_inj: "inj ErrorCode_value"
  by (metis ErrorCode_of_value_value injI option.inject)

lemma ErrorCode_value_pos: "0 < ErrorCode_value ec"
  using ErrorCode_values_distinct(2) map_of_SomeD [OF ErrorCode_value_lookup [of ec]] by force

lemma ErrorCategory_message_value: "ErrorCategory_message (ErrorCode_value ec) = ErrorCode_message ec"
  by (simp add: ErrorCategory_message_def ErrorCode_of_value_value)

text \<open>\<^verbatim>\<open>struct Error\<close> of \<^verbatim>\<open>src/odc/Params.h\<close>.\<close>

record Error =
  mCode :: error_code
  mDetails :: string

definition no_error :: Error where
  "no_error = \<lparr>mCode = None, mDetails = []\<rparr>"

lemma no_error_simps [simp]: "mCode no_error = None" "mDetails no_error = []"
  by (simp_all add: no_error_def)

end
