(* ===== verification/Topology_Defs.thy ===== *)
theory Topology_Defs
  imports ODC_Error
begin

text \<open>
  \<^verbatim>\<open>src/odc/TopologyDefs.h\<close>: device states and transitions, the status of one device, the state
  of a topology, its aggregation to one state, and the records that describe tasks, collections
  and agents. The FairMQ names of the states (\<^verbatim>\<open>GetStateName\<close>, \<^verbatim>\<open>GetState\<close>) are parameters.
\<close>

section \<open>States and transitions\<close>

datatype mq_state =
    Undefined | Ok | Error | Idle | InitializingDevice | Initialized | Binding | Bound
  | Connecting | DeviceReady | InitializingTask | Ready | Running | ResettingTask
  | ResettingDevice | Exiting

datatype mq_transition =
    Auto | InitDevice | CompleteInit | Bind | Connect | InitTask | Run | Stop | ResetTask
  | ResetDevice | End | ErrorFound

definition all_states :: "mq_state list" where
  "all_states = [Undefined, Ok, Error, Idle, InitializingDevice, Initialized, Binding, Bound,
     Connecting, DeviceReady, InitializingTask, Ready, Running, ResettingTask, ResettingDevice, Exiting]"

definition all_transitions :: "mq_transition list" where
  "all_transitions = [Auto, InitDevice, CompleteInit, Bind, Connect, InitTask, Run, Stop,
     ResetTask, ResetDevice, End, ErrorFound]"

lemma in_all_states: "s \<in> set all_states"
  by (cases s) (simp_all add: all_states_def)

lemma in_all_transitions: "t \<in> set all_transitions"
  by (cases t) (simp_all add: all_transitions_def)

text \<open>The state a device reaches after a transition was requested; \<^verbatim>\<open>find\<close> on the constant map.\<close>

fun gExpectedState :: "mq_transition \<rightharpoonup> mq_state" where
  "gExpectedState InitDevice = Some InitializingDevice"
| "gExpectedState CompleteInit = Some Initialized"
| "gExpectedState Bind = Some Bound"
| "gExpectedState Connect = Some DeviceReady"
| "gExpectedState InitTask = Some Ready"
| "gExpectedState Run = Some Running"
| "gExpectedState Stop = Some Ready"
| "gExpectedState ResetTask = Some DeviceReady"
| "gExpectedState ResetDevice = Some Idle"
| "gExpectedState End = Some Exiting"
| "gExpectedState _ = None"

lemma gExpectedState_None: "gExpectedState t = None \<longleftrightarrow> t = Auto \<or> t = ErrorFound"
  by (cases t) simp_all

lemma gExpectedState_not_Error: "gExpectedState t = Some s \<Longrightarrow> s \<noteq> Error"
  by (cases t) auto

text \<open>
  \<^verbatim>\<open>AggregatedState\<close> mirrors the numeric values of \<^verbatim>\<open>fair::mq::State\<close> and adds \<^verbatim>\<open>Mixed\<close>:
  \<open>Agg s\<close> is \<^verbatim>\<open>static_cast<AggregatedState>(s)\<close>.
\<close>

datatype AggregatedState = Agg mq_state | Mixed

fun GetAggregatedStateName :: "(mq_state \<Rightarrow> string) \<Rightarrow> AggregatedState \<Rightarrow> string" where
  "GetAggregatedStateName GetStateName Mixed = ''MIXED''"
| "GetAggregatedStateName GetStateName (Agg s) = GetStateName s"

definition GetAggregatedState :: "(string \<Rightarrow> exn + mq_state) \<Rightarrow> string \<Rightarrow> exn + AggregatedState" where
  "GetAggregatedState GetState s =
     (if s = ''MIXED'' then Inr Mixed
      else case GetState s of Inl e \<Rightarrow> Inl e | Inr st \<Rightarrow> Inr (Agg st))"

section \<open>Devices and topologies\<close>

type_synonym task_id = u64
type_synonym collection_id = u64

record DDSTask =
  fId :: task_id
  fCollectionId :: collection_id

record DeviceStatus =
  ds_ignored :: bool
  ds_expendable :: bool
  ds_subscribed :: bool
  ds_lastState :: mq_state
  ds_state :: mq_state
  ds_taskId :: task_id
  ds_collectionId :: collection_id
  ds_exitCode :: int
  ds_signal :: int

text \<open>The constructor \<^verbatim>\<open>DeviceStatus(expendable, taskId, collectionId)\<close>, the rest being defaults.\<close>

definition new_DeviceStatus :: "bool \<Rightarrow> task_id \<Rightarrow> collection_id \<Rightarrow> DeviceStatus" where
  "new_DeviceStatus expendable taskId collectionId =
     \<lparr>ds_ignored = False, ds_expendable = expendable, ds_subscribed = False,
      ds_lastState = Undefined, ds_state = Undefined, ds_taskId = taskId,
      ds_collectionId = collectionId, ds_exitCode = -1, ds_signal = -1\<rparr>"

type_synonym TopoState = "DeviceStatus list"
type_synonym TopoStateIndex = "(task_id \<times> nat) list"
type_synonym DeviceProperties = "(string \<times> string) list"
type_synonym FailedDevices = "task_id set"

record DetailedTaskStatus =
  dt_status :: DeviceStatus
  dt_path :: string
  dt_host :: string

type_synonym DetailedState = "DetailedTaskStatus list"

record TopologyState =
  aggregated :: AggregatedState
  detailed :: "DetailedState option"

definition default_TopologyState :: TopologyState where
  "default_TopologyState = \<lparr>aggregated = Agg Undefined, detailed = None\<rparr>"

record GetPropertiesResult =
  gp_devices :: "(task_id \<times> DeviceProperties) list"
  gp_failed :: FailedDevices

section \<open>Aggregation\<close>

text \<open>The loop of \<^verbatim>\<open>AggregateState\<close> with its two variables \<^verbatim>\<open>state\<close> and \<^verbatim>\<open>homogeneous\<close>.\<close>

fun AggregateState_loop :: "AggregatedState \<Rightarrow> bool \<Rightarrow> TopoState \<Rightarrow> AggregatedState" where
  "AggregateState_loop st homogeneous [] = (if homogeneous then st else Mixed)"
| "AggregateState_loop st homogeneous (ds # rest) =
     (if \<not> ds_ignored ds then
        (if st = Mixed then AggregateState_loop (Agg (ds_state ds)) homogeneous rest
         else if ds_state ds = Error then Agg Error
         else if Agg (ds_state ds) \<noteq> st then AggregateState_loop st False rest
         else AggregateState_loop st homogeneous rest)
      else AggregateState_loop st homogeneous rest)"

definition AggregateState :: "TopoState \<Rightarrow> AggregatedState" where
  "AggregateState topoState = AggregateState_loop Mixed True topoState"

definition StateEqualsTo :: "TopoState \<Rightarrow> mq_state \<Rightarrow> bool" where
  "StateEqualsTo topoState st \<longleftrightarrow> AggregateState topoState = Agg st"

text \<open>The states of the devices that count, in the order of the state vector.\<close>

definition active_states :: "TopoState \<Rightarrow> mq_state list" where
  "active_states ts = map ds_state (filter (\<lambda>d. \<not> ds_ignored d) ts)"

lemma active_states_simps [simp]:
  "active_states [] = []"
  "active_states (d # ts) = (if ds_ignored d then active_states ts else ds_state d # active_states ts)"
  by (simp_all add: active_states_def)

lemma AggregateState_loop_started:
  "AggregateState_loop (Agg s) hom ts =
     (if Error \<in> set (active_states ts) then Agg Error
      else if hom \<and> (\<forall>x \<in> set (active_states ts). x = s) then Agg s else Mixed)"
  by (induction ts arbitrary: hom) auto

lemma AggregateState_active:
  "AggregateState ts =
     (case active_states ts of
        [] \<Rightarrow> Mixed
      | s # ss \<Rightarrow> if Error \<in> set ss then Agg Error
                  else if \<forall>x \<in> set ss. x = s then Agg s else Mixed)"
  unfolding AggregateState_def
  by (induction ts) (auto simp: AggregateState_loop_started)

section \<open>Grouping\<close>

definition GroupByCollectionId :: "TopoState \<Rightarrow> (collection_id \<times> DeviceStatus list) list" where
  "GroupByCollectionId topoState =
     fold (\<lambda>ds m. if ds_collectionId ds \<noteq> 0
             then AList.update (ds_collectionId ds)
                    ((case map_of m (ds_collectionId ds) of None \<Rightarrow> [] | Some l \<Rightarrow> l) @ [ds]) m
             else m) topoState []"

definition GroupByTaskId :: "TopoState \<Rightarrow> (task_id \<times> DeviceStatus) list" where
  "GroupByTaskId topoState = fold (\<lambda>ds m. AList.update (ds_taskId ds) ds m) topoState []"

lemma map_of_group_fold:
  "map_of (fold (\<lambda>ds m. if ds_collectionId ds \<noteq> 0
             then AList.update (ds_collectionId ds)
                    ((case map_of m (ds_collectionId ds) of None \<Rightarrow> [] | Some l \<Rightarrow> l) @ [ds]) m
             else m) ts m0) c =
   (let new = filter (\<lambda>d. ds_collectionId d = c) ts in
    if c = 0 \<or> new = [] then map_of m0 c
    else Some ((case map_of m0 c of None \<Rightarrow> [] | Some l \<Rightarrow> l) @ new))"
  by (induction ts arbitrary: m0) (auto simp: Let_def update_conv' split: option.splits)

lemma map_of_GroupByTaskId:
  "map_of (GroupByTaskId ts) t = (case filter (\<lambda>d. ds_taskId d = t) ts of [] \<Rightarrow> None | ds \<Rightarrow> Some (last ds))"
proof -
  have "map_of (fold (\<lambda>ds m. AList.update (ds_taskId ds) ds m) ts m0) t =
      (case filter (\<lambda>d. ds_taskId d = t) ts of [] \<Rightarrow> map_of m0 t | ds \<Rightarrow> Some (last ds))" for m0 :: "(task_id \<times> DeviceStatus) list"
    by (induction ts arbitrary: m0) (auto simp: update_conv' split: list.splits)
  then show ?thesis by (simp add: GroupByTaskId_def cong: list.case_cong)
qed

section \<open>Descriptions of tasks, collections and agents\<close>

record TaskDetails =
  td_agentID :: u64
  td_slotID :: u64
  td_taskID :: task_id
  td_collectionID :: collection_id
  td_path :: string
  td_host :: string
  td_wrkDir :: string

record CollectionDetails =
  cd_agentID :: u64
  cd_slotID :: u64
  cd_collectionID :: collection_id
  cd_path :: string
  cd_host :: string
  cd_wrkDir :: string

record AgentDetails =
  ad_id :: u64
  ad_zone :: string
  ad_group :: string
  ad_host :: string
  ad_path :: string
  ad_numSlots :: u32

text \<open>
  The \<^verbatim>\<open>int32_t\<close> counters of the next records are read as mathematical integers: signed overflow
  is undefined in the source, so no value outside the range is ever relied on.
\<close>

record CollectionNInfo =
  ni_nOriginal :: int
  ni_nCurrent :: int
  ni_nMin :: int
  ni_agentGroup :: string

record CollectionInfo =
  ci_name :: string
  ci_zone :: string
  ci_agentGroup :: string
  ci_topoParent :: string
  ci_topoPath :: string
  ci_nOriginal :: int
  ci_nCurrent :: int
  ci_nMin :: int
  ci_nCores :: int
  ci_numTasks :: int
  ci_totalTasks :: int

record TaskInfo =
  ti_name :: string
  ti_zone :: string
  ti_agentGroup :: string
  ti_topoParent :: string
  ti_n :: int

record AgentGroupInfo =
  ag_name :: string
  ag_zone :: string
  ag_numAgents :: int
  ag_minAgents :: int
  ag_numSlots :: int
  ag_numCores :: int

section \<open>Properties\<close>

text \<open>
  \<^verbatim>\<open>AggregateState\<close> of a topology is decided by the states of its devices that are not ignored:
  with none it is Mixed; otherwise it is Error as soon as a device after the first is in Error,
  the common state when all agree, and Mixed in every other case.
\<close>

theorem AggregateState_spec:
  "AggregateState ts =
     (case active_states ts of
        [] \<Rightarrow> Mixed
      | s # ss \<Rightarrow> if Error \<in> set ss then Agg Error
                  else if \<forall>x \<in> set ss. x = s then Agg s else Mixed)"
  by (rule AggregateState_active)

text \<open>The witness evaluates the specification on an ignored, a running and a ready device.\<close>

theorem AggregateState_spec_witness:
  "\<exists>r d i. ds_ignored i \<and> ds_state r = Running \<and> ds_state d = Ready \<and>
     AggregateState [i, r, r] = Agg Running \<and> AggregateState [i, r, d] = Mixed"
proof -
  let ?d = "new_DeviceStatus False 1 0"
  let ?i = "?d\<lparr>ds_ignored := True\<rparr>" and ?r = "?d\<lparr>ds_state := Running\<rparr>" and ?q = "?d\<lparr>ds_state := Ready\<rparr>"
  have "AggregateState [?i, ?r, ?r] = Agg Running" and "AggregateState [?i, ?r, ?q] = Mixed"
    by (simp_all add: AggregateState_spec new_DeviceStatus_def)
  then show ?thesis
    by (intro exI [of _ ?r] exI [of _ ?q] exI [of _ ?i]) (simp add: new_DeviceStatus_def)
qed

text \<open>
  A device in Error that is not ignored does not always make the topology Error: when it is the
  first device that counts and another device is in a different state, the result is Mixed.
\<close>

theorem AggregateState_first_error_is_mixed:
  assumes "active_states ts = Error # ss" and "ss \<noteq> []" and "Error \<notin> set ss"
  shows "AggregateState ts = Mixed"
  using assms by (auto simp: AggregateState_active neq_Nil_conv)

theorem AggregateState_first_error_is_mixed_witness:
  "\<exists>ts. active_states ts = [Error, Ready] \<and> AggregateState ts = Mixed"
proof -
  let ?d = "new_DeviceStatus False 1 0"
  let ?ts = "[?d\<lparr>ds_state := Error\<rparr>, ?d\<lparr>ds_state := Ready\<rparr>]"
  have a: "active_states ?ts = [Error, Ready]" by (simp add: new_DeviceStatus_def)
  have "AggregateState ?ts = Mixed"
    by (rule AggregateState_first_error_is_mixed [OF a]) simp_all
  with a show ?thesis by blast
qed

text \<open>
  Grouping by collection loses nothing: the entry of a collection is exactly the list of its
  devices, in order, and there is no entry for the null collection or for one without devices.
\<close>

theorem GroupByCollectionId_spec:
  "map_of (GroupByCollectionId ts) c =
     (if c = 0 \<or> filter (\<lambda>d. ds_collectionId d = c) ts = [] then None
      else Some (filter (\<lambda>d. ds_collectionId d = c) ts))"
  unfolding GroupByCollectionId_def by (simp add: map_of_group_fold)

end
