(* ===== verification/Async_Op.thy ===== *)
theory Async_Op
  imports Topology_Defs
begin

text \<open>
  \<^verbatim>\<open>src/odc/AsioAsyncOp.h\<close>: an asynchronous operation that hands one result to its completion
  handler. \<open>Completed ec args\<close> records the arguments the handler was dispatched with; the object's
  two work guards are released (and \<^verbatim>\<open>fImpl\<close> reset) exactly then, so \<^verbatim>\<open>IsCompleted\<close> is the
  constructor test. A throwing call returns the unchanged object with the exception.

  The theory also holds what the operations of a topology share: the locale
  \<open>async_operation\<close> (a delivered result is never replaced) and the reference \<open>counter\<close>
  that the change-state and wait-for-state operations refine (\<open>counter_refinement\<close>).
\<close>

section \<open>The completion state\<close>

datatype 'r async_op = Pending | Completed error_code 'r

definition op_IsCompleted :: "'r async_op \<Rightarrow> bool" where
  "op_IsCompleted op = (case op of Pending \<Rightarrow> False | Completed _ _ \<Rightarrow> True)"

definition op_Complete :: "error_code \<Rightarrow> 'r \<Rightarrow> 'r async_op \<Rightarrow> 'r async_op \<times> exn option" where
  "op_Complete ec args op =
     (if op_IsCompleted op then (op, Some (RuntimeError ''Async operation already completed''))
      else (Completed ec args, None))"

definition op_Cancel :: "'r \<Rightarrow> 'r async_op \<Rightarrow> 'r async_op \<times> exn option" where
  "op_Cancel args op = op_Complete (MakeErrorCode OperationCanceled) args op"

definition op_Timeout :: "'r \<Rightarrow> 'r async_op \<Rightarrow> 'r async_op \<times> exn option" where
  "op_Timeout args op = op_Complete (MakeErrorCode OperationTimeout) args op"

definition op_result :: "'r async_op \<Rightarrow> (error_code \<times> 'r) option" where
  "op_result op = (case op of Pending \<Rightarrow> None | Completed ec r \<Rightarrow> Some (ec, r))"

lemma op_IsCompleted_simps [simp]: "\<not> op_IsCompleted Pending" "op_IsCompleted (Completed ec r)"
  by (simp_all add: op_IsCompleted_def)

lemma op_result_simps [simp]: "op_result Pending = None" "op_result (Completed ec r) = Some (ec, r)"
  by (simp_all add: op_result_def)

lemma op_Complete_simps [simp]:
  "op_Complete ec r Pending = (Completed ec r, None)"
  "op_Complete ec r (Completed ec' r') =
     (Completed ec' r', Some (RuntimeError ''Async operation already completed''))"
  by (simp_all add: op_Complete_def)

lemma op_IsCompleted_result: "op_IsCompleted op \<longleftrightarrow> op_result op \<noteq> None"
  by (cases op) simp_all

lemma op_result_None [simp]: "op_result op = None \<longleftrightarrow> op = Pending"
  by (cases op) simp_all

section \<open>What every operation of a topology promises\<close>

locale async_operation =
  fixes result :: "'op \<Rightarrow> (error_code \<times> 'r) option"
    and update :: "'e \<Rightarrow> 'op \<Rightarrow> 'op"
  assumes result_stable: "result op = Some r \<Longrightarrow> result (update e op) = Some r"
begin

lemma run_stable: "result op = Some r \<Longrightarrow> result (fold update es op) = Some r"
  by (induction es arbitrary: op) (simp_all add: result_stable)

lemma result_of_prefix:
  "result (fold update es op) = Some r \<Longrightarrow> result (fold update (es @ fs) op) = Some r"
  by (simp add: run_stable)

lemma completing_event:
  assumes "result op = None" and "result (fold update es op) = Some r"
  shows "\<exists>es1 e es2. es = es1 @ e # es2 \<and> result (fold update es1 op) = None \<and>
           result (update e (fold update es1 op)) = Some r"
  using assms
proof (induction es arbitrary: op)
  case (Cons e es)
  show ?case
  proof (cases "result (update e op)")
    case None
    then obtain es1 e' es2 where "es = es1 @ e' # es2"
      "result (fold update es1 (update e op)) = None"
      "result (update e' (fold update es1 (update e op))) = Some r"
      using Cons.IH [OF None] Cons.prems(2) by auto
    then show ?thesis by (intro exI [of _ "e # es1"] exI [of _ e'] exI [of _ es2]) simp
  next
    case (Some r')
    then have "r' = r" using Cons.prems(2) run_stable [of "update e op" r' es] by simp
    then show ?thesis
      using Cons.prems(1) Some by (intro exI [of _ "[]"] exI [of _ e] exI [of _ es]) simp
  qed
qed simp

end

section \<open>Counting reports: the reference\<close>

text \<open>
  A report is what one device event means for an operation: the device reached what the operation
  waits for, it failed (the flag says whether the failure is tolerated), or neither.
\<close>

datatype report = Reached (who: task_id) | Failed (who: task_id) bool | Noise (who: task_id)

record counter =
  c_tasks :: "task_id list"
  c_count :: u32
  c_failed :: "task_id set"
  c_errored :: bool
  c_result :: "error_code option"

fun counter_bump :: "report \<Rightarrow> counter \<Rightarrow> counter" where
  "counter_bump (Reached t) c = c\<lparr>c_count := c_count c + 1\<rparr>"
| "counter_bump (Failed t tolerated) c =
     (if t \<in> c_failed c then c
      else c\<lparr>c_errored := \<not> tolerated, c_count := c_count c + 1, c_failed := insert t (c_failed c)\<rparr>)"
| "counter_bump (Noise t) c = c"

definition verdict_code :: "bool \<Rightarrow> error_code" where
  "verdict_code errored = (if errored then MakeErrorCode DeviceChangeStateFailed else None)"

definition counter_try :: "counter \<Rightarrow> counter" where
  "counter_try c =
     (if c_result c = None \<and> unat (c_count c) = length (c_tasks c)
      then c\<lparr>c_result := Some (verdict_code (c_errored c))\<rparr> else c)"

definition counter_step :: "report \<Rightarrow> counter \<Rightarrow> counter" where
  "counter_step r c =
     (if c_result c = None \<and> who r \<in> set (c_tasks c) then counter_try (counter_bump r c) else c)"

text \<open>The reports that matter, and the verdict they leave: the last failure decides.\<close>

definition relevant :: "task_id list \<Rightarrow> report list \<Rightarrow> report list" where
  "relevant ts rs = filter (\<lambda>r. who r \<in> set ts \<and> (\<forall>t. r \<noteq> Noise t)) rs"

definition reported :: "task_id list \<Rightarrow> report list \<Rightarrow> task_id set" where
  "reported ts rs = who ` set (relevant ts rs)"

fun verdict :: "bool \<Rightarrow> report list \<Rightarrow> bool" where
  "verdict e [] = e"
| "verdict e (Failed t tolerated # rs) = verdict (\<not> tolerated) rs"
| "verdict e (_ # rs) = verdict e rs"

text \<open>Every task reports at most once, and the tasks of \<open>P\<close>, counted at the start, not at all.\<close>

definition once :: "task_id list \<Rightarrow> task_id set \<Rightarrow> report list \<Rightarrow> bool" where
  "once ts P rs \<longleftrightarrow> distinct (map who (relevant ts rs)) \<and> reported ts rs \<inter> P = {}"

text \<open>A waiting counter that has counted exactly the tasks of \<open>P\<close>.\<close>

definition counted :: "counter \<Rightarrow> task_id set \<Rightarrow> bool" where
  "counted c P \<longleftrightarrow> c_result c = None \<and> distinct (c_tasks c) \<and> length (c_tasks c) < 2 ^ 32 \<and>
     P \<subset> set (c_tasks c) \<and> unat (c_count c) = card P \<and> c_failed c \<subseteq> P"

lemma relevant_simps [simp]:
  "relevant ts [] = []"
  "relevant ts (Reached t # rs) = (if t \<in> set ts then Reached t # relevant ts rs else relevant ts rs)"
  "relevant ts (Failed t b # rs) = (if t \<in> set ts then Failed t b # relevant ts rs else relevant ts rs)"
  "relevant ts (Noise t # rs) = relevant ts rs"
  by (simp_all add: relevant_def)

lemma counter_step_completed [simp]: "c_result c = Some ec \<Longrightarrow> counter_step r c = c"
  by (simp add: counter_step_def)

lemma fold_counter_step_completed [simp]: "c_result c = Some ec \<Longrightarrow> fold counter_step rs c = c"
  by (induction rs) simp_all

lemma counter_step_tasks [simp]: "c_tasks (counter_step r c) = c_tasks c"
  by (cases r) (simp_all add: counter_step_def counter_try_def)

lemma fold_counter_step_tasks [simp]: "c_tasks (fold counter_step rs c) = c_tasks c"
  by (induction rs arbitrary: c) simp_all

lemma counted_card: "counted c P \<Longrightarrow> card P < length (c_tasks c)"
  unfolding counted_def by (metis distinct_card finite_set psubset_card_mono)

lemma counter_step_noise: "counted c P \<Longrightarrow> counter_step (Noise t) c = c"
  using counted_card [of c P] by (simp add: counter_step_def counter_try_def counted_def)

lemma counter_step_foreign: "who r \<notin> set (c_tasks c) \<Longrightarrow> counter_step r c = c"
  by (simp add: counter_step_def)

text \<open>The verdict a single relevant report leaves in the \<^verbatim>\<open>mErrored\<close> flag.\<close>

fun errored_after :: "report \<Rightarrow> bool \<Rightarrow> bool" where
  "errored_after (Failed t tolerated) e = (\<not> tolerated)"
| "errored_after _ e = e"

lemma counter_step_counts:
  assumes c: "counted c P" and t: "who r \<in> set (c_tasks c)" "who r \<notin> P" and r: "\<And>u. r \<noteq> Noise u"
  shows "if insert (who r) P = set (c_tasks c)
         then c_result (counter_step r c) = Some (verdict_code (errored_after r (c_errored c)))
         else counted (counter_step r c) (insert (who r) P) \<and>
              c_errored (counter_step r c) = errored_after r (c_errored c)"
proof -
  let ?n = "length (c_tasks c)"
  have fin: "finite P" using c unfolding counted_def by (meson finite_set finite_subset psubset_imp_subset)
  have less: "card P < ?n" by (rule counted_card [OF c])
  have up: "unat (c_count c + 1) = card (insert (who r) P)"
    using c less t fin by (subst unat_Suc_word) (auto simp: counted_def)
  have full: "insert (who r) P = set (c_tasks c) \<longleftrightarrow> card (insert (who r) P) = ?n"
    using c t fin unfolding counted_def
    by (metis card_subset_eq distinct_card finite_set insert_subset psubset_imp_subset)
  show ?thesis
    using c t r up full
    by (cases r) (auto simp: counter_step_def counter_try_def counted_def)
qed

lemma relevant_Cons:
  "relevant ts (r # rs) = (if who r \<in> set ts \<and> (\<forall>u. r \<noteq> Noise u) then r # relevant ts rs else relevant ts rs)"
  by (simp add: relevant_def)

lemma verdict_Cons: "verdict e (r # rs) = verdict (errored_after r e) rs"
  by (cases r) simp_all

text \<open>
  The main fact: under \<open>once\<close> the counter waits until the last of its tasks has reported and
  completes with that report; the verdict is that of the last failure.
\<close>

lemma counter_run:
  assumes "counted c P" and "once (c_tasks c) P rs"
  shows "if P \<union> reported (c_tasks c) rs = set (c_tasks c)
         then c_result (fold counter_step rs c)
                = Some (verdict_code (verdict (c_errored c) (relevant (c_tasks c) rs)))
         else counted (fold counter_step rs c) (P \<union> reported (c_tasks c) rs)"
  using assms
proof (induction rs arbitrary: c P)
  case Nil
  then show ?case by (auto simp: reported_def counted_def)
next
  case (Cons r rs)
  let ?ts = "c_tasks c" and ?c = "counter_step r c"
  show ?case
  proof (cases "who r \<in> set ?ts \<and> (\<forall>u. r \<noteq> Noise u)")
    case False
    then have same: "?c = c" and rel: "relevant ?ts (r # rs) = relevant ?ts rs"
      using counter_step_foreign counter_step_noise [OF Cons.prems(1)] by (auto simp: relevant_Cons)
    have "once ?ts P rs" using Cons.prems(2) rel by (simp add: once_def reported_def)
    from Cons.IH [OF Cons.prems(1) this] show ?thesis
      unfolding reported_def fold_simps comp_def same rel .
  next
    case True
    then have rel: "relevant ?ts (r # rs) = r # relevant ?ts rs" by (simp add: relevant_Cons)
    let ?P = "insert (who r) P"
    have new: "who r \<notin> P" and rest: "once ?ts ?P rs"
      using Cons.prems(2) rel by (auto simp: once_def reported_def)
    have U: "P \<union> reported ?ts (r # rs) = ?P \<union> reported ?ts rs" by (auto simp: reported_def rel)
    note step = counter_step_counts [OF Cons.prems(1), of r]
    show ?thesis
    proof (cases "?P = set ?ts")
      case full: True
      then have "reported ?ts rs = {}"
        using rest unfolding once_def reported_def relevant_def by auto blast
      then have "relevant ?ts rs = []" by (simp add: reported_def)
      with full step True new rel U show ?thesis by (auto simp: verdict_Cons reported_def)
    next
      case False
      with step True new have c': "counted ?c ?P" "c_errored ?c = errored_after r (c_errored c)"
        by auto
      from rest have rest': "once (c_tasks ?c) ?P rs" by simp
      from Cons.IH [OF c'(1) rest'] show ?thesis
        using c'(2) unfolding U rel verdict_Cons counter_step_tasks by (simp split: if_splits)
    qed
  qed
qed

section \<open>The count at the start\<close>

text \<open>
  \<^verbatim>\<open>ResetCount\<close> counts the devices that need no report any more: those that already are where the
  operation wants them and those that have failed. The index maps every task to its position in
  the state vector (\<open>wf_index\<close>).
\<close>

definition wf_index :: "TopoStateIndex \<Rightarrow> TopoState \<Rightarrow> bool" where
  "wf_index idx sd \<longleftrightarrow> distinct_keys idx \<and> (\<forall>(t, i) \<in> set idx. i < length sd \<and> ds_taskId (sd ! i) = t)"

definition device_failed :: "DeviceStatus \<Rightarrow> bool" where
  "device_failed d \<longleftrightarrow> ds_state d = Error \<or> ds_state d = Exiting"

definition settled :: "(DeviceStatus \<Rightarrow> bool) \<Rightarrow> TopoStateIndex \<Rightarrow> TopoState \<Rightarrow> task_id list \<Rightarrow> task_id set" where
  "settled reached idx sd ts =
     {t \<in> set ts. \<exists>i. map_of idx t = Some i \<and> (reached (sd ! i) \<or> device_failed (sd ! i))}"

definition start_errored :: "(DeviceStatus \<Rightarrow> bool) \<Rightarrow> TopoStateIndex \<Rightarrow> TopoState \<Rightarrow> task_id list \<Rightarrow> bool" where
  "start_errored reached idx sd ts \<longleftrightarrow>
     (\<exists>(t, i) \<in> set idx. ds_taskId (sd ! i) \<in> set ts \<and> \<not> reached (sd ! i) \<and> device_failed (sd ! i))"

definition counter_reset ::
  "(DeviceStatus \<Rightarrow> bool) \<Rightarrow> TopoStateIndex \<Rightarrow> TopoState \<Rightarrow> counter \<Rightarrow> counter" where
  "counter_reset reached idx sd c =
     c\<lparr>c_count := of_nat (length (filter (\<lambda>(t, i). ds_taskId (sd ! i) \<in> set (c_tasks c) \<and>
          (reached (sd ! i) \<or> device_failed (sd ! i))) idx)),
       c_errored := c_errored c \<or> start_errored reached idx sd (c_tasks c)\<rparr>"

definition fresh :: "counter \<Rightarrow> bool" where
  "fresh c \<longleftrightarrow> c_result c = None \<and> c_failed c = {} \<and> \<not> c_errored c"

lemma wf_index_nth: "wf_index idx sd \<Longrightarrow> map_of idx t = Some i \<Longrightarrow> i < length sd \<and> ds_taskId (sd ! i) = t"
  unfolding wf_index_def by (auto dest: map_of_SomeD)

lemma card_settled:
  assumes "wf_index idx sd"
  shows "length (filter (\<lambda>(t, i). ds_taskId (sd ! i) \<in> set ts \<and>
          (reached (sd ! i) \<or> device_failed (sd ! i))) idx) = card (settled reached idx sd ts)" (is "length ?l = _")
proof -
  have d: "distinct (map fst idx)" using assms by (simp add: wf_index_def distinct_keys_def)
  have "set (map fst ?l) = settled reached idx sd ts"
  proof (intro set_eqI iffI)
    fix t assume "t \<in> set (map fst ?l)"
    then obtain i where i: "(t, i) \<in> set idx" "ds_taskId (sd ! i) \<in> set ts"
      "reached (sd ! i) \<or> device_failed (sd ! i)" by auto
    then have "map_of idx t = Some i" using d by simp
    with i wf_index_nth [OF assms this] show "t \<in> settled reached idx sd ts"
      by (auto simp: settled_def)
  next
    fix t assume "t \<in> settled reached idx sd ts"
    then obtain i where i: "t \<in> set ts" "map_of idx t = Some i"
      "reached (sd ! i) \<or> device_failed (sd ! i)" by (auto simp: settled_def)
    have "(t, i) \<in> set ?l"
      using i wf_index_nth [OF assms i(2)] map_of_SomeD [OF i(2)] by simp
    then have "fst (t, i) \<in> set (map fst ?l)" unfolding set_map by (rule imageI)
    then show "t \<in> set (map fst ?l)" by (simp only: fst_conv)
  qed
  moreover have "distinct (map fst ?l)" using d by (rule distinct_map_filter)
  ultimately show ?thesis using distinct_card [of "map fst ?l"] unfolding length_map by (simp only:)
qed

lemma counter_reset_tasks [simp]: "c_tasks (counter_reset reached idx sd c) = c_tasks c"
  by (simp add: counter_reset_def)

lemma settled_subset: "settled reached idx sd ts \<subseteq> set ts"
  by (auto simp: settled_def)

lemma card_settled_le: "distinct ts \<Longrightarrow> card (settled reached idx sd ts) \<le> length ts"
  by (metis List.finite_set card_mono distinct_card settled_subset)

text \<open>
  A fresh counter, reset and tried, has completed exactly when every task is settled, with an error
  exactly when one of them has failed; otherwise it has counted the settled tasks.
\<close>

lemma counter_start:
  assumes "fresh c" "wf_index idx sd" "distinct (c_tasks c)" "length (c_tasks c) < 2 ^ 32"
  shows "let P = settled reached idx sd (c_tasks c); e = start_errored reached idx sd (c_tasks c);
             c' = counter_try (counter_reset reached idx sd c)
         in if P = set (c_tasks c) then c_result c' = Some (verdict_code e)
            else counted c' P \<and> c_errored c' = e"
proof -
  let ?P = "settled reached idx sd (c_tasks c)" and ?n = "length (c_tasks c)"
  have le: "card ?P \<le> ?n" by (rule card_settled_le [OF assms(3)])
  have u: "unat (c_count (counter_reset reached idx sd c)) = card ?P"
    using le assms(4) by (simp add: counter_reset_def card_settled [OF assms(2)] unat_of_nat take_bit_nat_eq_self)
  have "?P = set (c_tasks c) \<longleftrightarrow> card ?P = ?n"
    by (metis List.finite_set assms(3) card_subset_eq distinct_card settled_subset)
  with u assms settled_subset [of reached idx sd "c_tasks c"] show ?thesis
    by (auto simp: Let_def counter_try_def counted_def fresh_def counter_reset_def)
qed

text \<open>The completion code of an operation that starts in a given state and sees the given reports.\<close>

definition run_verdict ::
  "(DeviceStatus \<Rightarrow> bool) \<Rightarrow> TopoStateIndex \<Rightarrow> TopoState \<Rightarrow> task_id list \<Rightarrow> report list \<Rightarrow> error_code option" where
  "run_verdict reached idx sd ts rs =
     (let P = settled reached idx sd ts; e = start_errored reached idx sd ts in
      if P = set ts then Some (verdict_code e)
      else if P \<union> reported ts rs = set ts then Some (verdict_code (verdict e (relevant ts rs)))
      else None)"

lemma counter_start_run:
  assumes "fresh c" "wf_index idx sd" "distinct (c_tasks c)" "length (c_tasks c) < 2 ^ 32"
    and "once (c_tasks c) (settled reached idx sd (c_tasks c)) rs"
  shows "c_result (fold counter_step rs (counter_try (counter_reset reached idx sd c)))
    = run_verdict reached idx sd (c_tasks c) rs"
proof -
  let ?c = "counter_try (counter_reset reached idx sd c)"
  let ?P = "settled reached idx sd (c_tasks c)"
  have ts: "c_tasks ?c = c_tasks c" by (simp add: counter_try_def)
  note start = counter_start [OF assms(1-4), of reached, unfolded Let_def]
  show ?thesis
  proof (cases "?P = set (c_tasks c)")
    case True
    with start show ?thesis by (simp add: run_verdict_def)
  next
    case False
    with start have c: "counted ?c ?P" "c_errored ?c = start_errored reached idx sd (c_tasks c)" by auto
    from counter_run [OF c(1), unfolded ts, OF assms(5)] False c(2) show ?thesis
      by (simp add: run_verdict_def counted_def Let_def split: if_splits)
  qed
qed

section \<open>Refining the counter\<close>

text \<open>
  An operation whose state abstracts to a counter and whose update is a counter step: its runs
  have the completion behaviour of the counter.
\<close>

locale counter_refinement =
  fixes abs :: "'op \<Rightarrow> counter"
    and target :: "'op \<Rightarrow> 'g"
    and update :: "'e \<Rightarrow> 'op \<Rightarrow> 'op"
    and view :: "'g \<Rightarrow> 'e \<Rightarrow> report"
  assumes abs_update: "abs (update e op) = counter_step (view (target op) e) (abs op)"
    and target_update: "target (update e op) = target op"
begin

lemma abs_run: "abs (fold update es op) = fold counter_step (map (view (target op)) es) (abs op)"
  by (induction es arbitrary: op) (simp_all add: abs_update target_update)

lemma run_waits:
  assumes "counted (abs op) P"
    and "once (c_tasks (abs op)) P (map (view (target op)) es)"
    and "P \<union> reported (c_tasks (abs op)) (map (view (target op)) es) \<noteq> set (c_tasks (abs op))"
  shows "c_result (abs (fold update es op)) = None"
  using counter_run [OF assms(1,2)] assms(3) by (simp add: abs_run counted_def)

end

text \<open>One that also starts like a counter.\<close>

locale counter_operation = counter_refinement abs target update view
  for abs :: "'op \<Rightarrow> counter" and target :: "'op \<Rightarrow> 'g"
    and update :: "'e \<Rightarrow> 'op \<Rightarrow> 'op" and view :: "'g \<Rightarrow> 'e \<Rightarrow> report" +
  fixes start :: "TopoStateIndex \<Rightarrow> TopoState \<Rightarrow> 'op \<Rightarrow> 'op"
    and reached :: "'g \<Rightarrow> DeviceStatus \<Rightarrow> bool"
  assumes abs_start: "wf_index idx sd \<Longrightarrow>
      abs (start idx sd op) = counter_try (counter_reset (reached (target op)) idx sd (abs op))"
    and target_start: "wf_index idx sd \<Longrightarrow> target (start idx sd op) = target op"
begin

lemma start_run:
  assumes "fresh (abs op)" "wf_index idx sd" "distinct (c_tasks (abs op))" "length (c_tasks (abs op)) < 2 ^ 32"
    and "once (c_tasks (abs op)) (settled (reached (target op)) idx sd (c_tasks (abs op)))
           (map (view (target op)) es)"
  shows "c_result (abs (fold update es (start idx sd op))) =
    run_verdict (reached (target op)) idx sd (c_tasks (abs op)) (map (view (target op)) es)"
  using counter_start_run [OF assms] assms(2) by (simp add: abs_run abs_start target_start)

end

end
