(* ===== verification/Change_State_Op.thy ===== *)
theory Change_State_Op
  imports Async_Op
begin

text \<open>
  \<^verbatim>\<open>src/odc/TopologyOpChangeState.h\<close>: the operation that waits until every one of its tasks has
  reached the target state of a transition, or failed. The members are the fields of the record;
  \<open>cs_timer\<close> is whether the timer is armed. The handler gets the error code and the state vector,
  which the operation only holds by reference: it is an argument of the calls that complete.
\<close>

section \<open>The operation\<close>

record change_state_op =
  cs_id :: u64
  cs_op :: "TopoState async_op"
  cs_timer :: bool
  cs_count :: u32
  cs_tasks :: "DDSTask list"
  cs_failed :: FailedDevices
  cs_targetState :: mq_state
  cs_errored :: bool

text \<open>\<^verbatim>\<open>gExpectedState.at(transition)\<close> throws for a transition that has no expected state.\<close>

definition cs_new :: "u64 \<Rightarrow> mq_transition \<Rightarrow> DDSTask list \<Rightarrow> int \<Rightarrow> exn + change_state_op" where
  "cs_new i transition tasks timeout =
     (case gExpectedState transition of
        None \<Rightarrow> Inl (OutOfRange ''map::at'')
      | Some target \<Rightarrow> Inr \<lparr>cs_id = i, cs_op = Pending, cs_timer = (timeout > 0), cs_count = 0,
          cs_tasks = tasks, cs_failed = {}, cs_targetState = target, cs_errored = False\<rparr>)"

definition cs_ContainsTask :: "task_id \<Rightarrow> change_state_op \<Rightarrow> bool" where
  "cs_ContainsTask i op = list_ex (\<lambda>t. fId t = i) (cs_tasks op)"

definition cs_IsCompleted :: "change_state_op \<Rightarrow> bool" where
  "cs_IsCompleted op = op_IsCompleted (cs_op op)"

definition cs_Complete :: "error_code \<Rightarrow> TopoState \<Rightarrow> change_state_op \<Rightarrow> change_state_op \<times> exn option" where
  "cs_Complete ec stateData op =
     (let op1 = op\<lparr>cs_timer := False\<rparr>; (o', e) = op_Complete ec stateData (cs_op op1)
      in (op1\<lparr>cs_op := o'\<rparr>, e))"

text \<open>The comparison \<^verbatim>\<open>mCount == mTasks.size()\<close> widens the \<^verbatim>\<open>unsigned int\<close>; it does not wrap the size.\<close>

definition cs_TryCompletion :: "TopoState \<Rightarrow> change_state_op \<Rightarrow> change_state_op" where
  "cs_TryCompletion stateData op =
     (if \<not> cs_IsCompleted op \<and> unat (cs_count op) = length (cs_tasks op)
      then fst (cs_Complete (if cs_errored op then MakeErrorCode DeviceChangeStateFailed else None) stateData op)
      else op)"

definition cs_Update ::
  "TopoState \<Rightarrow> task_id \<Rightarrow> mq_state \<Rightarrow> bool \<Rightarrow> change_state_op \<Rightarrow> change_state_op" where
  "cs_Update stateData taskId currentState expendable op =
     (if \<not> cs_IsCompleted op \<and> cs_ContainsTask taskId op
      then cs_TryCompletion stateData
        (if currentState = cs_targetState op then op\<lparr>cs_count := cs_count op + 1\<rparr>
         else if currentState = Error \<or> currentState = Exiting
         then if taskId \<notin> cs_failed op
              then op\<lparr>cs_errored := \<not> expendable, cs_count := cs_count op + 1,
                      cs_failed := insert taskId (cs_failed op)\<rparr>
              else op
         else op)
      else op)"

text \<open>
  \<^verbatim>\<open>ResetCount\<close>: \<^verbatim>\<open>count_if\<close> over the index; the predicate sets \<^verbatim>\<open>mErrored\<close> on the way. The number it
  returns is assigned at the end, so a throwing \<^verbatim>\<open>stateData.at\<close> leaves \<^verbatim>\<open>mCount\<close> as it was.
\<close>

fun cs_ResetCount_loop ::
  "TopoStateIndex \<Rightarrow> TopoState \<Rightarrow> nat \<Rightarrow> change_state_op \<Rightarrow> change_state_op \<times> exn option" where
  "cs_ResetCount_loop [] stateData n op = (op\<lparr>cs_count := of_nat n\<rparr>, None)"
| "cs_ResetCount_loop ((_, i) # idx) stateData n op =
     (case at stateData i of
        None \<Rightarrow> (op, Some (OutOfRange ''vector::at''))
      | Some task \<Rightarrow>
          if cs_ContainsTask (ds_taskId task) op
          then if ds_state task = cs_targetState op then cs_ResetCount_loop idx stateData (Suc n) op
               else if ds_state task = Error \<or> ds_state task = Exiting
               then cs_ResetCount_loop idx stateData (Suc n) (op\<lparr>cs_errored := True\<rparr>)
               else cs_ResetCount_loop idx stateData n op
          else cs_ResetCount_loop idx stateData n op)"

definition cs_ResetCount ::
  "TopoStateIndex \<Rightarrow> TopoState \<Rightarrow> change_state_op \<Rightarrow> change_state_op \<times> exn option" where
  "cs_ResetCount stateIndex stateData op = cs_ResetCount_loop stateIndex stateData 0 op"

text \<open>
  The body of the timer's handler when it runs without an error, that is, when the timer has
  expired; cancelling the timer keeps it from running.
\<close>

definition cs_timer_fired :: "TopoState \<Rightarrow> change_state_op \<Rightarrow> change_state_op \<times> exn option" where
  "cs_timer_fired stateData op =
     (if cs_timer op
      then (let (o', e) = op_Timeout stateData (cs_op op) in (op\<lparr>cs_timer := False, cs_op := o'\<rparr>, e))
      else (op, None))"

lemmas cs_defs = cs_IsCompleted_def cs_Complete_def cs_TryCompletion_def cs_Update_def

section \<open>The operation refines the counter\<close>

definition cs_abs :: "change_state_op \<Rightarrow> counter" where
  "cs_abs op = \<lparr>c_tasks = map fId (cs_tasks op), c_count = cs_count op, c_failed = cs_failed op,
     c_errored = cs_errored op, c_result = map_option fst (op_result (cs_op op))\<rparr>"

text \<open>One event: the state data at that moment, the task, its new state, whether it is expendable.\<close>

type_synonym cs_event = "TopoState \<times> task_id \<times> mq_state \<times> bool"

fun cs_event_update :: "cs_event \<Rightarrow> change_state_op \<Rightarrow> change_state_op" where
  "cs_event_update (sd, t, s, x) op = cs_Update sd t s x op"

fun cs_view :: "mq_state \<Rightarrow> cs_event \<Rightarrow> report" where
  "cs_view target (sd, t, s, x) =
     (if s = target then Reached t else if s = Error \<or> s = Exiting then Failed t x else Noise t)"

lemma cs_ContainsTask_set: "cs_ContainsTask i op \<longleftrightarrow> i \<in> fId ` set (cs_tasks op)"
  by (auto simp: cs_ContainsTask_def list_ex_iff)

lemma cs_Update_result:
  "op_result (cs_op op) = Some r \<Longrightarrow> cs_Update sd t s x op = op"
  by (simp add: cs_Update_def cs_IsCompleted_def op_IsCompleted_result)

lemma cs_Update_target [simp]: "cs_targetState (cs_Update sd t s x op) = cs_targetState op"
  by (simp add: cs_defs split_def Let_def)

lemma cs_Update_tasks [simp]: "cs_tasks (cs_Update sd t s x op) = cs_tasks op"
  by (simp add: cs_defs split_def Let_def)

lemma cs_abs_TryCompletion:
  "cs_abs (cs_TryCompletion sd op) = counter_try (cs_abs op)"
  by (cases "cs_op op")
    (simp_all add: cs_abs_def cs_TryCompletion_def cs_Complete_def cs_IsCompleted_def counter_try_def
      verdict_code_def)

lemma cs_abs_Update:
  "cs_abs (cs_event_update e op) = counter_step (cs_view (cs_targetState op) e) (cs_abs op)"
proof (cases e)
  case (fields sd t s x)
  have "who (cs_view (cs_targetState op) e) = t" by (simp add: fields)
  then have "who (cs_view (cs_targetState op) e) \<in> set (c_tasks (cs_abs op)) \<longleftrightarrow> cs_ContainsTask t op"
    by (simp add: cs_abs_def cs_ContainsTask_set)
  moreover have "c_result (cs_abs op) = None \<longleftrightarrow> \<not> cs_IsCompleted op"
    by (simp add: cs_abs_def cs_IsCompleted_def op_IsCompleted_result)
  ultimately show ?thesis
    by (auto simp: fields cs_Update_def counter_step_def cs_abs_TryCompletion)
      (auto simp: cs_abs_def)
qed

interpretation cs_async: async_operation "\<lambda>op. op_result (cs_op op)" cs_event_update
proof unfold_locales
  fix op r e
  show "op_result (cs_op op) = Some r \<Longrightarrow> op_result (cs_op (cs_event_update e op)) = Some r"
    by (cases e) (simp add: cs_Update_result)
qed

text \<open>\<^verbatim>\<open>ResetCount\<close> followed by \<^verbatim>\<open>TryCompletion\<close>, as \<^verbatim>\<open>AsyncChangeState\<close> calls them.\<close>

definition cs_start :: "TopoStateIndex \<Rightarrow> TopoState \<Rightarrow> change_state_op \<Rightarrow> change_state_op" where
  "cs_start idx sd op = cs_TryCompletion sd (fst (cs_ResetCount idx sd op))"

definition cs_reached :: "mq_state \<Rightarrow> DeviceStatus \<Rightarrow> bool" where
  "cs_reached target d \<longleftrightarrow> ds_state d = target"

lemma cs_ContainsTask_errored [simp]: "cs_ContainsTask t (op\<lparr>cs_errored := b\<rparr>) = cs_ContainsTask t op"
  by (simp add: cs_ContainsTask_def)

lemma cs_ResetCount_loop_spec:
  assumes "\<forall>(t, i) \<in> set idx. i < length sd"
  shows "cs_ResetCount_loop idx sd n op =
    (op\<lparr>cs_count := of_nat (n + length (filter (\<lambda>(t, i). cs_ContainsTask (ds_taskId (sd ! i)) op \<and>
           (cs_reached (cs_targetState op) (sd ! i) \<or> device_failed (sd ! i))) idx)),
        cs_errored := cs_errored op \<or> (\<exists>(t, i) \<in> set idx. cs_ContainsTask (ds_taskId (sd ! i)) op \<and>
           \<not> cs_reached (cs_targetState op) (sd ! i) \<and> device_failed (sd ! i))\<rparr>, None)"
  using assms
  by (induction idx sd n op rule: cs_ResetCount_loop.induct)
    (auto simp: cs_reached_def device_failed_def)

lemma cs_ResetCount_ok:
  assumes "wf_index idx sd"
  shows "snd (cs_ResetCount idx sd op) = None"
    and "cs_abs (fst (cs_ResetCount idx sd op)) =
      counter_reset (cs_reached (cs_targetState op)) idx sd (cs_abs op)"
    and "cs_targetState (fst (cs_ResetCount idx sd op)) = cs_targetState op"
  using assms
  by (simp_all add: cs_ResetCount_def cs_ResetCount_loop_spec wf_index_def split_def cs_abs_def
      counter_reset_def start_errored_def cs_ContainsTask_set)

lemma cs_TryCompletion_target [simp]: "cs_targetState (cs_TryCompletion sd op) = cs_targetState op"
  by (simp add: cs_defs split_def Let_def)

interpretation cs_counter: counter_operation cs_abs cs_targetState cs_event_update cs_view cs_start cs_reached
proof unfold_locales
  fix e op
  show "cs_targetState (cs_event_update e op) = cs_targetState op" by (cases e) simp
qed (simp_all add: cs_abs_Update cs_start_def cs_abs_TryCompletion cs_ResetCount_ok)

lemma cs_started_run:
  assumes "cs_new i tr tasks timeout = Inr op" and "wf_index idx sd"
    and "distinct (map fId tasks)" and "length tasks < 2 ^ 32"
    and "once (map fId tasks) (settled (cs_reached (cs_targetState op)) idx sd (map fId tasks))
           (map (cs_view (cs_targetState op)) es)"
  shows "map_option fst (op_result (cs_op (fold cs_event_update es (cs_start idx sd op)))) =
    run_verdict (cs_reached (cs_targetState op)) idx sd (map fId tasks) (map (cs_view (cs_targetState op)) es)"
proof -
  have op: "c_tasks (cs_abs op) = map fId tasks" "fresh (cs_abs op)"
    using assms(1) by (auto simp: cs_new_def cs_abs_def fresh_def split: option.splits)
  have "c_result (cs_abs (fold cs_event_update es (cs_start idx sd op))) =
      run_verdict (cs_reached (cs_targetState op)) idx sd (map fId tasks) (map (cs_view (cs_targetState op)) es)"
    using cs_counter.start_run [of op idx sd es] op assms(2-5) by simp
  then show ?thesis by (simp add: cs_abs_def)
qed

section \<open>Properties\<close>

text \<open>
  A change-state operation is created exactly for the transitions that have an expected state, waits
  for it, and starts with nothing counted, nothing failed and its timer armed when the timeout is
  positive.
\<close>

theorem cs_new_spec:
  "cs_new i tr tasks timeout =
     (if tr = Auto \<or> tr = ErrorFound then Inl (OutOfRange ''map::at'')
      else Inr \<lparr>cs_id = i, cs_op = Pending, cs_timer = (timeout > 0), cs_count = 0, cs_tasks = tasks,
        cs_failed = {}, cs_targetState = the (gExpectedState tr), cs_errored = False\<rparr>)"
  by (cases tr) (simp_all add: cs_new_def)

text \<open>
  C8: a change-state operation completes exactly when every task it waits for is settled at the start or
  has reported since, and its code is the verdict of the run, when every task reports at most once and
  those settled at the start not again.
\<close>

theorem cs_completes_exactly:
  assumes "cs_new i tr tasks timeout = Inr op" and "wf_index idx sd"
    and "distinct (map fId tasks)" and "length tasks < 2 ^ 32"
    and "once (map fId tasks) (settled (cs_reached (cs_targetState op)) idx sd (map fId tasks))
           (map (cs_view (cs_targetState op)) es)"
  shows "map_option fst (op_result (cs_op (fold cs_event_update es (cs_start idx sd op)))) =
    run_verdict (cs_reached (cs_targetState op)) idx sd (map fId tasks) (map (cs_view (cs_targetState op)) es)"
  by (rule cs_started_run [OF assms])

text \<open>
  Of two failures the later one decides the code: when an expendable device fails after a device
  that is not expendable, the operation completes without an error although its flag had been raised.
\<close>

theorem cs_later_failure_masks:
  assumes "cs_new i tr [a, b] timeout = Inr op" and "fId a \<noteq> fId b"
    and "cs_targetState op \<noteq> Error"
  shows "cs_errored (cs_Update sd1 (fId a) Error False op) \<and>
    op_result (cs_op (cs_Update sd2 (fId b) Error True (cs_Update sd1 (fId a) Error False op))) = Some (None, sd2)"
proof -
  obtain g where op: "op = \<lparr>cs_id = i, cs_op = Pending, cs_timer = (timeout > 0), cs_count = 0,
    cs_tasks = [a, b], cs_failed = {}, cs_targetState = g, cs_errored = False\<rparr>"
    using assms(1) by (auto simp: cs_new_def split: option.splits)
  have 1: "cs_Update sd1 (fId a) Error False op = op\<lparr>cs_errored := True, cs_count := 1, cs_failed := {fId a}\<rparr>"
    using assms(3) by (simp add: op cs_defs cs_ContainsTask_def)
  show ?thesis
    using assms(2,3) unfolding 1 by (simp add: op cs_defs cs_ContainsTask_def)
qed

text \<open>
  A device that was already in Error when the operation started is counted twice when it is reported
  again: of two tasks the other one has not been heard of and the operation is complete.
\<close>

theorem cs_settled_failure_counts_twice:
  assumes "cs_new i tr [a, b] timeout = Inr op" and "fId a \<noteq> fId b" and "cs_targetState op \<noteq> Error"
    and "idx = [(fId a, 0), (fId b, 1)]" and "sd = [da, db]"
    and "ds_taskId da = fId a" "ds_state da = Error" "ds_taskId db = fId b"
    and "ds_state db \<noteq> Error" "ds_state db \<noteq> Exiting" "ds_state db \<noteq> cs_targetState op"
  shows "op_result (cs_op (cs_start idx sd op)) = None \<and>
    op_result (cs_op (cs_Update sd (fId a) Error x (cs_start idx sd op))) =
      Some (if x then None else MakeErrorCode DeviceChangeStateFailed, sd)"
proof -
  obtain g where op: "op = \<lparr>cs_id = i, cs_op = Pending, cs_timer = (timeout > 0), cs_count = 0,
    cs_tasks = [a, b], cs_failed = {}, cs_targetState = g, cs_errored = False\<rparr>"
    using assms(1) by (auto simp: cs_new_def split: option.splits)
  have 1: "cs_start idx sd op = op\<lparr>cs_errored := True, cs_count := 1\<rparr>"
    using assms(2-) by (simp add: op cs_start_def cs_ResetCount_def cs_defs cs_ContainsTask_def)
  show ?thesis
    using assms(2,3) unfolding 1 by (simp add: op cs_defs cs_ContainsTask_def)
qed

text \<open>
  An operation that is still waiting when its timer expires completes with OperationTimeout and the
  state data of that moment, and from then on no event changes the result; an operation created without
  a positive timeout has no timer that could do so.
\<close>

theorem cs_timeout:
  assumes "cs_new i tr tasks timeout = Inr op"
  shows "op_result (cs_op (fold cs_event_update es (fst (cs_timer_fired sd op)))) =
     (if timeout > 0 then Some (MakeErrorCode OperationTimeout, sd)
      else op_result (cs_op (fold cs_event_update es op)))"
proof -
  have "op_result (cs_op (fst (cs_timer_fired sd op))) = Some (MakeErrorCode OperationTimeout, sd)" if "timeout > 0"
    using assms that by (auto simp: cs_new_def cs_timer_fired_def op_Timeout_def split: option.splits)
  moreover have "cs_timer_fired sd op = (op, None)" if "\<not> timeout > 0"
    using assms that by (auto simp: cs_new_def cs_timer_fired_def split: option.splits)
  ultimately show ?thesis by (auto simp: cs_async.run_stable)
qed

section \<open>Concrete runs\<close>

text \<open>Two tasks, both Ready, asked to run.\<close>

definition sample_tasks :: "DDSTask list" where
  "sample_tasks = [\<lparr>fId = 1, fCollectionId = 0\<rparr>, \<lparr>fId = 2, fCollectionId = 0\<rparr>]"

definition sample_sd :: "mq_state \<Rightarrow> mq_state \<Rightarrow> TopoState" where
  "sample_sd s t = [(new_DeviceStatus False 1 0)\<lparr>ds_state := s\<rparr>, (new_DeviceStatus False 2 0)\<lparr>ds_state := t\<rparr>]"

definition sample_idx :: TopoStateIndex where
  "sample_idx = [(1, 0), (2, 1)]"

definition sample_op :: change_state_op where
  "sample_op = \<lparr>cs_id = 9, cs_op = Pending, cs_timer = True, cs_count = 0, cs_tasks = sample_tasks,
     cs_failed = {}, cs_targetState = Running, cs_errored = False\<rparr>"

lemma sample_new: "cs_new 9 Run sample_tasks 500 = Inr sample_op"
  by (simp add: cs_new_def sample_op_def)

lemma sample_wf: "wf_index sample_idx (sample_sd s t)"
  by (simp add: wf_index_def sample_idx_def sample_sd_def distinct_keys_def new_DeviceStatus_def)

lemma sample_ids: "map fId sample_tasks = [1, 2]"
  by (simp add: sample_tasks_def)

lemma sample_settled:
  "settled reached sample_idx (sample_sd s t) [1, 2] =
     (if reached (sample_sd s t ! 0) \<or> s = Error \<or> s = Exiting then {1} else {}) \<union>
     (if reached (sample_sd s t ! 1) \<or> t = Error \<or> t = Exiting then {2} else {})"
  by (auto simp: settled_def sample_idx_def sample_sd_def device_failed_def new_DeviceStatus_def split: if_splits)

theorem cs_completes_exactly_witness:
  "map_option fst (op_result (cs_op (fold cs_event_update
      [(sample_sd Running Ready, 1, Running, False), (sample_sd Running Error, 2, Error, False)]
      (cs_start sample_idx (sample_sd Ready Ready) sample_op))))
    = Some (MakeErrorCode DeviceChangeStateFailed)"
proof -
  let ?es = "[(sample_sd Running Ready, 1, Running, False), (sample_sd Running Error, 2, Error, False)]"
  have g: "cs_targetState sample_op = Running" by (simp add: sample_op_def)
  have s: "settled (cs_reached Running) sample_idx (sample_sd Ready Ready) [1, 2] = {}"
    by (simp add: sample_settled cs_reached_def) (simp add: sample_sd_def)
  have "once [1, 2] {} (map (cs_view Running) ?es)"
    by (simp add: once_def reported_def)
  then have "map_option fst (op_result (cs_op (fold cs_event_update ?es
      (cs_start sample_idx (sample_sd Ready Ready) sample_op)))) =
    run_verdict (cs_reached Running) sample_idx (sample_sd Ready Ready) [1, 2] (map (cs_view Running) ?es)"
    using cs_completes_exactly [OF sample_new sample_wf, of Ready Ready ?es]
    by (simp add: sample_ids g s) (simp add: sample_tasks_def)
  also have "\<dots> = Some (MakeErrorCode DeviceChangeStateFailed)"
    by (simp add: run_verdict_def s reported_def verdict_code_def insert_commute)
  finally show ?thesis .
qed

theorem cs_later_failure_masks_witness:
  "op_result (cs_op (cs_Update [] 2 Error True (cs_Update [] 1 Error False sample_op))) = Some (None, [])"
  using cs_later_failure_masks [OF sample_new [unfolded sample_tasks_def], of "[]" "[]"]
  by (simp add: sample_op_def)

theorem cs_settled_failure_counts_twice_witness:
  "op_result (cs_op (cs_Update (sample_sd Error Ready) 1 Error True
     (cs_start sample_idx (sample_sd Error Ready) sample_op))) = Some (None, sample_sd Error Ready)"
  using cs_settled_failure_counts_twice [OF sample_new [unfolded sample_tasks_def] _ _ _ sample_sd_def, of sample_idx Error Ready True]
  by (simp add: sample_op_def sample_idx_def new_DeviceStatus_def)

theorem cs_timeout_witness:
  "op_result (cs_op (fold cs_event_update [([], 1, Running, False), ([], 2, Running, False)]
     (fst (cs_timer_fired [] sample_op)))) = Some (MakeErrorCode OperationTimeout, [])"
  using cs_timeout [OF sample_new, of "[([], 1, Running, False), ([], 2, Running, False)]" "[]"] by simp

end
