(* ===== verification/Wait_For_State_Op.thy ===== *)
theory Wait_For_State_Op
  imports Change_State_Op
begin

text \<open>
  \<^verbatim>\<open>src/odc/TopologyOpWaitForState.h\<close>: the operation that waits until every one of its tasks is in a
  given current state, coming from a given last state unless that is Undefined, or has failed. It
  refines the same counter as the change-state operation, and with Undefined as the last state the
  two complete alike.
\<close>

section \<open>The operation\<close>

record wait_for_state_op =
  ws_id :: u64
  ws_op :: "unit async_op"
  ws_timer :: bool
  ws_count :: u32
  ws_tasks :: "DDSTask list"
  ws_failed :: FailedDevices
  ws_targetLastState :: mq_state
  ws_targetCurrentState :: mq_state
  ws_errored :: bool

definition ws_new :: "u64 \<Rightarrow> mq_state \<Rightarrow> mq_state \<Rightarrow> DDSTask list \<Rightarrow> int \<Rightarrow> wait_for_state_op" where
  "ws_new i targetLastState targetCurrentState tasks timeout =
     \<lparr>ws_id = i, ws_op = Pending, ws_timer = (timeout > 0), ws_count = 0, ws_tasks = tasks, ws_failed = {},
      ws_targetLastState = targetLastState, ws_targetCurrentState = targetCurrentState, ws_errored = False\<rparr>"

definition ws_ContainsTask :: "task_id \<Rightarrow> wait_for_state_op \<Rightarrow> bool" where
  "ws_ContainsTask i op = list_ex (\<lambda>t. fId t = i) (ws_tasks op)"

definition ws_IsCompleted :: "wait_for_state_op \<Rightarrow> bool" where
  "ws_IsCompleted op = op_IsCompleted (ws_op op)"

definition ws_Complete :: "error_code \<Rightarrow> wait_for_state_op \<Rightarrow> wait_for_state_op \<times> exn option" where
  "ws_Complete ec op =
     (let op1 = op\<lparr>ws_timer := False\<rparr>; (o', e) = op_Complete ec () (ws_op op1)
      in (op1\<lparr>ws_op := o'\<rparr>, e))"

definition ws_TryCompletion :: "wait_for_state_op \<Rightarrow> wait_for_state_op" where
  "ws_TryCompletion op =
     (if \<not> ws_IsCompleted op \<and> unat (ws_count op) = length (ws_tasks op)
      then fst (ws_Complete (if ws_errored op then MakeErrorCode DeviceChangeStateFailed else None) op)
      else op)"

definition ws_matches :: "mq_state \<times> mq_state \<Rightarrow> mq_state \<Rightarrow> mq_state \<Rightarrow> bool" where
  "ws_matches target lastState currentState \<longleftrightarrow>
     currentState = snd target \<and> (lastState = fst target \<or> fst target = Undefined)"

definition ws_target :: "wait_for_state_op \<Rightarrow> mq_state \<times> mq_state" where
  "ws_target op = (ws_targetLastState op, ws_targetCurrentState op)"

definition ws_Update ::
  "task_id \<Rightarrow> mq_state \<Rightarrow> mq_state \<Rightarrow> bool \<Rightarrow> wait_for_state_op \<Rightarrow> wait_for_state_op" where
  "ws_Update taskId lastState currentState expendable op =
     (if \<not> ws_IsCompleted op \<and> ws_ContainsTask taskId op
      then ws_TryCompletion
        (if ws_matches (ws_target op) lastState currentState then op\<lparr>ws_count := ws_count op + 1\<rparr>
         else if currentState = Error \<or> currentState = Exiting
         then if taskId \<notin> ws_failed op
              then op\<lparr>ws_errored := \<not> expendable, ws_count := ws_count op + 1,
                      ws_failed := insert taskId (ws_failed op)\<rparr>
              else op
         else op)
      else op)"

fun ws_ResetCount_loop ::
  "TopoStateIndex \<Rightarrow> TopoState \<Rightarrow> nat \<Rightarrow> wait_for_state_op \<Rightarrow> wait_for_state_op \<times> exn option" where
  "ws_ResetCount_loop [] stateData n op = (op\<lparr>ws_count := of_nat n\<rparr>, None)"
| "ws_ResetCount_loop ((_, i) # idx) stateData n op =
     (case at stateData i of
        None \<Rightarrow> (op, Some (OutOfRange ''vector::at''))
      | Some task \<Rightarrow>
          if ws_ContainsTask (ds_taskId task) op
          then if ws_matches (ws_target op) (ds_lastState task) (ds_state task)
               then ws_ResetCount_loop idx stateData (Suc n) op
               else if ds_state task = Error \<or> ds_state task = Exiting
               then ws_ResetCount_loop idx stateData (Suc n) (op\<lparr>ws_errored := True\<rparr>)
               else ws_ResetCount_loop idx stateData n op
          else ws_ResetCount_loop idx stateData n op)"

definition ws_ResetCount ::
  "TopoStateIndex \<Rightarrow> TopoState \<Rightarrow> wait_for_state_op \<Rightarrow> wait_for_state_op \<times> exn option" where
  "ws_ResetCount stateIndex stateData op = ws_ResetCount_loop stateIndex stateData 0 op"

definition ws_timer_fired :: "wait_for_state_op \<Rightarrow> wait_for_state_op \<times> exn option" where
  "ws_timer_fired op =
     (if ws_timer op
      then (let (o', e) = op_Timeout () (ws_op op) in (op\<lparr>ws_timer := False, ws_op := o'\<rparr>, e))
      else (op, None))"

lemmas ws_defs = ws_IsCompleted_def ws_Complete_def ws_TryCompletion_def ws_Update_def

section \<open>The operation refines the counter\<close>

definition ws_abs :: "wait_for_state_op \<Rightarrow> counter" where
  "ws_abs op = \<lparr>c_tasks = map fId (ws_tasks op), c_count = ws_count op, c_failed = ws_failed op,
     c_errored = ws_errored op, c_result = map_option fst (op_result (ws_op op))\<rparr>"

text \<open>One event: the task, its last and its new state, whether it is expendable.\<close>

type_synonym ws_event = "task_id \<times> mq_state \<times> mq_state \<times> bool"

fun ws_event_update :: "ws_event \<Rightarrow> wait_for_state_op \<Rightarrow> wait_for_state_op" where
  "ws_event_update (t, l, s, x) op = ws_Update t l s x op"

fun ws_view :: "mq_state \<times> mq_state \<Rightarrow> ws_event \<Rightarrow> report" where
  "ws_view target (t, l, s, x) =
     (if ws_matches target l s then Reached t
      else if s = Error \<or> s = Exiting then Failed t x else Noise t)"

definition ws_start :: "TopoStateIndex \<Rightarrow> TopoState \<Rightarrow> wait_for_state_op \<Rightarrow> wait_for_state_op" where
  "ws_start idx sd op = ws_TryCompletion (fst (ws_ResetCount idx sd op))"

definition ws_reached :: "mq_state \<times> mq_state \<Rightarrow> DeviceStatus \<Rightarrow> bool" where
  "ws_reached target d \<longleftrightarrow> ws_matches target (ds_lastState d) (ds_state d)"

lemma ws_ContainsTask_set: "ws_ContainsTask i op \<longleftrightarrow> i \<in> fId ` set (ws_tasks op)"
  by (auto simp: ws_ContainsTask_def list_ex_iff)

lemma ws_ContainsTask_errored [simp]: "ws_ContainsTask t (op\<lparr>ws_errored := b\<rparr>) = ws_ContainsTask t op"
  by (simp add: ws_ContainsTask_def)

lemma ws_target_errored [simp]: "ws_target (op\<lparr>ws_errored := b\<rparr>) = ws_target op"
  by (simp add: ws_target_def)

lemma ws_Update_result: "op_result (ws_op op) = Some r \<Longrightarrow> ws_Update t l s x op = op"
  by (simp add: ws_Update_def ws_IsCompleted_def op_IsCompleted_result)

lemma ws_TryCompletion_target [simp]: "ws_target (ws_TryCompletion op) = ws_target op"
  by (simp add: ws_defs ws_target_def split_def Let_def)

lemma ws_Update_target [simp]: "ws_target (ws_Update t l s x op) = ws_target op"
  by (simp add: ws_Update_def) (simp add: ws_target_def)

lemma ws_abs_TryCompletion: "ws_abs (ws_TryCompletion op) = counter_try (ws_abs op)"
  by (cases "ws_op op")
    (simp_all add: ws_abs_def ws_TryCompletion_def ws_Complete_def ws_IsCompleted_def counter_try_def
      verdict_code_def)

lemma ws_abs_Update:
  "ws_abs (ws_event_update e op) = counter_step (ws_view (ws_target op) e) (ws_abs op)"
proof (cases e)
  case (fields t l s x)
  have "who (ws_view (ws_target op) e) = t" by (simp add: fields)
  then have "who (ws_view (ws_target op) e) \<in> set (c_tasks (ws_abs op)) \<longleftrightarrow> ws_ContainsTask t op"
    by (simp add: ws_abs_def ws_ContainsTask_set)
  moreover have "c_result (ws_abs op) = None \<longleftrightarrow> \<not> ws_IsCompleted op"
    by (simp add: ws_abs_def ws_IsCompleted_def op_IsCompleted_result)
  ultimately show ?thesis
    by (auto simp: fields ws_Update_def counter_step_def ws_abs_TryCompletion)
      (auto simp: ws_abs_def)
qed

lemma ws_ResetCount_loop_spec:
  assumes "\<forall>(t, i) \<in> set idx. i < length sd"
  shows "ws_ResetCount_loop idx sd n op =
    (op\<lparr>ws_count := of_nat (n + length (filter (\<lambda>(t, i). ws_ContainsTask (ds_taskId (sd ! i)) op \<and>
           (ws_reached (ws_target op) (sd ! i) \<or> device_failed (sd ! i))) idx)),
        ws_errored := ws_errored op \<or> (\<exists>(t, i) \<in> set idx. ws_ContainsTask (ds_taskId (sd ! i)) op \<and>
           \<not> ws_reached (ws_target op) (sd ! i) \<and> device_failed (sd ! i))\<rparr>, None)"
  using assms
  by (induction idx sd n op rule: ws_ResetCount_loop.induct)
    (auto simp: ws_reached_def device_failed_def)

lemma ws_ResetCount_ok:
  assumes "wf_index idx sd"
  shows "snd (ws_ResetCount idx sd op) = None"
    and "ws_abs (fst (ws_ResetCount idx sd op)) =
      counter_reset (ws_reached (ws_target op)) idx sd (ws_abs op)"
    and "ws_target (fst (ws_ResetCount idx sd op)) = ws_target op"
  using assms
  by (simp_all add: ws_ResetCount_def ws_ResetCount_loop_spec wf_index_def split_def ws_abs_def
      counter_reset_def start_errored_def ws_ContainsTask_set)
    (simp add: ws_target_def)

interpretation ws_async: async_operation "\<lambda>op. op_result (ws_op op)" ws_event_update
proof unfold_locales
  fix op r e
  show "op_result (ws_op op) = Some r \<Longrightarrow> op_result (ws_op (ws_event_update e op)) = Some r"
    by (cases e) (simp add: ws_Update_result)
qed

interpretation ws_counter: counter_operation ws_abs ws_target ws_event_update ws_view ws_start ws_reached
proof unfold_locales
  fix e op
  show "ws_target (ws_event_update e op) = ws_target op" by (cases e) simp
qed (simp_all add: ws_abs_Update ws_start_def ws_abs_TryCompletion ws_ResetCount_ok)

section \<open>Properties\<close>

text \<open>
  C27: a wait-for-state operation completes exactly when every task it waits for is settled at the start
  or has reported since, and its code is the verdict of the run, when every task reports at most once
  and those settled at the start not again.
\<close>

theorem ws_completes_exactly:
  assumes "op = ws_new i l s tasks timeout" and "wf_index idx sd"
    and "distinct (map fId tasks)" and "length tasks < 2 ^ 32"
    and "once (map fId tasks) (settled (ws_reached (l, s)) idx sd (map fId tasks)) (map (ws_view (l, s)) es)"
  shows "map_option fst (op_result (ws_op (fold ws_event_update es (ws_start idx sd op)))) =
    run_verdict (ws_reached (l, s)) idx sd (map fId tasks) (map (ws_view (l, s)) es)"
proof -
  have op: "c_tasks (ws_abs op) = map fId tasks" "fresh (ws_abs op)" "ws_target op = (l, s)"
    using assms(1) by (auto simp: ws_new_def ws_abs_def fresh_def ws_target_def)
  have "c_result (ws_abs (fold ws_event_update es (ws_start idx sd op))) =
      run_verdict (ws_reached (l, s)) idx sd (map fId tasks) (map (ws_view (l, s)) es)"
    using ws_counter.start_run [of op idx sd es] op assms(2-5) by simp
  then show ?thesis by (simp add: ws_abs_def)
qed

text \<open>
  C28: waiting for the expected state of a transition from any last state is the same as requesting the
  transition: over the same devices and the same events the two operations complete at the same moment
  with the same code.
\<close>

theorem ws_equals_cs:
  assumes "cs_new i tr tasks timeout = Inr c" and "w = ws_new j Undefined (cs_targetState c) tasks timeout'"
    and "wf_index idx sd"
  shows "map_option fst (op_result (ws_op
      (fold ws_event_update (map (\<lambda>(d, t, l, s, x). (t, l, s, x)) es) (ws_start idx sd w)))) =
    map_option fst (op_result (cs_op
      (fold cs_event_update (map (\<lambda>(d, t, l, s, x). (d, t, s, x)) es) (cs_start idx sd c))))"
proof -
  have abs0: "ws_abs w = cs_abs c" and target: "ws_target w = (Undefined, cs_targetState c)"
    using assms(1,2) by (auto simp: ws_abs_def cs_abs_def ws_new_def ws_target_def cs_new_def split: option.splits)
  have reached: "ws_reached (Undefined, cs_targetState c) = cs_reached (cs_targetState c)"
    by (rule ext) (simp add: ws_reached_def cs_reached_def ws_matches_def)
  have view: "map (ws_view (Undefined, cs_targetState c)) (map (\<lambda>(d, t, l, s, x). (t, l, s, x)) es)
      = map (cs_view (cs_targetState c)) (map (\<lambda>(d, t, l, s, x). (d, t, s, x)) es)"
    by (auto simp: ws_matches_def)
  have "c_result (ws_abs (fold ws_event_update (map (\<lambda>(d, t, l, s, x). (t, l, s, x)) es) (ws_start idx sd w))) =
      c_result (cs_abs (fold cs_event_update (map (\<lambda>(d, t, l, s, x). (d, t, s, x)) es) (cs_start idx sd c)))"
    unfolding ws_counter.abs_run cs_counter.abs_run ws_counter.abs_start [OF assms(3)]
      ws_counter.target_start [OF assms(3)] cs_counter.abs_start [OF assms(3)]
      cs_counter.target_start [OF assms(3)] target view reached abs0 ..
  then show ?thesis by (simp add: ws_abs_def cs_abs_def)
qed

theorem ws_completes_exactly_witness:
  "map_option fst (op_result (ws_op (fold ws_event_update [(1, Ready, Running, False), (2, Ready, Running, False)]
      (ws_start sample_idx (sample_sd Ready Ready) (ws_new 9 Ready Running sample_tasks 0))))) = Some None"
proof -
  let ?es = "[(1, Ready, Running, False), (2, Ready, Running, False)]"
  have s: "settled (ws_reached (Ready, Running)) sample_idx (sample_sd Ready Ready) [1, 2] = {}"
    by (simp add: sample_settled ws_reached_def ws_matches_def) (simp add: sample_sd_def)
  have e: "\<not> start_errored (ws_reached (Ready, Running)) sample_idx (sample_sd Ready Ready) [1, 2]"
    by (simp add: start_errored_def sample_idx_def sample_sd_def device_failed_def)
  have "once [1, 2] {} (map (ws_view (Ready, Running)) ?es)"
    by (simp add: once_def reported_def ws_matches_def)
  then have "map_option fst (op_result (ws_op (fold ws_event_update ?es
      (ws_start sample_idx (sample_sd Ready Ready) (ws_new 9 Ready Running sample_tasks 0))))) =
    run_verdict (ws_reached (Ready, Running)) sample_idx (sample_sd Ready Ready) [1, 2] (map (ws_view (Ready, Running)) ?es)"
    using ws_completes_exactly [OF refl sample_wf, of sample_tasks Ready Running Ready Ready ?es 9 0]
    by (simp add: sample_ids s) (simp add: sample_tasks_def)
  also have "\<dots> = Some None"
    using e by (simp add: run_verdict_def s reported_def verdict_code_def ws_matches_def insert_commute)
  finally show ?thesis .
qed

theorem ws_equals_cs_witness:
  "map_option fst (op_result (ws_op (fold ws_event_update [(1, Ready, Running, False), (2, Idle, Error, True)]
      (ws_start sample_idx (sample_sd Ready Ready) (ws_new 5 Undefined Running sample_tasks 0))))) =
    map_option fst (op_result (cs_op (fold cs_event_update [([], 1, Running, False), ([], 2, Error, True)]
      (cs_start sample_idx (sample_sd Ready Ready) sample_op))))"
  using ws_equals_cs [OF sample_new refl sample_wf [of Ready Ready], where j = 5 and timeout' = 0 
      and es = "[([], 1, Ready, Running, False), ([], 2, Idle, Error, True)]"]
  by (simp add: sample_op_def)

end
