(* ===== verification/Custom_Commands.thy ===== *)
theory Custom_Commands
  imports Topology_Defs
begin

text \<open>
  \<^verbatim>\<open>src/odc/cc/CustomCommands.h\<close> and \<^verbatim>\<open>CustomCommands.cpp\<close>: the commands the controller and the devices
  exchange and their serialisation. A command class is a record of its members (the getters and
  setters are the selectors and updates), \<^verbatim>\<open>Cmd\<close> is the datatype over them.

  The tables translate between the FairMQ enumerations and the enumerations that
  \<^verbatim>\<open>CustomCommandsFormat.fbs\<close> declares; an FB enumeration value is the \<^verbatim>\<open>byte\<close> on the wire, read as an
  integer, and an enumerator is written with the constructor of the same name. Parameters: the numbers
  FairMQ gives its enumerators (\<open>mq_numbers\<close>) and the FlatBuffers library (\<open>fb_codec\<close>).
\<close>

section \<open>Enumerations\<close>

datatype Format = Binary | JSON

datatype Result = Result_Ok | Result_Failure

datatype Type =
    Type_check_state | Type_change_state | Type_dump_config | Type_subscribe_to_state_change
  | Type_unsubscribe_from_state_change | Type_get_properties | Type_set_properties
  | Type_subscription_heartbeat | Type_transition_status | Type_config
  | Type_state_change_subscription | Type_state_change_unsubscription | Type_state_change
  | Type_properties | Type_properties_set

definition all_types :: "Type list" where
  "all_types = [Type_check_state, Type_change_state, Type_dump_config, Type_subscribe_to_state_change,
     Type_unsubscribe_from_state_change, Type_get_properties, Type_set_properties,
     Type_subscription_heartbeat, Type_transition_status, Type_config,
     Type_state_change_subscription, Type_state_change_unsubscription, Type_state_change,
     Type_properties, Type_properties_set]"

section \<open>Commands\<close>

record ChangeState =
  chs_transition :: mq_transition

record SubscribeToStateChange =
  sub_interval :: "64 word"

record GetProperties =
  gpr_requestId :: u64
  gpr_query :: string

record SetProperties =
  spr_requestId :: u64
  spr_properties :: "(string \<times> string) list"

record SubscriptionHeartbeat =
  hb_interval :: "64 word"

record TransitionStatus =
  ts_deviceId :: string
  ts_taskId :: task_id
  ts_result :: Result
  ts_transition :: mq_transition
  ts_currentState :: mq_state

record Config =
  cfg_deviceId :: string
  cfg_config :: string

record StateChangeSubscription =
  scs_deviceId :: string
  scs_taskId :: task_id
  scs_result :: Result

record StateChangeUnsubscription =
  scu_deviceId :: string
  scu_taskId :: task_id
  scu_result :: Result

record StateChange =
  sc_deviceId :: string
  sc_taskId :: task_id
  sc_lastState :: mq_state
  sc_currentState :: mq_state

record Properties =
  pr_deviceId :: string
  pr_taskId :: task_id
  pr_requestId :: u64
  pr_result :: Result
  pr_properties :: "(string \<times> string) list"

record PropertiesSet =
  ps_deviceId :: string
  ps_taskId :: task_id
  ps_requestId :: u64
  ps_result :: Result

datatype Cmd =
    CheckState
  | ChangeState ChangeState
  | DumpConfig
  | SubscribeToStateChange SubscribeToStateChange
  | UnsubscribeFromStateChange
  | GetProperties GetProperties
  | SetProperties SetProperties
  | SubscriptionHeartbeat SubscriptionHeartbeat
  | TransitionStatus TransitionStatus
  | Config Config
  | StateChangeSubscription StateChangeSubscription
  | StateChangeUnsubscription StateChangeUnsubscription
  | StateChange StateChange
  | Properties Properties
  | PropertiesSet PropertiesSet

type_synonym Cmds = "Cmd list"

fun GetType :: "Cmd \<Rightarrow> Type" where
  "GetType CheckState = Type_check_state"
| "GetType (ChangeState _) = Type_change_state"
| "GetType DumpConfig = Type_dump_config"
| "GetType (SubscribeToStateChange _) = Type_subscribe_to_state_change"
| "GetType UnsubscribeFromStateChange = Type_unsubscribe_from_state_change"
| "GetType (GetProperties _) = Type_get_properties"
| "GetType (SetProperties _) = Type_set_properties"
| "GetType (SubscriptionHeartbeat _) = Type_subscription_heartbeat"
| "GetType (TransitionStatus _) = Type_transition_status"
| "GetType (Config _) = Type_config"
| "GetType (StateChangeSubscription _) = Type_state_change_subscription"
| "GetType (StateChangeUnsubscription _) = Type_state_change_unsubscription"
| "GetType (StateChange _) = Type_state_change"
| "GetType (Properties _) = Type_properties"
| "GetType (PropertiesSet _) = Type_properties_set"

text \<open>\<^verbatim>\<open>Cmds::Add\<close>, \<^verbatim>\<open>At\<close> and \<^verbatim>\<open>Reset\<close>.\<close>

definition Cmds_Add :: "Cmd \<Rightarrow> Cmds \<Rightarrow> Cmds" where
  "Cmds_Add cmd cmds = cmds @ [cmd]"

definition Cmds_At :: "Cmds \<Rightarrow> nat \<Rightarrow> exn + Cmd" where
  "Cmds_At cmds i = (case at cmds i of None \<Rightarrow> Inl (OutOfRange ''vector::at'') | Some c \<Rightarrow> Inr c)"

section \<open>The wire enumerations\<close>

text \<open>The enumerators in the order \<^verbatim>\<open>CustomCommandsFormat.fbs\<close> declares them, which numbers them from 0.\<close>

definition FBResult_decl :: "Result list" where
  "FBResult_decl = [Result_Ok, Result_Failure]"

definition FBState_decl :: "mq_state list" where
  "FBState_decl = [Undefined, Ok, Error, Idle, InitializingDevice, Initialized, Binding, Bound,
     Connecting, DeviceReady, InitializingTask, Ready, Running, ResettingTask, ResettingDevice, Exiting]"

definition FBTransition_decl :: "mq_transition list" where
  "FBTransition_decl = [Auto, InitDevice, CompleteInit, Bind, Connect, InitTask, Run, Stop,
     ResetTask, ResetDevice, End, ErrorFound]"

definition FBCmd_decl :: "Type list" where
  "FBCmd_decl = [Type_check_state, Type_change_state, Type_dump_config, Type_subscribe_to_state_change,
     Type_unsubscribe_from_state_change, Type_get_properties, Type_set_properties,
     Type_subscription_heartbeat, Type_transition_status, Type_config,
     Type_state_change_subscription, Type_state_change_unsubscription, Type_state_change,
     Type_properties, Type_properties_set]"

fun position :: "'a \<Rightarrow> 'a list \<Rightarrow> nat" where
  "position x [] = 0"
| "position x (y # ys) = (if x = y then 0 else Suc (position x ys))"

abbreviation "FBResult_value r \<equiv> int (position r FBResult_decl)"
abbreviation "FBState_value s \<equiv> int (position s FBState_decl)"
abbreviation "FBTransition_value t \<equiv> int (position t FBTransition_decl)"
abbreviation "FBCmd_value t \<equiv> int (position t FBCmd_decl)"

text \<open>The tables of \<^verbatim>\<open>CustomCommands.cpp\<close>.\<close>

definition fbResultToResult :: "Result list" where
  "fbResultToResult = [Result_Ok, Result_Failure]"

definition resultToFBResult :: "int list" where
  "resultToFBResult = map (\<lambda>r. FBResult_value r) [Result_Ok, Result_Failure]"

definition resultNames :: "string list" where
  "resultNames = [''Ok'', ''Failure'']"

definition typeNames :: "string list" where
  "typeNames = [''CheckState'', ''ChangeState'', ''DumpConfig'', ''SubscribeToStateChange'',
     ''UnsubscribeFromStateChange'', ''GetProperties'', ''SetProperties'', ''SubscriptionHeartbeat'',
     ''TransitionStatus'', ''Config'', ''StateChangeSubscription'', ''StateChangeUnsubscription'',
     ''StateChange'', ''Properties'', ''PropertiesSet'']"

definition fbStateToMQState :: "mq_state list" where
  "fbStateToMQState = [Undefined, Ok, Error, Idle, InitializingDevice, Initialized, Binding, Bound,
     Connecting, DeviceReady, InitializingTask, Ready, Running, ResettingTask, ResettingDevice, Exiting]"

definition mqStateToFBState :: "int list" where
  "mqStateToFBState = map (\<lambda>s. FBState_value s)
     [Undefined, Ok, Error, Idle, InitializingDevice, Initialized, Binding, Bound,
      Connecting, DeviceReady, InitializingTask, Ready, Running, ResettingTask, ResettingDevice, Exiting]"

definition fbTransitionToMQTransition :: "mq_transition list" where
  "fbTransitionToMQTransition = [Auto, InitDevice, CompleteInit, Bind, Connect, InitTask, Run, Stop,
     ResetTask, ResetDevice, End, ErrorFound]"

definition mqTransitionToFBTransition :: "int list" where
  "mqTransitionToFBTransition = map (\<lambda>t. FBTransition_value t)
     [Auto, InitDevice, CompleteInit, Bind, Connect, InitTask, Run, Stop, ResetTask, ResetDevice, End, ErrorFound]"

definition typeToFBCmd :: "int list" where
  "typeToFBCmd = map (\<lambda>t. FBCmd_value t)
     [Type_check_state, Type_change_state, Type_dump_config, Type_subscribe_to_state_change,
      Type_unsubscribe_from_state_change, Type_get_properties, Type_set_properties,
      Type_subscription_heartbeat, Type_transition_status, Type_config,
      Type_state_change_subscription, Type_state_change_unsubscription, Type_state_change,
      Type_properties, Type_properties_set]"

text \<open>\<^verbatim>\<open>array::at\<close>; a negative index converts to a large unsigned one and is out of range as well.\<close>

definition array_at :: "'a list \<Rightarrow> int \<Rightarrow> exn + 'a" where
  "array_at xs i = (if 0 \<le> i \<and> i < int (length xs) then Inr (xs ! nat i) else Inl (OutOfRange ''array::at''))"

text \<open>\<^verbatim>\<open>static_cast<int>\<close> of the FairMQ enumerators, and of the enumerators declared in the header.\<close>

record mq_numbers =
  state_int :: "mq_state \<Rightarrow> int"
  transition_int :: "mq_transition \<Rightarrow> int"

definition Result_int :: "Result \<Rightarrow> int" where
  "Result_int r = int (position r [Result_Ok, Result_Failure])"

definition Type_int :: "Type \<Rightarrow> int" where
  "Type_int t = int (position t all_types)"

definition GetMQState :: "int \<Rightarrow> exn + mq_state" where
  "GetMQState s = array_at fbStateToMQState s"

definition GetFBState :: "mq_numbers \<Rightarrow> mq_state \<Rightarrow> exn + int" where
  "GetFBState N s = array_at mqStateToFBState (state_int N s)"

definition GetMQTransition :: "int \<Rightarrow> exn + mq_transition" where
  "GetMQTransition t = array_at fbTransitionToMQTransition t"

definition GetFBTransition :: "mq_numbers \<Rightarrow> mq_transition \<Rightarrow> exn + int" where
  "GetFBTransition N t = array_at mqTransitionToFBTransition (transition_int N t)"

definition GetResult :: "int \<Rightarrow> exn + Result" where
  "GetResult r = array_at fbResultToResult r"

definition GetFBResult :: "Result \<Rightarrow> exn + int" where
  "GetFBResult r = array_at resultToFBResult (Result_int r)"

definition GetResultName :: "Result \<Rightarrow> exn + string" where
  "GetResultName r = array_at resultNames (Result_int r)"

definition GetTypeName :: "Type \<Rightarrow> exn + string" where
  "GetTypeName t = array_at typeNames (Type_int t)"

definition GetFBCmd :: "Type \<Rightarrow> exn + int" where
  "GetFBCmd t = array_at typeToFBCmd (Type_int t)"

text \<open>The documented numbering of FairMQ: both enumerations count from 0 in declaration order.\<close>

definition mq_numbering :: "mq_numbers \<Rightarrow> bool" where
  "mq_numbering N \<longleftrightarrow> map (state_int N) all_states = map int [0..<16] \<and>
     map (transition_int N) all_transitions = map int [0..<12]"

definition fairmq_numbers :: mq_numbers where
  "fairmq_numbers = \<lparr>state_int = \<lambda>s. int (position s all_states), transition_int = \<lambda>t. int (position t all_transitions)\<rparr>"

lemma mq_numbering_fairmq: "mq_numbering fairmq_numbers"
  by (simp add: mq_numbering_def fairmq_numbers_def all_states_def all_transitions_def upt_rec)

section \<open>Serialisation\<close>

text \<open>
  The table \<^verbatim>\<open>FBCommand\<close> of the schema: an absent string or vector is \<open>None\<close>, a scalar that is not
  added reads as its default 0.
\<close>

record FBCommand =
  fb_command_id :: int
  fb_device_id :: "string option"
  fb_task_id :: u64
  fb_request_id :: u64
  fb_interval :: "64 word"
  fb_state :: int
  fb_transition :: int
  fb_result :: int
  fb_config_string :: "string option"
  fb_last_state :: int
  fb_current_state :: int
  fb_debug :: "string option"
  fb_properties :: "(string option \<times> string option) list option"
  fb_property_query :: "string option"

definition FBCommandBuilder :: FBCommand where
  "FBCommandBuilder = \<lparr>fb_command_id = 0, fb_device_id = None, fb_task_id = 0, fb_request_id = 0,
     fb_interval = 0, fb_state = 0, fb_transition = 0, fb_result = 0, fb_config_string = None,
     fb_last_state = 0, fb_current_state = 0, fb_debug = None, fb_properties = None,
     fb_property_query = None\<rparr>"

text \<open>
  The FlatBuffers library: building and reading a binary buffer, generating and parsing JSON text
  against the compiled-in schema, and whether that schema itself parses.
\<close>

record fb_codec =
  fb_build :: "FBCommand list \<Rightarrow> string"
  fb_read :: "string \<Rightarrow> FBCommand list"
  fb_schema_parses :: bool
  fb_GenerateText :: "FBCommand list \<Rightarrow> string option"
  fb_ParseText :: "string \<Rightarrow> FBCommand list option"

definition bind_exn :: "exn + 'a \<Rightarrow> ('a \<Rightarrow> exn + 'b) \<Rightarrow> exn + 'b" where
  "bind_exn x f = (case x of Inl e \<Rightarrow> Inl e | Inr v \<Rightarrow> f v)"

lemma bind_exn_simps [simp]: "bind_exn (Inl e) f = Inl e" "bind_exn (Inr v) f = f v"
  by (simp_all add: bind_exn_def)

definition fb_props :: "(string \<times> string) list \<Rightarrow> (string option \<times> string option) list option" where
  "fb_props ps = Some (map (\<lambda>(k, v). (Some k, Some v)) ps)"

text \<open>One round of the loop of \<^verbatim>\<open>Serialize\<close>: the switch, then \<^verbatim>\<open>add_command_id\<close>.\<close>

fun Serialize_args :: "mq_numbers \<Rightarrow> Cmd \<Rightarrow> exn + FBCommand" where
  "Serialize_args N (ChangeState c) =
     bind_exn (GetFBTransition N (chs_transition c)) (\<lambda>t. Inr (FBCommandBuilder\<lparr>fb_transition := t\<rparr>))"
| "Serialize_args N (SubscribeToStateChange c) = Inr (FBCommandBuilder\<lparr>fb_interval := sub_interval c\<rparr>)"
| "Serialize_args N (GetProperties c) =
     Inr (FBCommandBuilder\<lparr>fb_request_id := gpr_requestId c, fb_property_query := Some (gpr_query c)\<rparr>)"
| "Serialize_args N (SetProperties c) =
     Inr (FBCommandBuilder\<lparr>fb_request_id := spr_requestId c, fb_properties := fb_props (spr_properties c)\<rparr>)"
| "Serialize_args N (SubscriptionHeartbeat c) = Inr (FBCommandBuilder\<lparr>fb_interval := hb_interval c\<rparr>)"
| "Serialize_args N (TransitionStatus c) =
     bind_exn (GetFBResult (ts_result c)) (\<lambda>r.
     bind_exn (GetFBTransition N (ts_transition c)) (\<lambda>t.
     bind_exn (GetFBState N (ts_currentState c)) (\<lambda>s.
       Inr (FBCommandBuilder\<lparr>fb_device_id := Some (ts_deviceId c), fb_task_id := ts_taskId c, fb_result := r,
         fb_transition := t, fb_current_state := s\<rparr>))))"
| "Serialize_args N (Config c) =
     Inr (FBCommandBuilder\<lparr>fb_device_id := Some (cfg_deviceId c), fb_config_string := Some (cfg_config c)\<rparr>)"
| "Serialize_args N (StateChangeSubscription c) =
     bind_exn (GetFBResult (scs_result c)) (\<lambda>r.
       Inr (FBCommandBuilder\<lparr>fb_device_id := Some (scs_deviceId c), fb_task_id := scs_taskId c, fb_result := r\<rparr>))"
| "Serialize_args N (StateChangeUnsubscription c) =
     bind_exn (GetFBResult (scu_result c)) (\<lambda>r.
       Inr (FBCommandBuilder\<lparr>fb_device_id := Some (scu_deviceId c), fb_task_id := scu_taskId c, fb_result := r\<rparr>))"
| "Serialize_args N (StateChange c) =
     bind_exn (GetFBState N (sc_lastState c)) (\<lambda>l.
     bind_exn (GetFBState N (sc_currentState c)) (\<lambda>s.
       Inr (FBCommandBuilder\<lparr>fb_device_id := Some (sc_deviceId c), fb_task_id := sc_taskId c,
         fb_last_state := l, fb_current_state := s\<rparr>)))"
| "Serialize_args N (Properties c) =
     bind_exn (GetFBResult (pr_result c)) (\<lambda>r.
       Inr (FBCommandBuilder\<lparr>fb_device_id := Some (pr_deviceId c), fb_task_id := pr_taskId c,
         fb_request_id := pr_requestId c, fb_result := r, fb_properties := fb_props (pr_properties c)\<rparr>))"
| "Serialize_args N (PropertiesSet c) =
     bind_exn (GetFBResult (ps_result c)) (\<lambda>r.
       Inr (FBCommandBuilder\<lparr>fb_device_id := Some (ps_deviceId c), fb_task_id := ps_taskId c,
         fb_request_id := ps_requestId c, fb_result := r\<rparr>))"
| "Serialize_args N CheckState = Inr FBCommandBuilder"
| "Serialize_args N DumpConfig = Inr FBCommandBuilder"
| "Serialize_args N UnsubscribeFromStateChange = Inr FBCommandBuilder"

definition Serialize_cmd :: "mq_numbers \<Rightarrow> Cmd \<Rightarrow> exn + FBCommand" where
  "Serialize_cmd N cmd =
     bind_exn (Serialize_args N cmd) (\<lambda>b.
     bind_exn (array_at typeToFBCmd (Type_int (GetType cmd))) (\<lambda>i. Inr (b\<lparr>fb_command_id := i\<rparr>)))"

fun Serialize_cmds :: "mq_numbers \<Rightarrow> Cmds \<Rightarrow> exn + FBCommand list" where
  "Serialize_cmds N [] = Inr []"
| "Serialize_cmds N (c # cs) =
     bind_exn (Serialize_cmd N c) (\<lambda>b. bind_exn (Serialize_cmds N cs) (\<lambda>bs. Inr (b # bs)))"

definition Serialize :: "mq_numbers \<Rightarrow> fb_codec \<Rightarrow> Format \<Rightarrow> Cmds \<Rightarrow> exn + string" where
  "Serialize N fb type cmds =
     bind_exn (Serialize_cmds N cmds) (\<lambda>bs.
       case type of
         Binary \<Rightarrow> Inr (fb_build fb bs)
       | JSON \<Rightarrow>
           if \<not> fb_schema_parses fb
           then Inl (RuntimeError ''Serialize couldn't parse commands format'')
           else case fb_GenerateText fb bs of
                  None \<Rightarrow> Inl (RuntimeError ''Serialize couldn't serialize parsed data to JSON!'')
                | Some json \<Rightarrow> Inr json)"

section \<open>Deserialisation\<close>

text \<open>
  Following an absent string or vector dereferences a null pointer, which is undefined behaviour;
  the model stops there with a value of its own.
\<close>

definition null_pointer :: exn where
  "null_pointer = OtherException ''null pointer''"

definition deref :: "'a option \<Rightarrow> exn + 'a" where
  "deref p = (case p of None \<Rightarrow> Inl null_pointer | Some v \<Rightarrow> Inr v)"

lemma deref_simps [simp]: "deref None = Inl null_pointer" "deref (Some v) = Inr v"
  by (simp_all add: deref_def)

fun read_props_list :: "(string option \<times> string option) list \<Rightarrow> exn + (string \<times> string) list" where
  "read_props_list [] = Inr []"
| "read_props_list ((k, v) # ps) =
     bind_exn (deref k) (\<lambda>k'. bind_exn (deref v) (\<lambda>v'.
     bind_exn (read_props_list ps) (\<lambda>ps'. Inr ((k', v') # ps'))))"

definition read_props :: "(string option \<times> string option) list option \<Rightarrow> exn + (string \<times> string) list" where
  "read_props p = bind_exn (deref p) read_props_list"

definition Deserialize_cmd :: "FBCommand \<Rightarrow> exn + Cmd" where
  "Deserialize_cmd b =
    (if fb_command_id b = FBCmd_value Type_check_state then Inr CheckState
     else if fb_command_id b = FBCmd_value Type_change_state then
       bind_exn (GetMQTransition (fb_transition b)) (\<lambda>t. Inr (ChangeState \<lparr>chs_transition = t\<rparr>))
     else if fb_command_id b = FBCmd_value Type_dump_config then Inr DumpConfig
     else if fb_command_id b = FBCmd_value Type_subscribe_to_state_change then
       Inr (SubscribeToStateChange \<lparr>sub_interval = fb_interval b\<rparr>)
     else if fb_command_id b = FBCmd_value Type_unsubscribe_from_state_change then Inr UnsubscribeFromStateChange
     else if fb_command_id b = FBCmd_value Type_get_properties then
       bind_exn (deref (fb_property_query b)) (\<lambda>q.
         Inr (GetProperties \<lparr>gpr_requestId = fb_request_id b, gpr_query = q\<rparr>))
     else if fb_command_id b = FBCmd_value Type_set_properties then
       bind_exn (read_props (fb_properties b)) (\<lambda>ps.
         Inr (SetProperties \<lparr>spr_requestId = fb_request_id b, spr_properties = ps\<rparr>))
     else if fb_command_id b = FBCmd_value Type_subscription_heartbeat then
       Inr (SubscriptionHeartbeat \<lparr>hb_interval = fb_interval b\<rparr>)
     else if fb_command_id b = FBCmd_value Type_transition_status then
       bind_exn (deref (fb_device_id b)) (\<lambda>d. bind_exn (GetResult (fb_result b)) (\<lambda>r.
       bind_exn (GetMQTransition (fb_transition b)) (\<lambda>t. bind_exn (GetMQState (fb_current_state b)) (\<lambda>s.
         Inr (TransitionStatus \<lparr>ts_deviceId = d, ts_taskId = fb_task_id b, ts_result = r,
           ts_transition = t, ts_currentState = s\<rparr>)))))
     else if fb_command_id b = FBCmd_value Type_config then
       bind_exn (deref (fb_device_id b)) (\<lambda>d. bind_exn (deref (fb_config_string b)) (\<lambda>c.
         Inr (Config \<lparr>cfg_deviceId = d, cfg_config = c\<rparr>)))
     else if fb_command_id b = FBCmd_value Type_state_change_subscription then
       bind_exn (deref (fb_device_id b)) (\<lambda>d. bind_exn (GetResult (fb_result b)) (\<lambda>r.
         Inr (StateChangeSubscription \<lparr>scs_deviceId = d, scs_taskId = fb_task_id b, scs_result = r\<rparr>)))
     else if fb_command_id b = FBCmd_value Type_state_change_unsubscription then
       bind_exn (deref (fb_device_id b)) (\<lambda>d. bind_exn (GetResult (fb_result b)) (\<lambda>r.
         Inr (StateChangeUnsubscription \<lparr>scu_deviceId = d, scu_taskId = fb_task_id b, scu_result = r\<rparr>)))
     else if fb_command_id b = FBCmd_value Type_state_change then
       bind_exn (deref (fb_device_id b)) (\<lambda>d. bind_exn (GetMQState (fb_last_state b)) (\<lambda>l.
       bind_exn (GetMQState (fb_current_state b)) (\<lambda>s.
         Inr (StateChange \<lparr>sc_deviceId = d, sc_taskId = fb_task_id b, sc_lastState = l, sc_currentState = s\<rparr>))))
     else if fb_command_id b = FBCmd_value Type_properties then
       bind_exn (read_props (fb_properties b)) (\<lambda>ps. bind_exn (deref (fb_device_id b)) (\<lambda>d.
       bind_exn (GetResult (fb_result b)) (\<lambda>r.
         Inr (Properties \<lparr>pr_deviceId = d, pr_taskId = fb_task_id b, pr_requestId = fb_request_id b,
           pr_result = r, pr_properties = ps\<rparr>))))
     else if fb_command_id b = FBCmd_value Type_properties_set then
       bind_exn (deref (fb_device_id b)) (\<lambda>d. bind_exn (GetResult (fb_result b)) (\<lambda>r.
         Inr (PropertiesSet \<lparr>ps_deviceId = d, ps_taskId = fb_task_id b, ps_requestId = fb_request_id b,
           ps_result = r\<rparr>)))
     else Inl (RuntimeError ''unrecognized command type given to odc::cc::Cmds::Deserialize()''))"

text \<open>The loop appends to \<^verbatim>\<open>fCmds\<close>; an exception leaves what was appended so far.\<close>

fun Deserialize_loop :: "FBCommand list \<Rightarrow> Cmds \<Rightarrow> Cmds \<times> exn option" where
  "Deserialize_loop [] cmds = (cmds, None)"
| "Deserialize_loop (b # bs) cmds =
     (case Deserialize_cmd b of
        Inl e \<Rightarrow> (cmds, Some e)
      | Inr c \<Rightarrow> Deserialize_loop bs (Cmds_Add c cmds))"

text \<open>The JSON branch hands the parser a C string, which ends at the first NUL.\<close>

definition c_str :: "string \<Rightarrow> string" where
  "c_str s = takeWhile (\<lambda>c. c \<noteq> CHR 0x00) s"

definition Deserialize :: "fb_codec \<Rightarrow> Format \<Rightarrow> string \<Rightarrow> Cmds \<Rightarrow> Cmds \<times> exn option" where
  "Deserialize fb type str cmds =
     (case type of
        Binary \<Rightarrow> Deserialize_loop (fb_read fb str) []
      | JSON \<Rightarrow>
          if \<not> fb_schema_parses fb
          then ([], Some (RuntimeError ''Deserialize couldn't parse commands format''))
          else case fb_ParseText fb (c_str str) of
                 None \<Rightarrow> ([], Some (RuntimeError ''Deserialize couldn't parse incoming JSON string''))
               | Some bs \<Rightarrow> Deserialize_loop bs [])"

section \<open>The tables are inverse\<close>

lemma state_numbers:
  "mq_numbering N \<Longrightarrow> state_int N s = FBState_value s"
  by (cases s) (simp_all add: mq_numbering_def all_states_def all_transitions_def FBState_decl_def upt_rec)

lemma transition_numbers:
  "mq_numbering N \<Longrightarrow> transition_int N t = FBTransition_value t"
  by (cases t) (simp_all add: mq_numbering_def all_states_def all_transitions_def FBTransition_decl_def upt_rec)

lemma GetFBState_ok: "mq_numbering N \<Longrightarrow> GetFBState N s = Inr (FBState_value s)"
  by (cases s) (simp_all add: GetFBState_def state_numbers array_at_def mqStateToFBState_def FBState_decl_def)

lemma GetMQState_ok [simp]: "GetMQState (FBState_value s) = Inr s"
  by (cases s) (simp_all add: GetMQState_def array_at_def fbStateToMQState_def FBState_decl_def)

lemma GetFBTransition_ok: "mq_numbering N \<Longrightarrow> GetFBTransition N t = Inr (FBTransition_value t)"
  by (cases t)
    (simp_all add: GetFBTransition_def transition_numbers array_at_def mqTransitionToFBTransition_def FBTransition_decl_def)

lemma GetMQTransition_ok [simp]: "GetMQTransition (FBTransition_value t) = Inr t"
  by (cases t) (simp_all add: GetMQTransition_def array_at_def fbTransitionToMQTransition_def FBTransition_decl_def)

lemma GetFBResult_ok [simp]: "GetFBResult r = Inr (FBResult_value r)"
  by (cases r) (simp_all add: GetFBResult_def Result_int_def array_at_def resultToFBResult_def FBResult_decl_def)

lemma GetResult_ok [simp]: "GetResult (FBResult_value r) = Inr r"
  by (cases r) (simp_all add: GetResult_def array_at_def fbResultToResult_def FBResult_decl_def)

lemma typeToFBCmd_ok [simp]: "array_at typeToFBCmd (Type_int t) = Inr (FBCmd_value t)"
  by (cases t) (simp_all add: array_at_def Type_int_def all_types_def typeToFBCmd_def FBCmd_decl_def)

lemma read_props_ok [simp]: "read_props (fb_props ps) = Inr ps"
proof -
  have "read_props_list (map (\<lambda>(k, v). (Some k, Some v)) ps) = Inr ps"
    by (induction ps) auto
  then show ?thesis by (simp add: read_props_def fb_props_def)
qed

lemma Deserialize_Serialize_cmd:
  assumes "mq_numbering N"
  shows "\<exists>b. Serialize_cmd N c = Inr b \<and> Deserialize_cmd b = Inr c"
  by (cases c)
    (simp_all add: Serialize_cmd_def Deserialize_cmd_def FBCmd_decl_def GetFBState_ok [OF assms] GetFBTransition_ok [OF assms] FBCommandBuilder_def)

lemma Deserialize_loop_append:
  "Deserialize_loop bs cmds = (let (cs, e) = Deserialize_loop bs [] in (cmds @ cs, e))"
proof (induction bs arbitrary: cmds)
  case (Cons b bs)
  show ?case
  proof (cases "Deserialize_cmd b")
    case (Inr c)
    then show ?thesis
      using Cons [of "cmds @ [c]"] Cons [of "[c]"]
      by (simp add: Cmds_Add_def split_def Let_def)
  qed simp
qed simp

lemma Deserialize_loop_Serialize:
  assumes "mq_numbering N"
  shows "\<exists>bs. Serialize_cmds N cmds = Inr bs \<and> length bs = length cmds \<and> Deserialize_loop bs [] = (cmds, None)"
proof (induction cmds)
  case (Cons c cs)
  then obtain bs where bs: "Serialize_cmds N cs = Inr bs" "length bs = length cs"
    "Deserialize_loop bs [] = (cs, None)" by auto
  obtain b where "Serialize_cmd N c = Inr b" "Deserialize_cmd b = Inr c"
    using Deserialize_Serialize_cmd [OF assms] by blast
  then show ?case using bs Deserialize_loop_append [of bs "[c]"] by (simp add: Cmds_Add_def)
qed simp

text \<open>Where the loop stops: \<open>cs\<close> are the commands decoded before the exception \<open>e\<close>.\<close>

definition stops_at :: "FBCommand list \<Rightarrow> Cmds \<Rightarrow> exn option \<Rightarrow> bool" where
  "stops_at bs cs e \<longleftrightarrow> (\<exists>pre post. bs = pre @ post \<and> map Deserialize_cmd pre = map Inr cs \<and>
     (case e of None \<Rightarrow> post = [] | Some x \<Rightarrow> post \<noteq> [] \<and> Deserialize_cmd (hd post) = Inl x))"

lemma stops_at_Nil: "stops_at [] cs e \<longleftrightarrow> cs = [] \<and> e = None"
  by (cases e) (auto simp: stops_at_def)

lemma stops_at_Inl:
  assumes "Deserialize_cmd b = Inl x"
  shows "stops_at (b # bs) cs e \<longleftrightarrow> cs = [] \<and> e = Some x"
proof
  assume "stops_at (b # bs) cs e"
  then obtain pre post where p: "b # bs = pre @ post" "map Deserialize_cmd pre = map Inr cs"
    "case e of None \<Rightarrow> post = [] | Some x \<Rightarrow> post \<noteq> [] \<and> Deserialize_cmd (hd post) = Inl x"
    unfolding stops_at_def by blast
  have "pre = []" using p(1,2) assms by (cases pre; cases cs) auto
  then show "cs = [] \<and> e = Some x" using p assms by (cases e) auto
next
  assume "cs = [] \<and> e = Some x"
  then show "stops_at (b # bs) cs e"
    unfolding stops_at_def using assms by (intro exI [of _ "[]"] exI [of _ "b # bs"]) simp
qed

lemma stops_at_Inr:
  assumes "Deserialize_cmd b = Inr c"
  shows "stops_at (b # bs) cs e \<longleftrightarrow> (\<exists>cs'. cs = c # cs' \<and> stops_at bs cs' e)"
proof
  assume "stops_at (b # bs) cs e"
  then obtain pre post where p: "b # bs = pre @ post" "map Deserialize_cmd pre = map Inr cs"
    "case e of None \<Rightarrow> post = [] | Some x \<Rightarrow> post \<noteq> [] \<and> Deserialize_cmd (hd post) = Inl x"
    unfolding stops_at_def by blast
  have "pre \<noteq> []" using p(1,3) assms by (cases e) auto
  then obtain pre' where "pre = b # pre'" "bs = pre' @ post" using p(1) by (cases pre) auto
  then show "\<exists>cs'. cs = c # cs' \<and> stops_at bs cs' e"
    using p(2,3) assms unfolding stops_at_def by (cases cs) auto
next
  assume "\<exists>cs'. cs = c # cs' \<and> stops_at bs cs' e"
  then obtain cs' pre post where p: "cs = c # cs'" "bs = pre @ post" "map Deserialize_cmd pre = map Inr cs'"
    "case e of None \<Rightarrow> post = [] | Some x \<Rightarrow> post \<noteq> [] \<and> Deserialize_cmd (hd post) = Inl x"
    unfolding stops_at_def by blast
  then show "stops_at (b # bs) cs e"
    unfolding stops_at_def using assms by (intro exI [of _ "b # pre"] exI [of _ post]) simp
qed

lemma Deserialize_loop_stops: "Deserialize_loop bs [] = (cs, e) \<longleftrightarrow> stops_at bs cs e"
proof (induction bs arbitrary: cs)
  case Nil
  then show ?case by (auto simp: stops_at_Nil)
next
  case (Cons b bs)
  show ?case
  proof (cases "Deserialize_cmd b")
    case (Inl x)
    then show ?thesis by (auto simp: stops_at_Inl)
  next
    case (Inr c)
    have "Deserialize_loop (b # bs) [] = (cs, e) \<longleftrightarrow> (\<exists>cs'. cs = c # cs' \<and> Deserialize_loop bs [] = (cs', e))"
      using Inr Deserialize_loop_append [of bs "[c]"]
      by (cases "Deserialize_loop bs []") (auto simp: Cmds_Add_def)
    then show ?thesis by (simp only: Cons.IH stops_at_Inr [OF Inr])
  qed
qed

section \<open>Properties\<close>

text \<open>
  C17: what \<^verbatim>\<open>Serialize\<close> writes in either format, \<^verbatim>\<open>Deserialize\<close> reads back as the same commands,
  whatever the object held before: with FairMQ's numbering of its enumerations, for a FlatBuffers library
  that reads back the table it has built or printed, and a JSON text without a NUL character.
\<close>

theorem Deserialize_Serialize:
  assumes "mq_numbering N" and "fb_schema_parses fb"
    and "\<And>bs. Serialize_cmds N cmds = Inr bs \<Longrightarrow> fb_read fb (fb_build fb bs) = bs \<and>
      (\<exists>json. fb_GenerateText fb bs = Some json \<and> CHR 0x00 \<notin> set json \<and> fb_ParseText fb json = Some bs)"
  shows "\<exists>str. Serialize N fb type cmds = Inr str \<and> Deserialize fb type str old = (cmds, None)"
proof -
  obtain bs where bs: "Serialize_cmds N cmds = Inr bs" "Deserialize_loop bs [] = (cmds, None)"
    using Deserialize_loop_Serialize [OF assms(1)] by blast
  obtain json where json: "fb_GenerateText fb bs = Some json" "CHR 0x00 \<notin> set json" "fb_ParseText fb json = Some bs"
    using assms(3) [OF bs(1)] by blast
  have "c_str json = json" using json(2) by (simp add: c_str_def takeWhile_eq_all_conv) (metis)
  then show ?thesis
    using assms(2) assms(3) [OF bs(1)] bs json by (cases type) (auto simp: Serialize_def Deserialize_def)
qed

text \<open>
  Deserialising stops at the first table that is not a command and keeps exactly the commands
  before it; without such a table it keeps one command per table and reports no error.
\<close>

theorem Deserialize_stops_at_first_error:
  "Deserialize fb Binary str old = (cs, e) \<longleftrightarrow>
     (\<exists>pre post. fb_read fb str = pre @ post \<and> map Deserialize_cmd pre = map Inr cs \<and>
        (case e of None \<Rightarrow> post = [] | Some x \<Rightarrow> post \<noteq> [] \<and> Deserialize_cmd (hd post) = Inl x))"
  by (simp add: Deserialize_def Deserialize_loop_stops stops_at_def)

text \<open>The numbering with which the round trip is evaluated on a request and its answer.\<close>

theorem Deserialize_Serialize_witness:
  "\<exists>N fb str. mq_numbering N \<and>
     Serialize N fb JSON [ChangeState \<lparr>chs_transition = Run\<rparr>,
       StateChange \<lparr>sc_deviceId = ''d'', sc_taskId = 7, sc_lastState = Ready, sc_currentState = Running\<rparr>] = Inr str \<and>
     Deserialize fb JSON str [] = ([ChangeState \<lparr>chs_transition = Run\<rparr>,
       StateChange \<lparr>sc_deviceId = ''d'', sc_taskId = 7, sc_lastState = Ready, sc_currentState = Running\<rparr>], None)"
proof -
  let ?N = fairmq_numbers
  let ?cmds = "[ChangeState \<lparr>chs_transition = Run\<rparr>,
    StateChange \<lparr>sc_deviceId = ''d'', sc_taskId = 7, sc_lastState = Ready, sc_currentState = Running\<rparr>]"
  let ?bs = "[FBCommandBuilder\<lparr>fb_transition := 6, fb_command_id := 1\<rparr>,
    FBCommandBuilder\<lparr>fb_device_id := Some ''d'', fb_task_id := 7, fb_last_state := 11, fb_current_state := 12,
      fb_command_id := 12\<rparr>]"
  let ?fb = "\<lparr>fb_build = \<lambda>_. ''x'', fb_read = \<lambda>_. ?bs, fb_schema_parses = True,
    fb_GenerateText = \<lambda>_. Some ''x'', fb_ParseText = \<lambda>_. Some ?bs\<rparr>"
  note N = mq_numbering_fairmq
  have bs: "Serialize_cmds ?N ?cmds = Inr ?bs"
    by (simp add: Serialize_cmd_def GetFBState_ok [OF N] GetFBTransition_ok [OF N] FBState_decl_def
        FBTransition_decl_def FBCmd_decl_def)
  obtain str where "Serialize ?N ?fb JSON ?cmds = Inr str" "Deserialize ?fb JSON str [] = (?cmds, None)"
    using Deserialize_Serialize [OF N, of ?fb ?cmds JSON "[]"] bs by auto
  with N show ?thesis by blast
qed

end
