(* ===== verification/Properties_Ops.thy ===== *)
theory Properties_Ops
  imports Change_State_Op Custom_Commands
begin

text \<open>
  \<^verbatim>\<open>src/odc/TopologyOpGetProperties.h\<close> and \<^verbatim>\<open>src/odc/TopologyOpSetProperties.h\<close>: the operations that
  collect the answers of a set of tasks to a properties request. Both count answers; the first gathers
  the properties and the tasks that have not answered well, the second the tasks still outstanding.
\<close>

section \<open>GetPropertiesOp\<close>

record get_properties_op =
  gpo_id :: u64
  gpo_op :: "GetPropertiesResult async_op"
  gpo_timer :: bool
  gpo_count :: u32
  gpo_tasks :: "DDSTask list"
  gpo_result :: GetPropertiesResult

definition gpo_new :: "u64 \<Rightarrow> DDSTask list \<Rightarrow> int \<Rightarrow> get_properties_op" where
  "gpo_new i tasks timeout =
     \<lparr>gpo_id = i, gpo_op = Pending, gpo_timer = (timeout > 0), gpo_count = 0, gpo_tasks = tasks,
      gpo_result = \<lparr>gp_devices = [], gp_failed = fold (\<lambda>t. insert (fId t)) tasks {}\<rparr>\<rparr>"

definition gpo_IsCompleted :: "get_properties_op \<Rightarrow> bool" where
  "gpo_IsCompleted op = op_IsCompleted (gpo_op op)"

text \<open>The result is moved to the handler; a moved-from container of the library is empty.\<close>

definition gpo_TryCompletion :: "get_properties_op \<Rightarrow> get_properties_op" where
  "gpo_TryCompletion op =
     (if \<not> gpo_IsCompleted op \<and> unat (gpo_count op) = length (gpo_tasks op)
      then let op1 = op\<lparr>gpo_timer := False\<rparr>;
               ec = (if gp_failed (gpo_result op1) \<noteq> {} then MakeErrorCode DeviceGetPropertiesFailed else None)
           in op1\<lparr>gpo_op := fst (op_Complete ec (gpo_result op1) (gpo_op op1)),
                  gpo_result := \<lparr>gp_devices = [], gp_failed = {}\<rparr>\<rparr>
      else op)"

definition gpo_answer :: "task_id \<Rightarrow> Result \<Rightarrow> DeviceProperties \<Rightarrow> GetPropertiesResult \<Rightarrow> GetPropertiesResult" where
  "gpo_answer taskId result props r =
     (if result = Result_Ok
      then r\<lparr>gp_failed := gp_failed r - {taskId}, gp_devices := umap_emplace taskId props (gp_devices r)\<rparr>
      else r)"

definition gpo_Update :: "task_id \<Rightarrow> Result \<Rightarrow> DeviceProperties \<Rightarrow> get_properties_op \<Rightarrow> get_properties_op" where
  "gpo_Update taskId result props op =
     gpo_TryCompletion (op\<lparr>gpo_result := gpo_answer taskId result props (gpo_result op),
                           gpo_count := gpo_count op + 1\<rparr>)"

definition gpo_timer_fired :: "get_properties_op \<Rightarrow> get_properties_op \<times> exn option" where
  "gpo_timer_fired op =
     (if gpo_timer op
      then (let (o', e) = op_Timeout (gpo_result op) (gpo_op op) in (op\<lparr>gpo_timer := False, gpo_op := o'\<rparr>, e))
      else (op, None))"

section \<open>SetPropertiesOp\<close>

record set_properties_op =
  spo_id :: u64
  spo_op :: "FailedDevices async_op"
  spo_timer :: bool
  spo_count :: u32
  spo_tasks :: "DDSTask list"
  spo_outstanding :: FailedDevices

definition spo_new :: "u64 \<Rightarrow> DDSTask list \<Rightarrow> int \<Rightarrow> set_properties_op" where
  "spo_new i tasks timeout =
     \<lparr>spo_id = i, spo_op = Pending, spo_timer = (timeout > 0), spo_count = 0, spo_tasks = tasks,
      spo_outstanding = {}\<rparr>"

definition spo_IsCompleted :: "set_properties_op \<Rightarrow> bool" where
  "spo_IsCompleted op = op_IsCompleted (spo_op op)"

definition spo_ContainsTask :: "task_id \<Rightarrow> set_properties_op \<Rightarrow> bool" where
  "spo_ContainsTask i op = list_ex (\<lambda>t. fId t = i) (spo_tasks op)"

definition spo_TryCompletion :: "set_properties_op \<Rightarrow> set_properties_op" where
  "spo_TryCompletion op =
     (if \<not> spo_IsCompleted op \<and> unat (spo_count op) = length (spo_tasks op)
      then let op1 = op\<lparr>spo_timer := False\<rparr>;
               ec = (if spo_outstanding op1 \<noteq> {} then MakeErrorCode DeviceSetPropertiesFailed else None)
           in op1\<lparr>spo_op := fst (op_Complete ec (spo_outstanding op1) (spo_op op1))\<rparr>
      else op)"

definition spo_Update :: "task_id \<Rightarrow> Result \<Rightarrow> bool \<Rightarrow> set_properties_op \<Rightarrow> set_properties_op" where
  "spo_Update taskId result expendable op =
     (if \<not> spo_IsCompleted op \<and> spo_ContainsTask taskId op
      then spo_TryCompletion
        (if result = Result_Ok
         then op\<lparr>spo_outstanding := spo_outstanding op - {taskId}, spo_count := spo_count op + 1\<rparr>
         else if taskId \<in> spo_outstanding op
         then (if expendable then op\<lparr>spo_outstanding := spo_outstanding op - {taskId}\<rparr> else op)
                \<lparr>spo_count := spo_count op + 1\<rparr>
         else op)
      else op)"

text \<open>\<^verbatim>\<open>ResetCount\<close>: both \<^verbatim>\<open>at\<close> calls may throw, which keeps what the loop has done so far.\<close>

fun spo_ResetCount_loop ::
  "DDSTask list \<Rightarrow> TopoStateIndex \<Rightarrow> TopoState \<Rightarrow> set_properties_op \<Rightarrow> set_properties_op \<times> exn option" where
  "spo_ResetCount_loop [] stateIndex stateData op = (op, None)"
| "spo_ResetCount_loop (t # ts) stateIndex stateData op =
     (case map_of stateIndex (fId t) of
        None \<Rightarrow> (op, Some (OutOfRange ''map::at''))
      | Some i \<Rightarrow>
        (case at stateData i of
           None \<Rightarrow> (op, Some (OutOfRange ''vector::at''))
         | Some ds \<Rightarrow>
             let op1 = (if ds_state ds = Error \<or> ds_state ds = Exiting
                        then op\<lparr>spo_count := spo_count op + 1\<rparr> else op)
             in spo_ResetCount_loop ts stateIndex stateData
                  (op1\<lparr>spo_outstanding := insert (fId t) (spo_outstanding op1)\<rparr>)))"

definition spo_ResetCount ::
  "TopoStateIndex \<Rightarrow> TopoState \<Rightarrow> set_properties_op \<Rightarrow> set_properties_op \<times> exn option" where
  "spo_ResetCount stateIndex stateData op = spo_ResetCount_loop (spo_tasks op) stateIndex stateData op"

definition spo_timer_fired :: "set_properties_op \<Rightarrow> set_properties_op \<times> exn option" where
  "spo_timer_fired op =
     (if spo_timer op
      then (let (o', e) = op_Timeout (spo_outstanding op) (spo_op op) in (op\<lparr>spo_timer := False, spo_op := o'\<rparr>, e))
      else (op, None))"

section \<open>Runs of answers\<close>

type_synonym gp_event = "task_id \<times> Result \<times> DeviceProperties"
type_synonym sp_event = "task_id \<times> Result \<times> bool"

fun gpo_event_update :: "gp_event \<Rightarrow> get_properties_op \<Rightarrow> get_properties_op" where
  "gpo_event_update (t, r, ps) op = gpo_Update t r ps op"

fun spo_event_update :: "sp_event \<Rightarrow> set_properties_op \<Rightarrow> set_properties_op" where
  "spo_event_update (t, r, x) op = spo_Update t r x op"

fun gpo_event_answer :: "gp_event \<Rightarrow> GetPropertiesResult \<Rightarrow> GetPropertiesResult" where
  "gpo_event_answer (t, r, ps) res = gpo_answer t r ps res"

lemmas gpo_defs = gpo_Update_def gpo_TryCompletion_def gpo_IsCompleted_def
lemmas spo_defs = spo_Update_def spo_TryCompletion_def spo_IsCompleted_def

lemma gpo_Update_result:
  "op_result (gpo_op op) = Some r \<Longrightarrow> op_result (gpo_op (gpo_Update t res ps op)) = Some r"
  by (simp add: gpo_defs op_IsCompleted_result Let_def)

lemma spo_Update_result: "op_result (spo_op op) = Some r \<Longrightarrow> spo_Update t res x op = op"
  by (simp add: spo_defs op_IsCompleted_result)

interpretation gpo_async: async_operation "\<lambda>op. op_result (gpo_op op)" gpo_event_update
proof unfold_locales
  fix op r e
  show "op_result (gpo_op op) = Some r \<Longrightarrow> op_result (gpo_op (gpo_event_update e op)) = Some r"
    by (cases e) (simp add: gpo_Update_result)
qed

interpretation spo_async: async_operation "\<lambda>op. op_result (spo_op op)" spo_event_update
proof unfold_locales
  fix op r e
  show "op_result (spo_op op) = Some r \<Longrightarrow> op_result (spo_op (spo_event_update e op)) = Some r"
    by (cases e) (simp add: spo_Update_result)
qed

text \<open>A waiting operation that has not yet heard as many answers as it has tasks.\<close>

lemma gpo_run:
  assumes "gpo_op op = Pending" "length (gpo_tasks op) < 2 ^ 32" "unat (gpo_count op) < length (gpo_tasks op)"
    and "unat (gpo_count op) + length es \<le> length (gpo_tasks op)"
  shows "op_result (gpo_op (fold gpo_event_update es op)) =
    (let r = fold gpo_event_answer es (gpo_result op) in
     if unat (gpo_count op) + length es = length (gpo_tasks op)
     then Some (if gp_failed r \<noteq> {} then MakeErrorCode DeviceGetPropertiesFailed else None, r) else None)"
  using assms
proof (induction es arbitrary: op)
  case (Cons e es)
  obtain t r ps where e: "e = (t, r, ps)" by (cases e)
  have u: "unat (gpo_count op + 1) = Suc (unat (gpo_count op))"
    using Cons.prems by (intro unat_Suc_word) simp
  show ?case
  proof (cases "Suc (unat (gpo_count op)) = length (gpo_tasks op)")
    case True
    then have "length es = 0" using Cons.prems(4) unfolding list.size(4) by linarith
    then have "es = []" by simp
    then show ?thesis
      using Cons.prems True u by (simp add: e gpo_defs Let_def)
  next
    case False
    then have s: "gpo_event_update e op =
        op\<lparr>gpo_result := gpo_event_answer e (gpo_result op), gpo_count := gpo_count op + 1\<rparr>"
      using u by (simp add: e gpo_defs)
    show ?thesis
      using Cons.IH [of "gpo_event_update e op"] Cons.prems False u by (simp add: s)
  qed
qed simp

definition sp_accepted :: "sp_event list \<Rightarrow> task_id set" where
  "sp_accepted es = {t. \<exists>r x. (t, r, x) \<in> set es \<and> (r = Result_Ok \<or> x)}"

lemma sp_accepted_simps [simp]:
  "sp_accepted [] = {}"
  "sp_accepted ((t, r, x) # es) = (if r = Result_Ok \<or> x then insert t (sp_accepted es) else sp_accepted es)"
  by (auto simp: sp_accepted_def)

lemma spo_run:
  assumes "spo_op op = Pending" "length (spo_tasks op) < 2 ^ 32" "unat (spo_count op) < length (spo_tasks op)"
    and "unat (spo_count op) + length es \<le> length (spo_tasks op)"
    and "distinct (map fst es)" "fst ` set es \<subseteq> spo_outstanding op" "fst ` set es \<subseteq> fId ` set (spo_tasks op)"
  shows "op_result (spo_op (fold spo_event_update es op)) =
    (let out = spo_outstanding op - sp_accepted es in
     if unat (spo_count op) + length es = length (spo_tasks op)
     then Some (if out \<noteq> {} then MakeErrorCode DeviceSetPropertiesFailed else None, out) else None)"
  using assms
proof (induction es arbitrary: op)
  case (Cons e es)
  obtain t r x where e: "e = (t, r, x)" by (cases e)
  let ?out = "if r = Result_Ok \<or> x then spo_outstanding op - {t} else spo_outstanding op"
  let ?op = "op\<lparr>spo_outstanding := ?out, spo_count := spo_count op + 1\<rparr>"
  have u: "unat (spo_count op + 1) = Suc (unat (spo_count op))"
    using Cons.prems by (intro unat_Suc_word) simp
  have "spo_ContainsTask t op" "t \<in> spo_outstanding op"
    using Cons.prems(6,7) by (auto simp: e spo_ContainsTask_def list_ex_iff)
  then have s: "spo_event_update e op = spo_TryCompletion ?op"
    using Cons.prems(1) by (cases r) (auto simp: e spo_Update_def spo_IsCompleted_def)
  have out: "?out - sp_accepted es = spo_outstanding op - sp_accepted (e # es)"
    by (auto simp: e)
  show ?case
  proof (cases "Suc (unat (spo_count op)) = length (spo_tasks op)")
    case True
    then have "length es = 0" using Cons.prems(4) unfolding list.size(4) by linarith
    then have "es = []" by simp
    then show ?thesis
      using Cons.prems(1) True u out by (simp add: s spo_TryCompletion_def spo_IsCompleted_def Let_def)
  next
    case False
    then have s': "spo_event_update e op = ?op"
      using u by (simp add: s spo_TryCompletion_def)
    have "t \<notin> fst ` set es" using Cons.prems(5) by (simp add: e)
    then have sub: "fst ` set es \<subseteq> ?out" using Cons.prems(6) by auto
    show ?thesis
      using Cons.IH [of ?op] Cons.prems False u sub out by (simp add: s')
  qed
qed simp

lemma gp_failed_answers:
  "gp_failed (fold gpo_event_answer es r) = gp_failed r - {t. \<exists>ps. (t, Result_Ok, ps) \<in> set es}"
proof (induction es arbitrary: r)
  case (Cons e es)
  obtain t res ps where "e = (t, res, ps)" by (cases e)
  with Cons show ?case by (cases res) (auto simp: gpo_answer_def)
qed simp

lemma gp_devices_answers:
  assumes "distinct (map fst es)" "\<And>t. t \<in> fst ` set es \<Longrightarrow> map_of (gp_devices r) t = None"
  shows "map_of (gp_devices (fold gpo_event_answer es r)) t = Some ps \<longleftrightarrow>
    map_of (gp_devices r) t = Some ps \<or> (t, Result_Ok, ps) \<in> set es"
  using assms
proof (induction es arbitrary: r)
  case (Cons e es)
  obtain u res qs where e: "e = (u, res, qs)" by (cases e)
  have new: "map_of (gp_devices r) u = None" using Cons.prems(2) [of u] by (simp add: e)
  have u: "u \<notin> fst ` set es" using Cons.prems(1) by (simp add: e)
  have "map_of (gp_devices (gpo_event_answer e r)) v = None" if "v \<in> fst ` set es" for v
    using Cons.prems(2) [of v] that u new by (auto simp: e gpo_answer_def)
  from Cons.IH [OF _ this] Cons.prems(1) show ?case
    using new u by (cases res) (force simp: e gpo_answer_def)+
qed simp

lemma fold_insert_ids: "fold (\<lambda>t. insert (fId t)) ts A = A \<union> fId ` set ts"
  by (induction ts arbitrary: A) auto

lemma card_tasks: "distinct (map fId ts) \<Longrightarrow> distinct (map fst es) \<Longrightarrow> fst ` set es = fId ` set ts \<Longrightarrow>
    length es = length ts"
  using distinct_card [of "map fst es"] distinct_card [of "map fId ts"] by simp

lemma spo_ResetCount_loop_spec:
  assumes "wf_index idx sd" "fId ` set ts \<subseteq> dom (map_of idx)"
  shows "spo_ResetCount_loop ts idx sd op =
    (op\<lparr>spo_count := spo_count op + of_nat (length (filter (\<lambda>t. device_failed (sd ! the (map_of idx (fId t)))) ts)),
        spo_outstanding := spo_outstanding op \<union> fId ` set ts\<rparr>, None)"
  using assms(2)
proof (induction ts arbitrary: op)
  case (Cons t ts)
  then obtain i where i: "map_of idx (fId t) = Some i" by auto
  have "i < length sd" using wf_index_nth [OF assms(1) i] by simp
  then show ?case
    using Cons i by (simp add: device_failed_def Let_def add.commute add.left_commute)
qed simp

lemma gpo_collects_all:
  assumes "distinct (map fId tasks)" "tasks \<noteq> []" "length tasks < 2 ^ 32"
    and "distinct (map fst es)" "fst ` set es = fId ` set tasks"
  shows "\<exists>r. op_result (gpo_op (fold gpo_event_update es (gpo_new i tasks timeout))) =
        Some (if gp_failed r = {} then None else MakeErrorCode DeviceGetPropertiesFailed, r) \<and>
      gp_failed r = {t. \<exists>ps. (t, Result_Failure, ps) \<in> set es} \<and>
      (\<forall>t ps. map_of (gp_devices r) t = Some ps \<longleftrightarrow> (t, Result_Ok, ps) \<in> set es)"
proof -
  let ?op = "gpo_new i tasks timeout"
  let ?r = "fold gpo_event_answer es (gpo_result ?op)"
  have n: "length es = length tasks" by (rule card_tasks [OF assms(1,4,5)])
  have "op_result (gpo_op (fold gpo_event_update es ?op)) =
      Some (if gp_failed ?r = {} then None else MakeErrorCode DeviceGetPropertiesFailed, ?r)"
    using gpo_run [of ?op es] assms(2,3) n by (simp add: gpo_new_def)
  moreover have "gp_failed ?r = {t. \<exists>ps. (t, Result_Failure, ps) \<in> set es}"
  proof -
    have "t \<in> fId ` set tasks \<and> (\<forall>ps. (t, Result_Ok, ps) \<notin> set es) \<longleftrightarrow> (\<exists>ps. (t, Result_Failure, ps) \<in> set es)" for t
    proof
      assume t: "t \<in> fId ` set tasks \<and> (\<forall>ps. (t, Result_Ok, ps) \<notin> set es)"
      then obtain r ps where "(t, r, ps) \<in> set es" using assms(5) by force
      with t show "\<exists>ps. (t, Result_Failure, ps) \<in> set es" by (cases r) auto
    next
      assume "\<exists>ps. (t, Result_Failure, ps) \<in> set es"
      then obtain ps where "(t, Result_Failure, ps) \<in> set es" ..
      then have "(t, Result_Ok, qs) \<notin> set es" for qs
        using eq_key_imp_eq_value [OF assms(4)] by blast
      then show "t \<in> fId ` set tasks \<and> (\<forall>ps. (t, Result_Ok, ps) \<notin> set es)"
        using \<open>(t, Result_Failure, ps) \<in> set es\<close> assms(5) by (metis fst_conv image_eqI)
    qed
    then show ?thesis by (auto simp: gp_failed_answers gpo_new_def fold_insert_ids)
  qed
  moreover have "\<forall>t ps. map_of (gp_devices ?r) t = Some ps \<longleftrightarrow> (t, Result_Ok, ps) \<in> set es"
    using gp_devices_answers [OF assms(4), of "gpo_result ?op"] by (simp add: gpo_new_def)
  ultimately show ?thesis by blast
qed

section \<open>Properties\<close>

text \<open>
  A get-properties operation completes with the last of the answers of its tasks; the failed
  tasks of the result are those that answered with a failure, the devices carry exactly the properties of
  the other answers, and the code is an error exactly when some task failed.
\<close>

theorem gpo_collects:
  assumes "distinct (map fId tasks)" "tasks \<noteq> []" "length tasks < 2 ^ 32"
    and "distinct (map fst es)" "fst ` set es = fId ` set tasks"
  shows "\<exists>r. op_result (gpo_op (fold gpo_event_update es (gpo_new i tasks timeout))) =
        Some (if gp_failed r = {} then None else MakeErrorCode DeviceGetPropertiesFailed, r) \<and>
      gp_failed r = {t. \<exists>ps. (t, Result_Failure, ps) \<in> set es} \<and>
      (\<forall>t ps. map_of (gp_devices r) t = Some ps \<longleftrightarrow> (t, Result_Ok, ps) \<in> set es)"
  by (rule gpo_collects_all [OF assms])

theorem gpo_collects_witness:
  "\<exists>r. op_result (gpo_op (fold gpo_event_update [(2, Result_Failure, []), (1, Result_Ok, [(''k'', ''v'')])]
       (gpo_new 5 [\<lparr>fId = 1, fCollectionId = 0\<rparr>, \<lparr>fId = 2, fCollectionId = 0\<rparr>] 0)))
     = Some (MakeErrorCode DeviceGetPropertiesFailed, r) \<and> gp_failed r = {2}"
  using gpo_collects [of "[\<lparr>fId = 1, fCollectionId = 0\<rparr>, \<lparr>fId = 2, fCollectionId = 0\<rparr>]"
      "[(2, Result_Failure, []), (1, Result_Ok, [(''k'', ''v'')])]" 5 0]
  by (auto simp: insert_commute)

text \<open>
  A get-properties operation over no tasks is not completed by fewer than 2^32 answers: nothing
  but its timer ends it, and without a positive timeout it has none.
\<close>

theorem gpo_empty_never_completes:
  assumes "0 < length es" "length es < 2 ^ 32"
  shows "op_result (gpo_op (fold gpo_event_update es (gpo_new i [] timeout))) = None"
proof -
  have "op_result (gpo_op (fold gpo_event_update es op)) = None"
    if "gpo_op op = Pending" "gpo_tasks op = []" "unat (gpo_count op) + length es < 2 ^ 32" for op
    using that
  proof (induction es arbitrary: op)
    case (Cons e es)
    obtain t r ps where e: "e = (t, r, ps)" by (cases e)
    have u: "unat (gpo_count op + 1) = Suc (unat (gpo_count op))"
      using Cons.prems by (intro unat_Suc_word) simp
    have s: "gpo_event_update e op =
        op\<lparr>gpo_result := gpo_event_answer e (gpo_result op), gpo_count := gpo_count op + 1\<rparr>"
      using u Cons.prems by (simp add: e gpo_defs)
    show ?case using Cons.IH [of "gpo_event_update e op"] Cons.prems u by (simp add: s)
  qed simp
  then show ?thesis using assms by (simp add: gpo_new_def)
qed

theorem gpo_empty_never_completes_witness:
  "op_result (gpo_op (fold gpo_event_update [(1, Result_Ok, [])] (gpo_new 5 [] 0))) = None"
  using gpo_empty_never_completes [of "[(1, Result_Ok, [])]" 5 0] by simp

text \<open>
  A set-properties operation, started on devices of which none has failed, completes with the
  last of the answers of its tasks; what it reports as failed is exactly the tasks that answered with a
  failure and are not expendable.
\<close>

theorem spo_collects:
  assumes "distinct (map fId tasks)" "tasks \<noteq> []" "length tasks < 2 ^ 32"
    and "wf_index idx sd" "fId ` set tasks \<subseteq> dom (map_of idx)" "\<forall>d \<in> set sd. \<not> device_failed d"
    and "distinct (map fst es)" "fst ` set es = fId ` set tasks"
  shows "\<exists>out. op_result (spo_op (fold spo_event_update es (fst (spo_ResetCount idx sd (spo_new i tasks timeout))))) =
        Some (if out = {} then None else MakeErrorCode DeviceSetPropertiesFailed, out) \<and>
      out = {t. (t, Result_Failure, False) \<in> set es}"
proof -
  have "filter (\<lambda>t. device_failed (sd ! the (map_of idx (fId t)))) tasks = []"
    using wf_index_nth [OF assms(4)] assms(5,6) by (fastforce simp: filter_empty_conv)
  then have op: "fst (spo_ResetCount idx sd (spo_new i tasks timeout)) =
      (spo_new i tasks timeout)\<lparr>spo_outstanding := fId ` set tasks\<rparr>" (is "_ = ?op")
    using spo_ResetCount_loop_spec [OF assms(4,5)] by (simp add: spo_ResetCount_def spo_new_def)
  have n: "length es = length tasks" by (rule card_tasks [OF assms(1,7,8)])
  have "t \<in> fId ` set tasks \<and> t \<notin> sp_accepted es \<longleftrightarrow> (t, Result_Failure, False) \<in> set es" for t
  proof
    assume t: "t \<in> fId ` set tasks \<and> t \<notin> sp_accepted es"
    then obtain r x where "(t, r, x) \<in> set es" using assms(8) by force
    with t show "(t, Result_Failure, False) \<in> set es" by (cases r; cases x) (auto simp: sp_accepted_def)
  next
    assume f: "(t, Result_Failure, False) \<in> set es"
    then have "(r, x) = (Result_Failure, False)" if "(t, r, x) \<in> set es" for r x
      using map_of_is_SomeI [OF assms(7) f] map_of_is_SomeI [OF assms(7) that] by simp
    then have "t \<notin> sp_accepted es" by (auto simp: sp_accepted_def)
    then show "t \<in> fId ` set tasks \<and> t \<notin> sp_accepted es" using f assms(8) by (metis fst_conv image_eqI)
  qed
  then have "fId ` set tasks - sp_accepted es = {t. (t, Result_Failure, False) \<in> set es}" by blast
  then show ?thesis
    using spo_run [of ?op es] assms n unfolding op by (auto simp: spo_new_def Let_def)
qed

text \<open>
  The failure of a device that is not expendable counts every time it is answered: with two tasks,
  the second report of the same failure completes the operation, and a task that has not answered
  is reported as failed.
\<close>

theorem spo_repeated_failure_completes:
  assumes "wf_index idx sd" "fId a \<noteq> fId b" "{fId a, fId b} \<subseteq> dom (map_of idx)" "\<forall>d \<in> set sd. \<not> device_failed d"
  shows "op_result (spo_op (fold spo_event_update [(fId a, Result_Failure, False), (fId a, Result_Failure, False)]
      (fst (spo_ResetCount idx sd (spo_new i [a, b] timeout))))) =
    Some (MakeErrorCode DeviceSetPropertiesFailed, {fId a, fId b})"
proof -
  have "filter (\<lambda>t. device_failed (sd ! the (map_of idx (fId t)))) [a, b] = []"
    using wf_index_nth [OF assms(1)] assms(3,4) by (fastforce simp: filter_empty_conv)
  then have op: "fst (spo_ResetCount idx sd (spo_new i [a, b] timeout)) =
      (spo_new i [a, b] timeout)\<lparr>spo_outstanding := {fId a, fId b}\<rparr>" (is "_ = ?op")
    using spo_ResetCount_loop_spec [OF assms(1), of "[a, b]"] assms(3) by (simp add: spo_ResetCount_def spo_new_def)
  show ?thesis
    unfolding op using assms(2)
    by (simp add: spo_new_def spo_Update_def spo_TryCompletion_def spo_IsCompleted_def spo_ContainsTask_def Let_def)
qed

theorem spo_collects_witness:
  "op_result (spo_op (fold spo_event_update [(2, Result_Failure, False), (1, Result_Failure, True)]
      (fst (spo_ResetCount sample_idx (sample_sd Ready Ready) (spo_new 9 sample_tasks 0)))))
    = Some (MakeErrorCode DeviceSetPropertiesFailed, {2})"
proof -
  let ?es = "[(2, Result_Failure, False), (1, Result_Failure, True)] :: sp_event list"
  have "\<exists>out. op_result (spo_op (fold spo_event_update ?es
      (fst (spo_ResetCount sample_idx (sample_sd Ready Ready) (spo_new 9 sample_tasks 0))))) =
        Some (if out = {} then None else MakeErrorCode DeviceSetPropertiesFailed, out) \<and>
      out = {t. (t, Result_Failure, False) \<in> set ?es}"
    by (rule spo_collects [OF _ _ _ sample_wf])
      (auto simp: sample_tasks_def sample_idx_def sample_sd_def device_failed_def)
  then show ?thesis by simp
qed

theorem spo_repeated_failure_completes_witness:
  "op_result (spo_op (fold spo_event_update [(1, Result_Failure, False), (1, Result_Failure, False)]
      (fst (spo_ResetCount sample_idx (sample_sd Ready Ready) (spo_new 9 sample_tasks 0)))))
    = Some (MakeErrorCode DeviceSetPropertiesFailed, {1, 2})"
  using spo_repeated_failure_completes [OF sample_wf, of "\<lparr>fId = 1, fCollectionId = 0\<rparr>" "\<lparr>fId = 2, fCollectionId = 0\<rparr>" Ready Ready 9 0]
  by (simp add: sample_tasks_def sample_idx_def sample_sd_def device_failed_def)

end
