(* ===== verification/ODC_Topology.thy ===== *)
theory ODC_Topology
  imports Wait_For_State_Op Properties_Ops
begin

text \<open>
  \<^verbatim>\<open>src/odc/Topology.h\<close>, first part: the state of a \<^verbatim>\<open>BasicTopology\<close>, its constructor, the handlers of
  the messages and events it receives, and the invariant they keep. The mutex makes every handler
  one step. The DDS topology is a parameter (\<open>dds_topo\<close>), and so is what DDS reports about a finished
  task; what is sent is appended to \<open>tp_sent\<close> before it is serialised (Custom_Commands shows that the
  receiver reads back the same commands). A handler that throws returns the changed topology
  with the exception. Logging is not modelled.
\<close>

section \<open>State\<close>

text \<open>
  The DDS topology: all runtime tasks with their collection (0 for none), those matching a path (a bad path
  throws), and the name of a runtime collection (an unknown id throws).
\<close>

record dds_topo =
  rt_tasks :: "(task_id \<times> collection_id) list"
  rt_matching :: "string \<Rightarrow> exn + (task_id \<times> collection_id) list"
  rt_collectionName :: "collection_id \<Rightarrow> exn + string"

record topology =
  tp_stateData :: TopoState
  tp_stateIndex :: TopoStateIndex
  tp_publishers :: u32
  tp_heartbeatInterval :: int
  tp_heartbeatsTimer :: bool
  tp_changeStateOps :: "(u64 \<times> change_state_op) list"
  tp_waitForStateOps :: "(u64 \<times> wait_for_state_op) list"
  tp_setPropertiesOps :: "(u64 \<times> set_properties_op) list"
  tp_getPropertiesOps :: "(u64 \<times> get_properties_op) list"
  tp_collectionInfo :: "(string \<times> CollectionInfo) list"
  tp_sent :: "(Cmds \<times> string) list"

definition tp_send :: "Cmds \<Rightarrow> string \<Rightarrow> topology \<Rightarrow> topology" where
  "tp_send cmds path tp = tp\<lparr>tp_sent := tp_sent tp @ [(cmds, path)]\<rparr>"

text \<open>\<^verbatim>\<open>mStateData.at(mStateIndex.at(id))\<close>: the position of the device, or the exception.\<close>

definition tp_at :: "topology \<Rightarrow> task_id \<Rightarrow> exn + nat" where
  "tp_at tp i =
     (case map_of (tp_stateIndex tp) i of
        None \<Rightarrow> Inl (OutOfRange ''map::at'')
      | Some k \<Rightarrow> if k < length (tp_stateData tp) then Inr k else Inl (OutOfRange ''vector::at''))"

abbreviation tp_device :: "topology \<Rightarrow> nat \<Rightarrow> DeviceStatus" where
  "tp_device tp k \<equiv> tp_stateData tp ! k"

definition tp_set_device :: "nat \<Rightarrow> DeviceStatus \<Rightarrow> topology \<Rightarrow> topology" where
  "tp_set_device k d tp = tp\<lparr>tp_stateData := (tp_stateData tp)[k := d]\<rparr>"

section \<open>Construction\<close>

fun init_devices ::
  "task_id set \<Rightarrow> (task_id \<times> collection_id) list \<Rightarrow> nat \<Rightarrow> TopoState \<times> TopoStateIndex \<Rightarrow> TopoState \<times> TopoStateIndex" where
  "init_devices expendableTasks [] index s = s"
| "init_devices expendableTasks ((i, c) # ts) index (sd, si) =
     init_devices expendableTasks ts (Suc index)
       (sd @ [new_DeviceStatus (i \<in> expendableTasks) i c], umap_emplace i index si)"

definition SubscribeToStateChanges :: "topology \<Rightarrow> topology" where
  "SubscribeToStateChanges tp =
     (tp_send [SubscribeToStateChange \<lparr>sub_interval = word_of_int (tp_heartbeatInterval tp)\<rparr>] '''' tp)
       \<lparr>tp_heartbeatsTimer := True\<rparr>"

text \<open>The constructor without the optional wait for the publishers, which is \<open>WaitForPublisherCount\<close>.\<close>

definition tp_new :: "dds_topo \<Rightarrow> task_id set \<Rightarrow> (string \<times> CollectionInfo) list \<Rightarrow> topology" where
  "tp_new dds expendableTasks collectionInfo =
     (let (sd, si) = init_devices expendableTasks (rt_tasks dds) 0 ([], []) in
      SubscribeToStateChanges
        \<lparr>tp_stateData = sd, tp_stateIndex = si, tp_publishers = 0, tp_heartbeatInterval = 600000,
         tp_heartbeatsTimer = False, tp_changeStateOps = [], tp_waitForStateOps = [],
         tp_setPropertiesOps = [], tp_getPropertiesOps = [], tp_collectionInfo = collectionInfo, tp_sent = []\<rparr>)"

section \<open>Selecting and ignoring tasks\<close>

fun GetTasks_loop :: "topology \<Rightarrow> (task_id \<times> collection_id) list \<Rightarrow> exn + DDSTask list" where
  "GetTasks_loop tp [] = Inr []"
| "GetTasks_loop tp ((i, c) # ts) =
     (case tp_at tp i of
        Inl e \<Rightarrow> Inl e
      | Inr k \<Rightarrow>
          bind_exn (GetTasks_loop tp ts) (\<lambda>l.
            Inr (if ds_ignored (tp_device tp k) then l else \<lparr>fId = i, fCollectionId = c\<rparr> # l)))"

definition GetTasks :: "dds_topo \<Rightarrow> string \<Rightarrow> topology \<Rightarrow> exn + DDSTask list" where
  "GetTasks dds path tp =
     bind_exn (if path = [] then Inr (rt_tasks dds) else rt_matching dds path) (GetTasks_loop tp)"

text \<open>Setting a device to be ignored: it no longer counts as a publisher.\<close>

definition unsubscribe_device :: "DeviceStatus \<Rightarrow> u32 \<Rightarrow> DeviceStatus \<times> u32" where
  "unsubscribe_device d n = (if ds_subscribed d then (d\<lparr>ds_subscribed := False\<rparr>, n - 1) else (d, n))"

definition ignore_device :: "DeviceStatus \<Rightarrow> u32 \<Rightarrow> DeviceStatus \<times> u32" where
  "ignore_device d n = (let (d1, n1) = unsubscribe_device d n in (d1\<lparr>ds_ignored := True\<rparr>, n1))"

definition IgnoreFailedTask :: "task_id \<Rightarrow> topology \<Rightarrow> topology \<times> exn option" where
  "IgnoreFailedTask i tp =
     (case tp_at tp i of
        Inl e \<Rightarrow> (tp, Some e)
      | Inr k \<Rightarrow>
          let (d, n) = ignore_device (tp_device tp k) (tp_publishers tp)
          in ((tp_set_device k d tp)\<lparr>tp_publishers := n\<rparr>, None))"

fun IgnoreFailedCollections_device :: "CollectionDetails list \<Rightarrow> DeviceStatus \<Rightarrow> u32 \<Rightarrow> DeviceStatus \<times> u32" where
  "IgnoreFailedCollections_device [] d n = (d, n)"
| "IgnoreFailedCollections_device (c # cs) d n =
     (if ds_collectionId d = cd_collectionID c
      then (let (d1, n1) = ignore_device d n in IgnoreFailedCollections_device cs d1 n1)
      else IgnoreFailedCollections_device cs d n)"

text \<open>A loop over the devices that rewrites each of them together with the publisher count.\<close>

fun for_devices :: "(DeviceStatus \<Rightarrow> u32 \<Rightarrow> DeviceStatus \<times> u32) \<Rightarrow> TopoState \<Rightarrow> u32 \<Rightarrow> TopoState \<times> u32" where
  "for_devices f [] n = ([], n)"
| "for_devices f (d # ds) n =
     (let (d1, n1) = f d n; (ds1, n2) = for_devices f ds n1 in (d1 # ds1, n2))"

definition IgnoreFailedCollections :: "CollectionDetails list \<Rightarrow> topology \<Rightarrow> topology" where
  "IgnoreFailedCollections collections tp =
     (let (sd, n) = for_devices (IgnoreFailedCollections_device collections) (tp_stateData tp) (tp_publishers tp)
      in tp\<lparr>tp_stateData := sd, tp_publishers := n\<rparr>)"

definition ignore_collection :: "collection_id \<Rightarrow> topology \<Rightarrow> topology" where
  "ignore_collection c tp =
     (let (sd, n) = for_devices (\<lambda>d n. if ds_collectionId d = c then ignore_device d n else (d, n))
                      (tp_stateData tp) (tp_publishers tp)
      in tp\<lparr>tp_stateData := sd, tp_publishers := n\<rparr>)"

text \<open>Whether the failure of the device at position \<open>k\<close> is tolerated.\<close>

definition IsExpendable :: "dds_topo \<Rightarrow> nat \<Rightarrow> topology \<Rightarrow> topology \<times> (exn + bool)" where
  "IsExpendable dds k tp =
    (let device = tp_device tp k in
     if ds_ignored device then (tp, Inr True)
     else if ds_expendable device then (tp_set_device k (device\<lparr>ds_ignored := True\<rparr>) tp, Inr True)
     else if ds_collectionId device \<noteq> 0
     then case rt_collectionName dds (ds_collectionId device) of
            Inl e \<Rightarrow> (tp, Inl e)
          | Inr name \<Rightarrow>
             (case map_of (tp_collectionInfo tp) name of
                None \<Rightarrow> (tp, Inr False)
              | Some col \<Rightarrow>
                  let nCurrent = ci_nCurrent col - 1;
                      tp1 = tp\<lparr>tp_collectionInfo := smap_set name (col\<lparr>ci_nCurrent := nCurrent\<rparr>) (tp_collectionInfo tp)\<rparr>
                  in if ci_nMin col = 0 then (tp1, Inr False)
                     else if nCurrent < ci_nMin col then (tp1, Inr False)
                     else (ignore_collection (ds_collectionId device) tp1, Inr True))
     else (tp, Inr False))"

section \<open>Handlers\<close>

definition update_cs_ops :: "task_id \<Rightarrow> mq_state \<Rightarrow> bool \<Rightarrow> topology \<Rightarrow> topology" where
  "update_cs_ops t s expendable tp =
     tp\<lparr>tp_changeStateOps := map_vals (cs_Update (tp_stateData tp) t s expendable) (tp_changeStateOps tp)\<rparr>"

definition update_ws_ops :: "task_id \<Rightarrow> mq_state \<Rightarrow> mq_state \<Rightarrow> bool \<Rightarrow> topology \<Rightarrow> topology" where
  "update_ws_ops t l s expendable tp =
     tp\<lparr>tp_waitForStateOps := map_vals (ws_Update t l s expendable) (tp_waitForStateOps tp)\<rparr>"

definition update_sp_ops :: "task_id \<Rightarrow> bool \<Rightarrow> topology \<Rightarrow> topology" where
  "update_sp_ops t expendable tp =
     tp\<lparr>tp_setPropertiesOps := map_vals (spo_Update t Result_Failure expendable) (tp_setPropertiesOps tp)\<rparr>"

text \<open>The callback of \<^verbatim>\<open>SubscribeToTaskDoneEvents\<close>, without the log message it prints at the end.\<close>

definition onTaskDone :: "dds_topo \<Rightarrow> task_id \<Rightarrow> int \<Rightarrow> int \<Rightarrow> topology \<Rightarrow> topology \<times> exn option" where
  "onTaskDone dds t exitCode sig tp =
     (case tp_at tp t of
        Inl e \<Rightarrow> (tp, Some e)
      | Inr k \<Rightarrow>
         let (d0, n) = unsubscribe_device (tp_device tp k) (tp_publishers tp);
             d1 = d0\<lparr>ds_exitCode := exitCode, ds_signal := sig, ds_lastState := ds_state d0\<rparr>
         in if (ds_lastState d1 \<noteq> Idle \<and> ds_lastState d1 \<noteq> Exiting) \<or> ds_exitCode d1 > 0
            then let tp1 = (tp_set_device k (d1\<lparr>ds_state := Error\<rparr>) tp)\<lparr>tp_publishers := n\<rparr>
                 in case IsExpendable dds k tp1 of
                      (tp2, Inl e) \<Rightarrow> (tp2, Some e)
                    | (tp2, Inr expendable) \<Rightarrow>
                        (update_ws_ops (ds_taskId d1) (ds_lastState d1) Error expendable
                          (update_cs_ops (ds_taskId d1) Error expendable
                            (update_sp_ops (ds_taskId d1) expendable tp2)), None)
            else (update_ws_ops (ds_taskId d1) (ds_lastState d1) Exiting False
                   (update_cs_ops (ds_taskId d1) Exiting False
                     ((tp_set_device k (d1\<lparr>ds_state := Exiting\<rparr>) tp)\<lparr>tp_publishers := n\<rparr>)), None))"

text \<open>
  The overloads of \<^verbatim>\<open>HandleCmd\<close>. The first three and the properties handlers catch what they throw
  (\<^verbatim>\<open>std::exception\<close>, for the latter \<^verbatim>\<open>std::out_of_range\<close>) and only log it.
\<close>

definition HandleCmd_StateChangeSubscription :: "StateChangeSubscription \<Rightarrow> topology \<Rightarrow> topology" where
  "HandleCmd_StateChangeSubscription cmd tp =
     (if scs_result cmd = Result_Ok
      then case tp_at tp (scs_taskId cmd) of
             Inl e \<Rightarrow> tp
           | Inr k \<Rightarrow>
               if \<not> ds_subscribed (tp_device tp k)
               then (tp_set_device k ((tp_device tp k)\<lparr>ds_subscribed := True\<rparr>) tp)
                      \<lparr>tp_publishers := tp_publishers tp + 1\<rparr>
               else tp
      else tp)"

definition HandleCmd_StateChangeUnsubscription :: "StateChangeUnsubscription \<Rightarrow> topology \<Rightarrow> topology" where
  "HandleCmd_StateChangeUnsubscription cmd tp =
     (if scu_result cmd = Result_Ok
      then case tp_at tp (scu_taskId cmd) of
             Inl e \<Rightarrow> tp
           | Inr k \<Rightarrow>
               let (d, n) = unsubscribe_device (tp_device tp k) (tp_publishers tp)
               in (tp_set_device k d tp)\<lparr>tp_publishers := n\<rparr>
      else tp)"

definition HandleCmd_StateChange :: "dds_topo \<Rightarrow> StateChange \<Rightarrow> topology \<Rightarrow> topology" where
  "HandleCmd_StateChange dds cmd tp =
     (case tp_at tp (sc_taskId cmd) of
        Inl e \<Rightarrow> tp
      | Inr k \<Rightarrow>
         let lastState = ds_state (tp_device tp k);
             d = (tp_device tp k)\<lparr>ds_lastState := sc_lastState cmd, ds_state := sc_currentState cmd\<rparr>;
             tp1 = tp_set_device k d tp;
             update_ops = (\<lambda>expendable tp. update_ws_ops (sc_taskId cmd) (sc_lastState cmd) (sc_currentState cmd) expendable
                             (update_cs_ops (sc_taskId cmd) (sc_currentState cmd) expendable tp))
         in if ds_state d = Error \<or> (ds_state d = Exiting \<and> lastState \<noteq> Idle)
            then case IsExpendable dds k tp1 of
                   (tp2, Inl e) \<Rightarrow> tp2
                 | (tp2, Inr expendable) \<Rightarrow> update_ops expendable (update_sp_ops (ds_taskId d) expendable tp2)
            else update_ops False tp1)"

text \<open>The loop of the transition-status handler; an exception of \<^verbatim>\<open>at\<close> is not caught here.\<close>

fun TransitionStatus_loop ::
  "task_id \<Rightarrow> topology \<Rightarrow> (u64 \<times> change_state_op) list \<Rightarrow> (u64 \<times> change_state_op) list \<times> exn option" where
  "TransitionStatus_loop t tp [] = ([], None)"
| "TransitionStatus_loop t tp ((i, op) # ops) =
     (if \<not> cs_IsCompleted op \<and> cs_ContainsTask t op
      then case tp_at tp t of
             Inl e \<Rightarrow> ((i, op) # ops, Some e)
           | Inr k \<Rightarrow>
               let op1 = (if ds_state (tp_device tp k) \<noteq> cs_targetState op
                          then fst (cs_Complete (MakeErrorCode DeviceChangeStateInvalidTransition) (tp_stateData tp) op)
                          else op);
                   (ops1, e) = TransitionStatus_loop t tp ops
               in ((i, op1) # ops1, e)
      else let (ops1, e) = TransitionStatus_loop t tp ops in ((i, op) # ops1, e))"

definition HandleCmd_TransitionStatus :: "TransitionStatus \<Rightarrow> topology \<Rightarrow> topology \<times> exn option" where
  "HandleCmd_TransitionStatus cmd tp =
     (if ts_result cmd \<noteq> Result_Ok
      then let (ops, e) = TransitionStatus_loop (ts_taskId cmd) tp (tp_changeStateOps tp)
           in (tp\<lparr>tp_changeStateOps := ops\<rparr>, e)
      else (tp, None))"

definition HandleCmd_Properties :: "Properties \<Rightarrow> topology \<Rightarrow> topology" where
  "HandleCmd_Properties cmd tp =
     (case map_of (tp_getPropertiesOps tp) (pr_requestId cmd) of
        None \<Rightarrow> tp
      | Some op \<Rightarrow> tp\<lparr>tp_getPropertiesOps := AList.update (pr_requestId cmd)
          (gpo_Update (pr_taskId cmd) (pr_result cmd) (pr_properties cmd) op) (tp_getPropertiesOps tp)\<rparr>)"

definition HandleCmd_PropertiesSet :: "PropertiesSet \<Rightarrow> topology \<Rightarrow> topology" where
  "HandleCmd_PropertiesSet cmd tp =
     (case map_of (tp_setPropertiesOps tp) (ps_requestId cmd) of
        None \<Rightarrow> tp
      | Some op \<Rightarrow> tp\<lparr>tp_setPropertiesOps := AList.update (ps_requestId cmd)
          (spo_Update (ps_taskId cmd) (ps_result cmd) False op) (tp_setPropertiesOps tp)\<rparr>)"

text \<open>The dispatch of \<^verbatim>\<open>SubscribeToCommands\<close>; other commands are only logged.\<close>

definition HandleCmd :: "dds_topo \<Rightarrow> Cmd \<Rightarrow> topology \<Rightarrow> topology \<times> exn option" where
  "HandleCmd dds cmd tp =
     (case cmd of
        StateChangeSubscription c \<Rightarrow> (HandleCmd_StateChangeSubscription c tp, None)
      | StateChangeUnsubscription c \<Rightarrow> (HandleCmd_StateChangeUnsubscription c tp, None)
      | StateChange c \<Rightarrow> (HandleCmd_StateChange dds c tp, None)
      | TransitionStatus c \<Rightarrow> HandleCmd_TransitionStatus c tp
      | Properties c \<Rightarrow> (HandleCmd_Properties c tp, None)
      | PropertiesSet c \<Rightarrow> (HandleCmd_PropertiesSet c tp, None)
      | _ \<Rightarrow> (tp, None))"

fun HandleCmds :: "dds_topo \<Rightarrow> Cmds \<Rightarrow> topology \<Rightarrow> topology \<times> exn option" where
  "HandleCmds dds [] tp = (tp, None)"
| "HandleCmds dds (c # cs) tp =
     (case HandleCmd dds c tp of (tp1, None) \<Rightarrow> HandleCmds dds cs tp1 | (tp1, Some e) \<Rightarrow> (tp1, Some e))"

definition onMessage :: "fb_codec \<Rightarrow> dds_topo \<Rightarrow> string \<Rightarrow> topology \<Rightarrow> topology \<times> exn option" where
  "onMessage fb dds msg tp =
     (case Deserialize fb Binary msg [] of
        (_, Some e) \<Rightarrow> (tp, Some e)
      | (cmds, None) \<Rightarrow> HandleCmds dds cmds tp)"

definition SendSubscriptionHeartbeats :: "topology \<Rightarrow> topology" where
  "SendSubscriptionHeartbeats tp =
     (tp_send [SubscriptionHeartbeat \<lparr>hb_interval = word_of_int (tp_heartbeatInterval tp)\<rparr>] '''' tp)
       \<lparr>tp_heartbeatsTimer := True\<rparr>"

section \<open>The invariant\<close>

text \<open>
  The index is a bijection between the tasks and the positions, the publisher count is the number of
  devices that are subscribed, and no operation id occurs twice.
\<close>

definition topo_wf :: "topology \<Rightarrow> bool" where
  "topo_wf tp \<longleftrightarrow>
     wf_index (tp_stateIndex tp) (tp_stateData tp) \<and>
     (\<forall>k < length (tp_stateData tp). map_of (tp_stateIndex tp) (ds_taskId (tp_device tp k)) = Some k) \<and>
     length (tp_stateData tp) < 2 ^ 32 \<and>
     unat (tp_publishers tp) = length (filter ds_subscribed (tp_stateData tp)) \<and>
     distinct_keys (tp_changeStateOps tp) \<and> distinct_keys (tp_waitForStateOps tp) \<and>
     distinct_keys (tp_setPropertiesOps tp) \<and> distinct_keys (tp_getPropertiesOps tp)"

text \<open>What no step changes of a device; an ignored device stays ignored.\<close>

definition dev_evolves :: "DeviceStatus \<Rightarrow> DeviceStatus \<Rightarrow> bool" where
  "dev_evolves d d' \<longleftrightarrow> ds_taskId d' = ds_taskId d \<and> ds_collectionId d' = ds_collectionId d \<and>
     ds_expendable d' = ds_expendable d \<and> (ds_ignored d \<longrightarrow> ds_ignored d')"

definition evolves :: "topology \<Rightarrow> topology \<Rightarrow> bool" where
  "evolves tp tp' \<longleftrightarrow> tp_stateIndex tp' = tp_stateIndex tp \<and>
     list_all2 dev_evolves (tp_stateData tp) (tp_stateData tp')"

text \<open>The two together, as one relation between a topology and its successor.\<close>

definition topo_step_ok :: "topology \<Rightarrow> topology \<Rightarrow> bool" where
  "topo_step_ok tp tp' \<longleftrightarrow> (topo_wf tp \<longrightarrow> topo_wf tp' \<and> evolves tp tp')"

lemma dev_evolves_refl [simp]: "dev_evolves d d"
  by (simp add: dev_evolves_def)

lemma dev_evolves_trans: "dev_evolves a b \<Longrightarrow> dev_evolves b c \<Longrightarrow> dev_evolves a c"
  by (auto simp: dev_evolves_def)

lemma evolves_refl [simp]: "evolves tp tp"
  by (simp add: evolves_def list.rel_refl)

lemma evolves_trans: "evolves a b \<Longrightarrow> evolves b c \<Longrightarrow> evolves a c"
  unfolding evolves_def by (auto intro: list_all2_trans [OF dev_evolves_trans])

lemma topo_step_ok_refl [simp]: "topo_step_ok tp tp"
  by (simp add: topo_step_ok_def)

lemma topo_step_ok_trans [inv_intros]:
  "topo_step_ok a b \<Longrightarrow> topo_step_ok b c \<Longrightarrow> topo_step_ok a c"
  unfolding topo_step_ok_def by (blast intro: evolves_trans)

lemma evolves_same_data:
  "tp_stateIndex tp' = tp_stateIndex tp \<Longrightarrow> tp_stateData tp' = tp_stateData tp \<Longrightarrow> evolves tp tp'"
  by (simp add: evolves_def list.rel_refl)

text \<open>Fields that the invariant does not read.\<close>

lemma topo_step_ok_other:
  "topo_step_ok tp (tp\<lparr>tp_sent := xs\<rparr>)"
  "topo_step_ok tp (tp\<lparr>tp_heartbeatsTimer := b\<rparr>)"
  "topo_step_ok tp (tp\<lparr>tp_heartbeatInterval := i\<rparr>)"
  "topo_step_ok tp (tp\<lparr>tp_collectionInfo := ci\<rparr>)"
  by (auto simp: topo_step_ok_def topo_wf_def intro: evolves_same_data)

lemma distinct_keys_map_vals [simp]: "distinct_keys (map_vals f m) = distinct_keys m"
  by (simp add: distinct_keys_def)

lemma topo_step_ok_ops:
  "(distinct_keys (tp_changeStateOps tp) \<Longrightarrow> distinct_keys c) \<Longrightarrow> topo_step_ok tp (tp\<lparr>tp_changeStateOps := c\<rparr>)"
  "(distinct_keys (tp_waitForStateOps tp) \<Longrightarrow> distinct_keys w) \<Longrightarrow> topo_step_ok tp (tp\<lparr>tp_waitForStateOps := w\<rparr>)"
  "(distinct_keys (tp_setPropertiesOps tp) \<Longrightarrow> distinct_keys s) \<Longrightarrow> topo_step_ok tp (tp\<lparr>tp_setPropertiesOps := s\<rparr>)"
  "(distinct_keys (tp_getPropertiesOps tp) \<Longrightarrow> distinct_keys g) \<Longrightarrow> topo_step_ok tp (tp\<lparr>tp_getPropertiesOps := g\<rparr>)"
  by (auto simp: topo_step_ok_def topo_wf_def intro: evolves_same_data)

text \<open>Rewriting all devices together with the count.\<close>

definition recounts :: "TopoState \<Rightarrow> u32 \<Rightarrow> TopoState \<Rightarrow> u32 \<Rightarrow> bool" where
  "recounts sd n sd' n' \<longleftrightarrow> list_all2 dev_evolves sd sd' \<and>
     (length sd < 2 ^ 32 \<and> unat n = length (filter ds_subscribed sd) \<longrightarrow>
      unat n' = length (filter ds_subscribed sd'))"

lemma topo_step_ok_recounts:
  assumes "recounts (tp_stateData tp) (tp_publishers tp) sd n"
  shows "topo_step_ok tp (tp\<lparr>tp_stateData := sd, tp_publishers := n\<rparr>)"
proof -
  have l: "length sd = length (tp_stateData tp)"
    using assms by (auto simp: recounts_def dest: list_all2_lengthD)
  have "ds_taskId (sd ! k) = ds_taskId (tp_device tp k)" if "k < length sd" for k
    using assms that l by (auto simp: recounts_def list_all2_conv_all_nth dev_evolves_def)
  with assms l show ?thesis
    by (auto simp: topo_step_ok_def topo_wf_def recounts_def evolves_def wf_index_def)
qed

lemma topo_step_ok_set_device:
  assumes "k < length (tp_stateData tp)" "dev_evolves (tp_device tp k) d"
    and "n = (if ds_subscribed (tp_device tp k) = ds_subscribed d then tp_publishers tp
              else if ds_subscribed d then tp_publishers tp + 1 else tp_publishers tp - 1)"
  shows "topo_step_ok tp ((tp_set_device k d tp)\<lparr>tp_publishers := n\<rparr>)"
proof -
  let ?sd = "tp_stateData tp"
  have "unat n = length (filter ds_subscribed (?sd[k := d]))"
    if l: "length ?sd < 2 ^ 32" and u: "unat (tp_publishers tp) = length (filter ds_subscribed ?sd)"
  proof (cases "ds_subscribed (?sd ! k) = ds_subscribed d")
    case True
    then show ?thesis using assms(1,3) u by (simp add: length_filter_update_same)
  next
    case False
    show ?thesis
    proof (cases "ds_subscribed d")
      case True
      with False have "length (filter ds_subscribed (?sd[k := d])) = Suc (length (filter ds_subscribed ?sd))"
        using assms(1) by (intro length_filter_update_flip) auto
      moreover have "length (filter ds_subscribed (?sd[k := d])) \<le> length ?sd"
        by (metis length_filter_le length_list_update)
      ultimately show ?thesis using True False u l assms(3) by (simp add: unat_Suc_word)
    next
      case nd: False
      with False have s: "length (filter ds_subscribed ?sd) = Suc (length (filter ds_subscribed (?sd[k := d])))"
        using assms(1) by (intro length_filter_update_unflip) auto
      then have "0 < unat (tp_publishers tp)" using u by simp
      then have "unat (tp_publishers tp - 1) = unat (tp_publishers tp) - 1"
        by (rule unat_pred_word)
      then show ?thesis using nd False u s assms(3) by simp
    qed
  qed
  moreover have "list_all2 dev_evolves ?sd (?sd[k := d])"
    using assms(1,2) by (auto simp: list_all2_conv_all_nth nth_list_update)
  ultimately have "recounts ?sd (tp_publishers tp) (?sd[k := d]) n" by (simp add: recounts_def)
  from topo_step_ok_recounts [OF this] show ?thesis by (simp add: tp_set_device_def)
qed

lemma topo_step_ok_set_device_same:
  assumes "k < length (tp_stateData tp)" "dev_evolves (tp_device tp k) d"
    and "ds_subscribed d = ds_subscribed (tp_device tp k)"
  shows "topo_step_ok tp (tp_set_device k d tp)"
  using topo_step_ok_set_device [OF assms(1,2), of "tp_publishers tp"] assms(3)
  by (simp add: tp_set_device_def)

text \<open>Rewritings of one device that only ever unsubscribe it.\<close>

definition lower_step :: "DeviceStatus \<Rightarrow> u32 \<Rightarrow> DeviceStatus \<Rightarrow> u32 \<Rightarrow> bool" where
  "lower_step d n d' n' \<longleftrightarrow> dev_evolves d d' \<and>
     (ds_subscribed d' = ds_subscribed d \<and> n' = n \<or> ds_subscribed d \<and> \<not> ds_subscribed d' \<and> n' = n - 1)"

definition lowers :: "(DeviceStatus \<Rightarrow> u32 \<Rightarrow> DeviceStatus \<times> u32) \<Rightarrow> bool" where
  "lowers f \<longleftrightarrow> (\<forall>d n. lower_step d n (fst (f d n)) (snd (f d n)))"

lemma lowersD: "lowers f \<Longrightarrow> f d n = (d', n') \<Longrightarrow> lower_step d n d' n'"
  unfolding lowers_def by (metis fst_conv snd_conv)

lemma lower_step_refl: "lower_step d n d n"
  by (simp add: lower_step_def)

lemma lower_step_trans: "lower_step a n b m \<Longrightarrow> lower_step b m c l \<Longrightarrow> lower_step a n c l"
  unfolding lower_step_def using dev_evolves_trans by blast

lemma lowers_unsubscribe: "lowers unsubscribe_device"
  by (simp add: lowers_def lower_step_def unsubscribe_device_def dev_evolves_def)

lemma lowers_ignore: "lowers ignore_device"
  by (simp add: lowers_def lower_step_def ignore_device_def unsubscribe_device_def dev_evolves_def)

lemma lowers_if: "lowers f \<Longrightarrow> lowers (\<lambda>d n. if P d then f d n else (d, n))"
  by (simp add: lowers_def lower_step_refl)

lemma lowers_collections: "lowers (IgnoreFailedCollections_device cs)"
proof (induction cs)
  case (Cons c cs)
  show ?case
    using lowers_ignore Cons unfolding lowers_def
    by (clarsimp simp: split_def Let_def) (blast intro: lower_step_trans)
qed (simp add: lowers_def lower_step_refl)

lemma for_devices_lowers:
  assumes "lowers f"
  shows "for_devices f sd n = (sd', n') \<Longrightarrow> length sd < 2 ^ 32 \<Longrightarrow>
    list_all2 dev_evolves sd sd' \<and>
    (length (filter ds_subscribed sd) \<le> unat n \<longrightarrow>
       unat n' + length (filter ds_subscribed sd) = unat n + length (filter ds_subscribed sd'))"
proof (induction sd arbitrary: n sd' n')
  case (Cons d ds)
  obtain d1 n1 where f: "f d n = (d1, n1)" by (cases "f d n")
  obtain ds1 where r: "for_devices f ds n1 = (ds1, n')" "sd' = d1 # ds1"
    using Cons.prems(1) f by (auto split: prod.splits)
  note d = lowersD [OF assms f]
  note ih = Cons.IH [OF r(1)]
  have u: "unat n1 = unat n - 1" if "n1 = n - 1" "Suc 0 \<le> unat n"
    using that unat_pred_word [of n] by simp
  consider "dev_evolves d d1" "ds_subscribed d1 = ds_subscribed d" "n1 = n"
    | "dev_evolves d d1" "ds_subscribed d" "\<not> ds_subscribed d1" "n1 = n - 1"
    using d unfolding lower_step_def by blast
  then show ?case
  proof cases
    case 1
    then show ?thesis using ih Cons.prems(2) r(2) by auto
  next
    case 2
    then show ?thesis using ih Cons.prems(2) r(2) u by auto
  qed
qed simp

lemma topo_step_ok_for_devices:
  assumes "lowers f" "for_devices f (tp_stateData tp) (tp_publishers tp) = (sd, n)"
  shows "topo_step_ok tp (tp\<lparr>tp_stateData := sd, tp_publishers := n\<rparr>)"
proof (cases "length (tp_stateData tp) < 2 ^ 32")
  case True
  from for_devices_lowers [OF assms True] show ?thesis
    by (intro topo_step_ok_recounts) (auto simp: recounts_def)
next
  case False
  then show ?thesis by (simp add: topo_step_ok_def topo_wf_def)
qed

lemma IgnoreFailedCollections_ok [inv_intros]: "topo_step_ok tp (IgnoreFailedCollections cs tp)"
  unfolding IgnoreFailedCollections_def
  by (auto split: prod.splits intro: topo_step_ok_for_devices [OF lowers_collections])

lemma ignore_collection_ok [inv_intros]: "topo_step_ok tp (ignore_collection c tp)"
  unfolding ignore_collection_def
  by (auto split: prod.splits intro: topo_step_ok_for_devices [OF lowers_if [OF lowers_ignore]])

lemma tp_at_less: "tp_at tp i = Inr k \<Longrightarrow> k < length (tp_stateData tp) \<and> map_of (tp_stateIndex tp) i = Some k"
  by (auto simp: tp_at_def split: option.splits if_splits)

lemma topo_step_ok_lower_device:
  assumes "lowers f" "f (tp_device tp k) (tp_publishers tp) = (d, n)" "k < length (tp_stateData tp)"
    and "dev_evolves d d'" "ds_subscribed d' = ds_subscribed d"
  shows "topo_step_ok tp ((tp_set_device k d' tp)\<lparr>tp_publishers := n\<rparr>)"
  using lowersD [OF assms(1,2)] assms(3-5)
  by (intro topo_step_ok_set_device) (auto simp: lower_step_def intro: dev_evolves_trans)

lemma IgnoreFailedTask_ok [inv_intros]: "topo_step_ok tp (fst (IgnoreFailedTask i tp))"
  unfolding IgnoreFailedTask_def
  by (auto simp: Let_def split: sum.splits prod.splits dest: tp_at_less
      intro: topo_step_ok_lower_device [OF lowers_ignore])

lemma IsExpendable_ok:
  assumes "k < length (tp_stateData tp)"
  shows "topo_step_ok tp (fst (IsExpendable dds k tp))"
proof -
  have "topo_step_ok tp (tp_set_device k ((tp_device tp k)\<lparr>ds_ignored := True\<rparr>) tp)"
    using assms by (intro topo_step_ok_set_device_same) (simp_all add: dev_evolves_def)
  moreover have "topo_step_ok tp (ignore_collection c (tp\<lparr>tp_collectionInfo := ci\<rparr>))" for c ci
    by (rule topo_step_ok_trans [OF topo_step_ok_other(4) ignore_collection_ok])
  ultimately show ?thesis
    by (simp add: IsExpendable_def Let_def topo_step_ok_other split: sum.splits option.splits)
qed

lemma update_ops_ok [inv_intros]:
  "topo_step_ok tp (update_cs_ops t s x tp)" "topo_step_ok tp (update_ws_ops t l s x tp)"
  "topo_step_ok tp (update_sp_ops t x tp)"
  by (simp_all add: update_cs_ops_def update_ws_ops_def update_sp_ops_def topo_step_ok_ops)

lemma update_ops_data [simp]:
  "tp_stateData (update_cs_ops t s x tp) = tp_stateData tp" "tp_stateData (update_ws_ops t l s x tp) = tp_stateData tp"
  "tp_stateData (update_sp_ops t x tp) = tp_stateData tp"
  by (simp_all add: update_cs_ops_def update_ws_ops_def update_sp_ops_def)

lemma onTaskDone_ok [inv_intros]: "topo_step_ok tp (fst (onTaskDone dds t exitCode sig tp))"
proof (cases "tp_at tp t")
  case (Inr k)
  obtain d0 n where u: "unsubscribe_device (tp_device tp k) (tp_publishers tp) = (d0, n)" by fastforce
  let ?set = "\<lambda>s. (tp_set_device k (d0\<lparr>ds_exitCode := exitCode, ds_signal := sig, ds_lastState := ds_state d0,
    ds_state := s\<rparr>) tp)\<lparr>tp_publishers := n\<rparr>"
  have k: "k < length (tp_stateData tp)" using tp_at_less [OF Inr] by simp
  have set: "topo_step_ok tp (?set s)" for s
    by (rule topo_step_ok_lower_device [OF lowers_unsubscribe u k]) (simp_all add: dev_evolves_def)
  have "topo_step_ok tp (fst (IsExpendable dds k (?set s)))" for s
    by (rule topo_step_ok_trans [OF set IsExpendable_ok]) (simp add: tp_set_device_def k)
  moreover have "topo_step_ok tp (update_ws_ops t1 l s x (update_cs_ops t1 s x (update_sp_ops t1 x tp')))"
    "topo_step_ok tp (update_ws_ops t1 l s x (update_cs_ops t1 s x tp'))"
    if "topo_step_ok tp tp'" for t1 l s x tp'
    using that by (blast intro: topo_step_ok_trans update_ops_ok)+
  ultimately show ?thesis
    using Inr u set
    by (auto simp: onTaskDone_def Let_def split: prod.splits sum.splits) (metis fst_conv)+
qed (simp add: onTaskDone_def)

lemma HandleCmd_StateChangeSubscription_ok [inv_intros]:
  "topo_step_ok tp (HandleCmd_StateChangeSubscription cmd tp)"
  unfolding HandleCmd_StateChangeSubscription_def
  by (auto split: sum.splits dest: tp_at_less intro!: topo_step_ok_set_device simp: dev_evolves_def)

lemma HandleCmd_StateChangeUnsubscription_ok [inv_intros]:
  "topo_step_ok tp (HandleCmd_StateChangeUnsubscription cmd tp)"
  unfolding HandleCmd_StateChangeUnsubscription_def
  by (auto simp: Let_def split: sum.splits prod.splits dest: tp_at_less
      intro: topo_step_ok_lower_device [OF lowers_unsubscribe])

lemma HandleCmd_StateChange_ok [inv_intros]: "topo_step_ok tp (HandleCmd_StateChange dds cmd tp)"
proof (cases "tp_at tp (sc_taskId cmd)")
  case (Inr k)
  let ?set = "tp_set_device k ((tp_device tp k)\<lparr>ds_lastState := sc_lastState cmd, ds_state := sc_currentState cmd\<rparr>) tp"
  have k: "k < length (tp_stateData tp)" using tp_at_less [OF Inr] by simp
  have set: "topo_step_ok tp ?set"
    by (rule topo_step_ok_set_device_same [OF k]) (simp_all add: dev_evolves_def)
  have "topo_step_ok tp (fst (IsExpendable dds k ?set))"
    by (rule topo_step_ok_trans [OF set IsExpendable_ok]) (simp add: tp_set_device_def k)
  moreover have "topo_step_ok tp (update_ws_ops t1 l s x (update_cs_ops t1 s x (update_sp_ops t2 x tp')))"
    "topo_step_ok tp (update_ws_ops t1 l s x (update_cs_ops t1 s x tp'))"
    if "topo_step_ok tp tp'" for t1 t2 l s x tp'
    using that by (blast intro: topo_step_ok_trans update_ops_ok)+
  ultimately show ?thesis
    using Inr set
    by (auto simp: HandleCmd_StateChange_def Let_def split: prod.splits sum.splits)
qed (simp add: HandleCmd_StateChange_def)

lemma TransitionStatus_loop_keys: "map fst (fst (TransitionStatus_loop t tp ops)) = map fst ops"
  by (induction t tp ops rule: TransitionStatus_loop.induct)
    (auto simp: Let_def split: sum.splits prod.splits)

lemma HandleCmd_TransitionStatus_ok [inv_intros]: "topo_step_ok tp (fst (HandleCmd_TransitionStatus cmd tp))"
  using TransitionStatus_loop_keys [of "ts_taskId cmd" tp "tp_changeStateOps tp"]
  by (auto simp: HandleCmd_TransitionStatus_def distinct_keys_def split: prod.splits intro!: topo_step_ok_ops)

lemma HandleCmd_Properties_ok [inv_intros]: "topo_step_ok tp (HandleCmd_Properties cmd tp)"
  by (auto simp: HandleCmd_Properties_def split: option.splits intro!: topo_step_ok_ops distinct_keys_update)

lemma HandleCmd_PropertiesSet_ok [inv_intros]: "topo_step_ok tp (HandleCmd_PropertiesSet cmd tp)"
  by (auto simp: HandleCmd_PropertiesSet_def split: option.splits intro!: topo_step_ok_ops distinct_keys_update)

lemma HandleCmd_ok [inv_intros]: "topo_step_ok tp (fst (HandleCmd dds cmd tp))"
  by (cases cmd) (simp_all add: HandleCmd_def inv_intros)

lemma HandleCmds_ok [inv_intros]: "topo_step_ok tp (fst (HandleCmds dds cmds tp))"
proof (induction cmds arbitrary: tp)
  case (Cons c cs)
  have "topo_step_ok tp (fst (HandleCmd dds c tp))" by (rule HandleCmd_ok)
  then show ?case
    using Cons by (auto split: prod.splits option.splits) (metis fst_conv topo_step_ok_trans)+
qed simp

lemma onMessage_ok [inv_intros]: "topo_step_ok tp (fst (onMessage fb dds msg tp))"
  by (auto simp: onMessage_def HandleCmds_ok split: prod.splits option.splits)

lemma SendSubscriptionHeartbeats_ok [inv_intros]: "topo_step_ok tp (SendSubscriptionHeartbeats tp)"
  unfolding SendSubscriptionHeartbeats_def tp_send_def
  by (rule topo_step_ok_trans [OF topo_step_ok_other(1) topo_step_ok_other(2)])

end
