(* ===== verification/Topology_Async.thy ===== *)
theory Topology_Async
  imports ODC_Topology
begin

text \<open>
  \<^verbatim>\<open>src/odc/Topology.h\<close>, second part: the asynchronous operations a topology starts, their blocking
  forms, the waits and the destructor, and the whole topology as a transition system whose steps are
  the messages, task exits, timers and calls it handles under its mutex.

  The id of an operation (\<^verbatim>\<open>uuidHash()\<close>) is an argument. A blocking call is followed through the list of
  the steps that happen while it waits; its value is \<open>None\<close> when they end before the operation has
  completed, so that not returning is a value of the model.
\<close>

section \<open>Starting operations\<close>

definition drop_completed :: "('op \<Rightarrow> bool) \<Rightarrow> (u64 \<times> 'op) list \<Rightarrow> (u64 \<times> 'op) list" where
  "drop_completed completed ops = filter (\<lambda>(_, op). \<not> completed op) ops"

text \<open>
  \<^verbatim>\<open>try_emplace\<close> does not construct an operation when the id is taken; the following calls then work on
  the one that is there.
\<close>

definition AsyncChangeState ::
  "dds_topo \<Rightarrow> u64 \<Rightarrow> mq_transition \<Rightarrow> string \<Rightarrow> int \<Rightarrow> topology \<Rightarrow> topology \<times> exn option" where
  "AsyncChangeState dds i transition path timeout tp =
    (let tp1 = tp\<lparr>tp_changeStateOps := drop_completed cs_IsCompleted (tp_changeStateOps tp)\<rparr> in
     case GetTasks dds path tp1 of
       Inl e \<Rightarrow> (tp1, Some e)
     | Inr tasks \<Rightarrow>
        (case (case map_of (tp_changeStateOps tp1) i of
                 Some op \<Rightarrow> Inr op | None \<Rightarrow> cs_new i transition tasks timeout) of
           Inl e \<Rightarrow> (tp1, Some e)
         | Inr op \<Rightarrow>
             let tp2 = tp_send [ChangeState \<lparr>chs_transition = transition\<rparr>] path tp1;
                 (op1, e) = cs_ResetCount (tp_stateIndex tp2) (tp_stateData tp2) op;
                 op2 = (if e = None then cs_TryCompletion (tp_stateData tp2) op1 else op1)
             in (tp2\<lparr>tp_changeStateOps := AList.update i op2 (tp_changeStateOps tp2)\<rparr>, e)))"

definition AsyncWaitForState ::
  "dds_topo \<Rightarrow> u64 \<Rightarrow> mq_state \<Rightarrow> mq_state \<Rightarrow> string \<Rightarrow> int \<Rightarrow> topology \<Rightarrow> topology \<times> exn option" where
  "AsyncWaitForState dds i targetLastState targetCurrentState path timeout tp =
    (let tp1 = tp\<lparr>tp_waitForStateOps := drop_completed ws_IsCompleted (tp_waitForStateOps tp)\<rparr> in
     case GetTasks dds path tp1 of
       Inl e \<Rightarrow> (tp1, Some e)
     | Inr tasks \<Rightarrow>
         let op = (case map_of (tp_waitForStateOps tp1) i of
                     Some op \<Rightarrow> op | None \<Rightarrow> ws_new i targetLastState targetCurrentState tasks timeout);
             (op1, e) = ws_ResetCount (tp_stateIndex tp1) (tp_stateData tp1) op;
             op2 = (if e = None then ws_TryCompletion op1 else op1)
         in (tp1\<lparr>tp_waitForStateOps := AList.update i op2 (tp_waitForStateOps tp1)\<rparr>, e))"

definition AsyncGetProperties ::
  "dds_topo \<Rightarrow> u64 \<Rightarrow> string \<Rightarrow> string \<Rightarrow> int \<Rightarrow> topology \<Rightarrow> topology \<times> exn option" where
  "AsyncGetProperties dds i query path timeout tp =
    (let tp1 = tp\<lparr>tp_getPropertiesOps := drop_completed gpo_IsCompleted (tp_getPropertiesOps tp)\<rparr> in
     case GetTasks dds path tp1 of
       Inl e \<Rightarrow> (tp1, Some e)
     | Inr tasks \<Rightarrow>
         (tp_send [GetProperties \<lparr>gpr_requestId = i, gpr_query = query\<rparr>] path
            (tp1\<lparr>tp_getPropertiesOps := umap_emplace i (gpo_new i tasks timeout) (tp_getPropertiesOps tp1)\<rparr>), None))"

text \<open>The cleanup loop of \<^verbatim>\<open>AsyncSetProperties\<close> runs over the get-properties operations.\<close>

definition AsyncSetProperties ::
  "dds_topo \<Rightarrow> u64 \<Rightarrow> DeviceProperties \<Rightarrow> string \<Rightarrow> int \<Rightarrow> topology \<Rightarrow> topology \<times> exn option" where
  "AsyncSetProperties dds i props path timeout tp =
    (let tp1 = tp\<lparr>tp_getPropertiesOps := drop_completed gpo_IsCompleted (tp_getPropertiesOps tp)\<rparr> in
     case GetTasks dds path tp1 of
       Inl e \<Rightarrow> (tp1, Some e)
     | Inr tasks \<Rightarrow>
         let op = (case map_of (tp_setPropertiesOps tp1) i of Some op \<Rightarrow> op | None \<Rightarrow> spo_new i tasks timeout);
             tp2 = tp_send [SetProperties \<lparr>spr_requestId = i, spr_properties = props\<rparr>] path tp1;
             (op1, e) = spo_ResetCount (tp_stateIndex tp2) (tp_stateData tp2) op;
             op2 = (if e = None then spo_TryCompletion op1 else op1)
         in (tp2\<lparr>tp_setPropertiesOps := AList.update i op2 (tp_setPropertiesOps tp2)\<rparr>, e))"

definition GetCurrentState :: "topology \<Rightarrow> TopoState" where
  "GetCurrentState tp = tp_stateData tp"

section \<open>Unsubscribing and destruction\<close>

definition UnsubscribeFromStateChanges_send :: "topology \<Rightarrow> topology" where
  "UnsubscribeFromStateChanges_send tp =
     tp_send [UnsubscribeFromStateChange] '''' (tp\<lparr>tp_heartbeatsTimer := False\<rparr>)"

text \<open>
  The polling loop of \<^verbatim>\<open>WaitForPublisherCount\<close>: \<open>others n\<close> is what the other threads do while it waits for
  the n-th time, \<open>running n\<close> whether the session is running then. At most 600 intervals of 50 ms.
\<close>

fun WaitForPublisherCount_loop ::
  "nat \<Rightarrow> nat \<Rightarrow> u32 \<Rightarrow> (nat \<Rightarrow> bool) \<Rightarrow> (nat \<Rightarrow> topology \<Rightarrow> topology) \<Rightarrow> topology \<Rightarrow> topology" where
  "WaitForPublisherCount_loop 0 n number running others tp = tp"
| "WaitForPublisherCount_loop (Suc m) n number running others tp =
     (if tp_publishers tp \<noteq> number \<and> running n
      then WaitForPublisherCount_loop m (Suc n) number running others (others n tp)
      else tp)"

definition WaitForPublisherCount ::
  "u32 \<Rightarrow> (nat \<Rightarrow> bool) \<Rightarrow> (nat \<Rightarrow> topology \<Rightarrow> topology) \<Rightarrow> topology \<Rightarrow> topology" where
  "WaitForPublisherCount number running others tp = WaitForPublisherCount_loop 600 0 number running others tp"

text \<open>
  The loop of the destructor: \<^verbatim>\<open>Complete\<close> throws for an operation that has completed already, and the
  exception, swallowed by \<^verbatim>\<open>catch (...)\<close>, ends the loop.
\<close>

fun cancel_ops :: "TopoState \<Rightarrow> (u64 \<times> change_state_op) list \<Rightarrow> (u64 \<times> change_state_op) list" where
  "cancel_ops sd [] = []"
| "cancel_ops sd ((i, op) # ops) =
     (case cs_Complete (MakeErrorCode OperationCanceled) sd op of
        (op1, None) \<Rightarrow> (i, op1) # cancel_ops sd ops
      | (op1, Some e) \<Rightarrow> (i, op1) # ops)"

definition tp_destroy :: "(nat \<Rightarrow> bool) \<Rightarrow> (nat \<Rightarrow> topology \<Rightarrow> topology) \<Rightarrow> topology \<Rightarrow> topology" where
  "tp_destroy running others tp =
     (let tp1 = WaitForPublisherCount 0 running others (UnsubscribeFromStateChanges_send tp)
      in tp1\<lparr>tp_changeStateOps := cancel_ops (tp_stateData tp1) (tp_changeStateOps tp1)\<rparr>)"

section \<open>The topology as a transition system\<close>

datatype topo_event =
    EvCommands Cmds
  | EvTaskDone task_id int int
  | EvHeartbeat
  | EvTimerChangeState u64
  | EvTimerWaitForState u64
  | EvTimerGetProperties u64
  | EvTimerSetProperties u64
  | EvIgnoreTask task_id
  | EvIgnoreCollections "CollectionDetails list"
  | EvChangeState u64 mq_transition string int
  | EvWaitForState u64 mq_state mq_state string int
  | EvGetProperties u64 string string int
  | EvSetProperties u64 DeviceProperties string int
  | EvUnsubscribe

text \<open>A timer event for an id that is not there any more concerns a destroyed timer and does nothing.\<close>

definition fire_timer ::
  "('op \<Rightarrow> 'op \<times> exn option) \<Rightarrow> u64 \<Rightarrow> (u64 \<times> 'op) list \<Rightarrow> (u64 \<times> 'op) list \<times> exn option" where
  "fire_timer fire i ops =
     (case map_of ops i of
        None \<Rightarrow> (ops, None)
      | Some op \<Rightarrow> let (op1, e) = fire op in (AList.update i op1 ops, e))"

definition topo_step :: "dds_topo \<Rightarrow> topo_event \<Rightarrow> topology \<Rightarrow> topology \<times> exn option" where
  "topo_step dds ev tp =
     (case ev of
        EvCommands cmds \<Rightarrow> HandleCmds dds cmds tp
      | EvTaskDone t exitCode sig \<Rightarrow> onTaskDone dds t exitCode sig tp
      | EvHeartbeat \<Rightarrow> (if tp_heartbeatsTimer tp then SendSubscriptionHeartbeats tp else tp, None)
      | EvTimerChangeState i \<Rightarrow>
          (let (ops, e) = fire_timer (cs_timer_fired (tp_stateData tp)) i (tp_changeStateOps tp)
           in (tp\<lparr>tp_changeStateOps := ops\<rparr>, e))
      | EvTimerWaitForState i \<Rightarrow>
          (let (ops, e) = fire_timer ws_timer_fired i (tp_waitForStateOps tp) in (tp\<lparr>tp_waitForStateOps := ops\<rparr>, e))
      | EvTimerGetProperties i \<Rightarrow>
          (let (ops, e) = fire_timer gpo_timer_fired i (tp_getPropertiesOps tp) in (tp\<lparr>tp_getPropertiesOps := ops\<rparr>, e))
      | EvTimerSetProperties i \<Rightarrow>
          (let (ops, e) = fire_timer spo_timer_fired i (tp_setPropertiesOps tp) in (tp\<lparr>tp_setPropertiesOps := ops\<rparr>, e))
      | EvIgnoreTask t \<Rightarrow> IgnoreFailedTask t tp
      | EvIgnoreCollections cs \<Rightarrow> (IgnoreFailedCollections cs tp, None)
      | EvChangeState i tr path timeout \<Rightarrow> AsyncChangeState dds i tr path timeout tp
      | EvWaitForState i l s path timeout \<Rightarrow> AsyncWaitForState dds i l s path timeout tp
      | EvGetProperties i query path timeout \<Rightarrow> AsyncGetProperties dds i query path timeout tp
      | EvSetProperties i props path timeout \<Rightarrow> AsyncSetProperties dds i props path timeout tp
      | EvUnsubscribe \<Rightarrow> (UnsubscribeFromStateChanges_send tp, None))"

inductive topo_reachable :: "dds_topo \<Rightarrow> topology \<Rightarrow> bool" for dds where
  init: "topo_reachable dds (tp_new dds expendableTasks collectionInfo)"
| step: "topo_reachable dds tp \<Longrightarrow> topo_reachable dds (fst (topo_step dds ev tp))"

inductive_cases topo_reachableE: "topo_reachable dds tp"

section \<open>Blocking calls\<close>

text \<open>
  The thread waits on its semaphore until the handler has been called; \<open>watch\<close> reads whether it was.
\<close>

fun await :: "dds_topo \<Rightarrow> (topology \<Rightarrow> 'r option) \<Rightarrow> topo_event list \<Rightarrow> topology \<Rightarrow> topology \<times> 'r option" where
  "await dds watch es tp =
     (case watch tp of
        Some r \<Rightarrow> (tp, Some r)
      | None \<Rightarrow> (case es of [] \<Rightarrow> (tp, None) | e # es' \<Rightarrow> await dds watch es' (fst (topo_step dds e tp))))"

declare await.simps [simp del]

definition watch_cs :: "u64 \<Rightarrow> topology \<Rightarrow> (error_code \<times> TopoState) option" where
  "watch_cs i tp = Option.bind (map_of (tp_changeStateOps tp) i) (\<lambda>op. op_result (cs_op op))"

definition watch_ws :: "u64 \<Rightarrow> topology \<Rightarrow> (error_code \<times> unit) option" where
  "watch_ws i tp = Option.bind (map_of (tp_waitForStateOps tp) i) (\<lambda>op. op_result (ws_op op))"

definition watch_gp :: "u64 \<Rightarrow> topology \<Rightarrow> (error_code \<times> GetPropertiesResult) option" where
  "watch_gp i tp = Option.bind (map_of (tp_getPropertiesOps tp) i) (\<lambda>op. op_result (gpo_op op))"

definition watch_sp :: "u64 \<Rightarrow> topology \<Rightarrow> (error_code \<times> FailedDevices) option" where
  "watch_sp i tp = Option.bind (map_of (tp_setPropertiesOps tp) i) (\<lambda>op. op_result (spo_op op))"

text \<open>
  The four blocking calls. The id is taken to be new: with an id in use the handler would be dropped
  and the call would wait for ever.
\<close>

definition block_on ::
  "dds_topo \<Rightarrow> (topology \<Rightarrow> (error_code \<times> 'r) option) \<Rightarrow> topo_event list \<Rightarrow> topology \<times> exn option \<Rightarrow>
     topology \<times> (exn + error_code \<times> 'r) option" where
  "block_on dds watch es started =
     (case started of
        (tp, Some e) \<Rightarrow> (tp, Some (Inl e))
      | (tp, None) \<Rightarrow> (let (tp1, r) = await dds watch es tp in (tp1, map_option Inr r)))"

definition tp_ChangeState where
  "tp_ChangeState dds i transition path timeout es tp =
     block_on dds (watch_cs i) es (AsyncChangeState dds i transition path timeout tp)"

definition tp_WaitForState where
  "tp_WaitForState dds i targetLastState targetCurrentState path timeout es tp =
     block_on dds (watch_ws i) es (AsyncWaitForState dds i targetLastState targetCurrentState path timeout tp)"

definition tp_GetProperties where
  "tp_GetProperties dds i query path timeout es tp =
     block_on dds (watch_gp i) es (AsyncGetProperties dds i query path timeout tp)"

definition tp_SetProperties where
  "tp_SetProperties dds i props path timeout es tp =
     block_on dds (watch_sp i) es (AsyncSetProperties dds i props path timeout tp)"

section \<open>The invariant holds in every reachable state\<close>

lemma distinct_keys_filter: "distinct_keys m \<Longrightarrow> distinct_keys (filter P m)"
  by (simp add: distinct_keys_def distinct_map_filter)

lemma distinct_keys_drop [inv_intros]: "distinct_keys m \<Longrightarrow> distinct_keys (drop_completed c m)"
  by (simp add: drop_completed_def distinct_keys_filter)

lemma distinct_keys_fire: "distinct_keys m \<Longrightarrow> fire_timer f i m = (m', e) \<Longrightarrow> distinct_keys m'"
  by (auto simp: fire_timer_def distinct_keys_update split: option.splits prod.splits)

lemma tp_send_ok: "topo_step_ok tp (tp_send cmds path tp)"
  by (simp add: tp_send_def topo_step_ok_other)

lemma AsyncChangeState_ok: "topo_step_ok tp (fst (AsyncChangeState dds i tr path timeout tp))"
proof -
  let ?tp1 = "tp\<lparr>tp_changeStateOps := drop_completed cs_IsCompleted (tp_changeStateOps tp)\<rparr>"
  have 1: "topo_step_ok tp ?tp1" by (rule topo_step_ok_ops) (rule distinct_keys_drop)
  have 2: "topo_step_ok tp (tp_send c path ?tp1)" for c
    by (rule topo_step_ok_trans [OF 1 tp_send_ok])
  have "topo_step_ok tp ((tp_send c path ?tp1)\<lparr>tp_changeStateOps := AList.update i op (tp_changeStateOps ?tp1)\<rparr>)" for c op
    by (rule topo_step_ok_trans [OF 2 topo_step_ok_ops(1)]) (simp add: tp_send_def distinct_keys_update)
  with 1 show ?thesis
    by (simp add: AsyncChangeState_def Let_def tp_send_def split: sum.split prod.split)
qed

lemma AsyncWaitForState_ok: "topo_step_ok tp (fst (AsyncWaitForState dds i l s path timeout tp))"
proof -
  let ?tp1 = "tp\<lparr>tp_waitForStateOps := drop_completed ws_IsCompleted (tp_waitForStateOps tp)\<rparr>"
  have 1: "topo_step_ok tp ?tp1" by (rule topo_step_ok_ops) (rule distinct_keys_drop)
  have "topo_step_ok tp (?tp1\<lparr>tp_waitForStateOps := AList.update i op (tp_waitForStateOps ?tp1)\<rparr>)" for op
    by (rule topo_step_ok_trans [OF 1 topo_step_ok_ops(2)]) (simp add: distinct_keys_update)
  with 1 show ?thesis
    by (simp add: AsyncWaitForState_def Let_def split: sum.split prod.split)
qed

lemma AsyncGetProperties_ok: "topo_step_ok tp (fst (AsyncGetProperties dds i query path timeout tp))"
proof -
  let ?tp1 = "tp\<lparr>tp_getPropertiesOps := drop_completed gpo_IsCompleted (tp_getPropertiesOps tp)\<rparr>"
  have 1: "topo_step_ok tp ?tp1" by (rule topo_step_ok_ops) (rule distinct_keys_drop)
  have "topo_step_ok tp (tp_send c path (?tp1\<lparr>tp_getPropertiesOps := umap_emplace i op (tp_getPropertiesOps ?tp1)\<rparr>))" for c op
    by (rule topo_step_ok_trans [OF topo_step_ok_trans [OF 1 topo_step_ok_ops(4)] tp_send_ok])
      (simp add: distinct_keys_umap_emplace)
  with 1 show ?thesis
    by (simp add: AsyncGetProperties_def Let_def split: sum.split)
qed

lemma AsyncSetProperties_ok: "topo_step_ok tp (fst (AsyncSetProperties dds i props path timeout tp))"
proof -
  let ?tp1 = "tp\<lparr>tp_getPropertiesOps := drop_completed gpo_IsCompleted (tp_getPropertiesOps tp)\<rparr>"
  have 1: "topo_step_ok tp ?tp1" by (rule topo_step_ok_ops) (rule distinct_keys_drop)
  have 2: "topo_step_ok tp (tp_send c path ?tp1)" for c
    by (rule topo_step_ok_trans [OF 1 tp_send_ok])
  have "topo_step_ok tp ((tp_send c path ?tp1)\<lparr>tp_setPropertiesOps := AList.update i op (tp_setPropertiesOps ?tp1)\<rparr>)" for c op
    by (rule topo_step_ok_trans [OF 2 topo_step_ok_ops(3)]) (simp add: tp_send_def distinct_keys_update)
  with 1 show ?thesis
    by (simp add: AsyncSetProperties_def Let_def tp_send_def split: sum.split prod.split)
qed

lemma UnsubscribeFromStateChanges_send_ok: "topo_step_ok tp (UnsubscribeFromStateChanges_send tp)"
  unfolding UnsubscribeFromStateChanges_send_def
  by (rule topo_step_ok_trans [OF topo_step_ok_other(2) tp_send_ok])

lemmas topo_ok = AsyncChangeState_ok AsyncWaitForState_ok AsyncGetProperties_ok AsyncSetProperties_ok
  UnsubscribeFromStateChanges_send_ok HandleCmds_ok onTaskDone_ok SendSubscriptionHeartbeats_ok
  IgnoreFailedTask_ok IgnoreFailedCollections_ok

lemma topo_step_step_ok: "topo_step_ok tp (fst (topo_step dds ev tp))"
  by (cases ev)
    (auto simp: topo_step_def topo_ok split: prod.split intro!: topo_step_ok_ops intro: distinct_keys_fire)

interpretation topo: transition_system "\<lambda>ev tp. fst (topo_step dds ev tp)" topo_wf evolves for dds
  using topo_step_step_ok unfolding topo_step_ok_def
  by unfold_locales (blast intro: evolves_trans evolves_refl)+

lemma init_devices_spec:
  assumes "distinct (map fst ts)" "\<And>t. t \<in> fst ` set ts \<Longrightarrow> map_of si t = None"
  shows "init_devices X ts k (sd, si) =
    (sd @ map (\<lambda>(i, c). new_DeviceStatus (i \<in> X) i c) ts, si @ zip (map fst ts) [k..<k + length ts])"
  using assms
proof (induction ts arbitrary: k sd si)
  case (Cons t ts)
  obtain i c where t: "t = (i, c)" by (cases t)
  have new: "map_of si i = None" using Cons.prems(2) [of i] by (simp add: t)
  have si: "umap_emplace i k si = si @ [(i, k)]" using new by (simp add: umap_emplace_def AList_update_new)
  have "map_of (si @ [(i, k)]) u = None" if "u \<in> fst ` set ts" for u
    using Cons.prems that by (auto simp: t map_add_def)
  from Cons.IH [OF _ this, of "Suc k" "sd @ [new_DeviceStatus (i \<in> X) i c]"] Cons.prems(1)
  have rec: "init_devices X ts (Suc k) (sd @ [new_DeviceStatus (i \<in> X) i c], si @ [(i, k)]) =
      (sd @ map (\<lambda>(i, c). new_DeviceStatus (i \<in> X) i c) (t # ts),
       si @ (i, k) # zip (map fst ts) [Suc k..<Suc k + length ts])"
    by (simp add: t del: upt_Suc)
  have "[k..<k + length (t # ts)] = k # [Suc k..<Suc k + length ts]"
    by (simp add: upt_conv_Cons del: upt_Suc)
  with rec show ?case by (simp add: t si del: upt_Suc)
qed simp

lemma tp_new_wf:
  assumes "distinct (map fst (rt_tasks dds))" "length (rt_tasks dds) < 2 ^ 32"
  shows "topo_wf (tp_new dds X ci)"
proof -
  let ?ts = "rt_tasks dds"
  let ?sd = "map (\<lambda>(i, c). new_DeviceStatus (i \<in> X) i c) ?ts"
  let ?si = "zip (map fst ?ts) [0..<length ?ts]"
  let ?tp = "\<lparr>tp_stateData = ?sd, tp_stateIndex = ?si, tp_publishers = 0, tp_heartbeatInterval = 600000,
         tp_heartbeatsTimer = False, tp_changeStateOps = [], tp_waitForStateOps = [],
         tp_setPropertiesOps = [], tp_getPropertiesOps = [], tp_collectionInfo = ci, tp_sent = []\<rparr>"
  have new: "tp_new dds X ci = SubscribeToStateChanges ?tp"
    using init_devices_spec [OF assms(1), of "[]" X 0 "[]"] by (simp add: tp_new_def)
  have id: "ds_taskId (?sd ! k) = fst (?ts ! k)" if "k < length ?ts" for k
    using that by (simp add: split_def new_DeviceStatus_def)
  have idx: "wf_index ?si ?sd"
    using assms(1) id by (auto simp: wf_index_def distinct_keys_def in_set_zip)
  have bij: "map_of ?si (ds_taskId (?sd ! k)) = Some k" if "k < length ?ts" for k
    using that assms(1) id [OF that] by (auto simp: in_set_zip intro!: map_of_is_SomeI exI [of _ k])
  have "filter ds_subscribed ?sd = []" by (auto simp: filter_empty_conv new_DeviceStatus_def)
  with idx bij assms(2) have "topo_wf ?tp" by (simp add: topo_wf_def)
  moreover have "topo_step_ok ?tp (SubscribeToStateChanges ?tp)"
    unfolding SubscribeToStateChanges_def by (rule topo_step_ok_trans [OF tp_send_ok topo_step_ok_other(2)])
  ultimately show ?thesis by (simp add: new topo_step_ok_def)
qed

lemma await_step:
  "watch tp = Some r \<Longrightarrow> await dds watch es tp = (tp, Some r)"
  "watch tp = None \<Longrightarrow> await dds watch [] tp = (tp, None)"
  "watch tp = None \<Longrightarrow> await dds watch (e # es) tp = await dds watch es (fst (topo_step dds e tp))"
  by (simp_all add: await.simps)

text \<open>The waiting thread wakes up after the first step that completes its operation.\<close>

lemma await_run:
  assumes "\<And>k. k < length es \<Longrightarrow> watch (fold (\<lambda>e s. fst (topo_step dds e s)) (take k es) tp) = None"
  shows "await dds watch es tp =
    (fold (\<lambda>e s. fst (topo_step dds e s)) es tp, watch (fold (\<lambda>e s. fst (topo_step dds e s)) es tp))"
  using assms
proof (induction es arbitrary: tp)
  case Nil
  then show ?case by (cases "watch tp") (simp_all add: await_step)
next
  case (Cons e es)
  have "watch tp = None" using Cons.prems [of 0] by simp
  moreover have "watch (fold (\<lambda>e s. fst (topo_step dds e s)) (take k es) (fst (topo_step dds e tp))) = None"
    if "k < length es" for k
    using Cons.prems [of "Suc k"] that by simp
  ultimately show ?case using Cons.IH [of "fst (topo_step dds e tp)"] by (simp add: await_step)
qed

lemma WaitForPublisherCount_loop_ok:
  assumes "\<And>n tp. topo_step_ok tp (others n tp)"
  shows "topo_step_ok tp (WaitForPublisherCount_loop m n number running others tp)"
  by (induction m arbitrary: n tp) (auto intro: topo_step_ok_trans [OF assms])

lemma WaitForPublisherCount_loop_exit:
  assumes "m > 0" "\<And>k. running k" "\<exists>k \<le> m. tp_publishers (fold others [n..<n + k] tp) = number"
  shows "tp_publishers (WaitForPublisherCount_loop m n number running others tp) = number"
  using assms(1,3)
proof (induction m arbitrary: n tp)
  case (Suc m)
  show ?case
  proof (cases "tp_publishers tp = number")
    case False
    from Suc.prems(2) obtain k where k: "k \<le> Suc m" "tp_publishers (fold others [n..<n + k] tp) = number" by blast
    with False obtain j where j: "k = Suc j" by (cases k) auto
    have "tp_publishers (fold others [Suc n..<Suc n + j] (others n tp)) = number"
      using k(2) by (simp add: j upt_conv_Cons del: upt_Suc)
    moreover have "j \<le> m" using j k(1) by simp
    ultimately have ex: "\<exists>k \<le> m. tp_publishers (fold others [Suc n..<Suc n + k] (others n tp)) = number" by blast
    show ?thesis
    proof (cases m)
      case 0
      then show ?thesis using ex False assms(2) by simp
    next
      case (Suc l)
      then show ?thesis using Suc.IH [OF _ ex] False assms(2) by simp
    qed
  qed (simp)
qed simp

end
