(* ===== verification/Topology_Props.thy ===== *)
theory Topology_Props
  imports Topology_Async
begin

text \<open>
  What the topology guarantees: the invariant in every reachable state, which failures are tolerated, the
  tasks an operation waits for, a whole change of state from the request to its result, and the
  places where the bookkeeping of the operations is looser than one would expect.
\<close>

section \<open>Selecting tasks\<close>

lemma GetTasks_loop_spec:
  "GetTasks_loop tp ts = Inr l \<Longrightarrow>
     l = map (\<lambda>(i, c). \<lparr>fId = i, fCollectionId = c\<rparr>)
           (filter (\<lambda>(i, c). \<not> ds_ignored (tp_device tp (the (map_of (tp_stateIndex tp) i)))) ts) \<and>
     (\<forall>(i, c) \<in> set ts. \<exists>k. tp_at tp i = Inr k)"
proof (induction ts arbitrary: l)
  case (Cons t ts)
  obtain i c where t: "t = (i, c)" by (cases t)
  from Cons.prems obtain k l' where k: "tp_at tp i = Inr k" and l': "GetTasks_loop tp ts = Inr l'"
    and l: "l = (if ds_ignored (tp_device tp k) then l' else \<lparr>fId = i, fCollectionId = c\<rparr> # l')"
    by (auto simp: t bind_exn_def split: sum.splits)
  have "map_of (tp_stateIndex tp) i = Some k" using tp_at_less [OF k] by simp
  with Cons.IH [OF l'] k l show ?case by (simp add: t)
qed simp

lemma GetTasks_in_index:
  assumes "GetTasks dds path tp = Inr tasks" "t \<in> fId ` set tasks"
  shows "\<exists>k. tp_at tp t = Inr k \<and> \<not> ds_ignored (tp_device tp k)"
proof -
  from assms(1) obtain ts where "GetTasks_loop tp ts = Inr tasks"
    by (auto simp: GetTasks_def bind_exn_def split: sum.splits if_splits)
  from GetTasks_loop_spec [OF this] assms(2) obtain i c where
    "t = i" "(i, c) \<in> set ts" "\<not> ds_ignored (tp_device tp (the (map_of (tp_stateIndex tp) i)))"
    "\<exists>k. tp_at tp i = Inr k" by auto
  then show ?thesis using tp_at_less [of tp i] by auto
qed

lemma index_card:
  assumes "topo_wf tp" "distinct ids" "\<And>t. t \<in> set ids \<Longrightarrow> \<exists>k. tp_at tp t = Inr k"
  shows "length ids < 2 ^ 32"
proof -
  let ?f = "\<lambda>t. the (map_of (tp_stateIndex tp) t)"
  have f: "map_of (tp_stateIndex tp) t = Some (?f t) \<and> ?f t < length (tp_stateData tp) \<and>
      ds_taskId (tp_device tp (?f t)) = t" if t: "t \<in> set ids" for t
  proof -
    obtain k where k: "tp_at tp t = Inr k" using assms(3) [OF t] by blast
    have m: "map_of (tp_stateIndex tp) t = Some k" using tp_at_less [OF k] by simp
    have "wf_index (tp_stateIndex tp) (tp_stateData tp)" using assms(1) by (simp add: topo_wf_def)
    from wf_index_nth [OF this m] show ?thesis by (simp add: m)
  qed
  have "inj_on ?f (set ids)" by (rule inj_on_inverseI [of _ "\<lambda>k. ds_taskId (tp_device tp k)"]) (use f in blast)
  moreover have "?f ` set ids \<subseteq> {..<length (tp_stateData tp)}" using f by auto
  ultimately have "card (set ids) \<le> card {..<length (tp_stateData tp)}"
    by (intro card_inj_on_le) auto
  then have "length ids \<le> length (tp_stateData tp)" by (simp add: distinct_card [OF assms(2)])
  moreover have "length (tp_stateData tp) < 2 ^ 32" using assms(1) by (simp add: topo_wf_def)
  ultimately show ?thesis by (rule le_less_trans)
qed

section \<open>A run of state changes\<close>

lemma topo_step_StateChange [simp]:
  "topo_step dds (EvCommands [StateChange c]) tp = (HandleCmd_StateChange dds c tp, None)"
  by (simp add: topo_step_def HandleCmd_def)

lemma HandleCmd_StateChange_healthy:
  assumes "tp_at tp (sc_taskId c) = Inr k" "sc_currentState c \<noteq> Error" "sc_currentState c \<noteq> Exiting"
  shows "HandleCmd_StateChange dds c tp =
    update_ws_ops (sc_taskId c) (sc_lastState c) (sc_currentState c) False
      (update_cs_ops (sc_taskId c) (sc_currentState c) False
        (tp_set_device k ((tp_device tp k)\<lparr>ds_lastState := sc_lastState c, ds_state := sc_currentState c\<rparr>) tp))"
  using assms by (simp add: HandleCmd_StateChange_def Let_def)

text \<open>The events a change-state operation sees while the topology handles the commands.\<close>

fun cs_events :: "dds_topo \<Rightarrow> StateChange list \<Rightarrow> topology \<Rightarrow> cs_event list" where
  "cs_events dds [] tp = []"
| "cs_events dds (c # cs) tp =
     (let tp' = HandleCmd_StateChange dds c tp
      in (tp_stateData tp', sc_taskId c, sc_currentState c, False) # cs_events dds cs tp')"

abbreviation "handle_changes dds cs tp \<equiv> fold (\<lambda>c. HandleCmd_StateChange dds c) cs tp"

definition healthy :: "topology \<Rightarrow> StateChange list \<Rightarrow> bool" where
  "healthy tp cs \<longleftrightarrow> (\<forall>c \<in> set cs. (\<exists>k. tp_at tp (sc_taskId c) = Inr k) \<and>
     sc_currentState c \<noteq> Error \<and> sc_currentState c \<noteq> Exiting)"

lemma HandleCmd_StateChange_at [simp]:
  assumes "tp_at tp (sc_taskId c) = Inr k" "sc_currentState c \<noteq> Error" "sc_currentState c \<noteq> Exiting"
  shows "tp_at (HandleCmd_StateChange dds c tp) t = tp_at tp t"
  by (simp add: HandleCmd_StateChange_healthy [OF assms])
    (simp add: tp_at_def tp_set_device_def update_ws_ops_def update_cs_ops_def split: option.split)

lemma handle_changes_op:
  assumes "healthy tp cs" "map_of (tp_changeStateOps tp) i = Some op"
  shows "map_of (tp_changeStateOps (handle_changes dds cs tp)) i = Some (fold cs_event_update (cs_events dds cs tp) op)"
  using assms
proof (induction cs arbitrary: tp op)
  case (Cons c cs)
  let ?tp = "HandleCmd_StateChange dds c tp"
  from Cons.prems(1) obtain k where c: "tp_at tp (sc_taskId c) = Inr k" "sc_currentState c \<noteq> Error" "sc_currentState c \<noteq> Exiting"
    by (auto simp: healthy_def)
  have h: "healthy ?tp cs" using Cons.prems(1) c by (simp add: healthy_def)
  have "map_of (tp_changeStateOps ?tp) i =
      Some (cs_Update (tp_stateData ?tp) (sc_taskId c) (sc_currentState c) False op)"
    using Cons.prems(2)
    by (simp add: HandleCmd_StateChange_healthy [OF c]) (simp add: update_ws_ops_def update_cs_ops_def tp_set_device_def)
  from Cons.IH [OF h this] show ?case by (simp add: Let_def)
qed simp

lemma handle_changes_state:
  assumes "topo_wf tp" "healthy tp cs" "map_of (tp_stateIndex tp) t = Some k"
    and "\<And>c. c \<in> set cs \<Longrightarrow> sc_currentState c = g"
  shows "ds_state (tp_device (handle_changes dds cs tp) k) =
    (if t \<in> sc_taskId ` set cs then g else ds_state (tp_device tp k)) \<and>
    tp_stateIndex (handle_changes dds cs tp) = tp_stateIndex tp"
  using assms
proof (induction cs arbitrary: tp)
  case (Cons c cs)
  let ?tp = "HandleCmd_StateChange dds c tp"
  from Cons.prems(2) obtain j where c: "tp_at tp (sc_taskId c) = Inr j" "sc_currentState c \<noteq> Error" "sc_currentState c \<noteq> Exiting"
    by (auto simp: healthy_def)
  have h: "healthy ?tp cs" using Cons.prems(2) c by (simp add: healthy_def)
  have wf: "topo_wf ?tp" using HandleCmd_StateChange_ok Cons.prems(1) unfolding topo_step_ok_def by blast
  have j: "j < length (tp_stateData tp)" "map_of (tp_stateIndex tp) (sc_taskId c) = Some j"
    using tp_at_less [OF c(1)] by simp_all
  have inj: "t = sc_taskId c \<longleftrightarrow> k = j"
    using Cons.prems(1,3) j wf_index_nth unfolding topo_wf_def by (metis option.inject)
  have data: "tp_stateData ?tp = (tp_stateData tp)[j := (tp_device tp j)
      \<lparr>ds_lastState := sc_lastState c, ds_state := sc_currentState c\<rparr>]"
    and idx: "tp_stateIndex ?tp = tp_stateIndex tp"
    by (simp_all add: HandleCmd_StateChange_healthy [OF c])
      (simp_all add: tp_set_device_def update_ws_ops_def update_cs_ops_def)
  have st: "ds_state (tp_device ?tp k) = (if t = sc_taskId c then g else ds_state (tp_device tp k))"
    using inj j(1) Cons.prems(4) [of c] by (simp add: data)
  have ix: "map_of (tp_stateIndex ?tp) t = Some k" using Cons.prems(3) idx by simp
  from Cons.IH [OF wf h ix] Cons.prems(4) st idx show ?case by simp
qed simp

lemma cs_events_views:
  assumes "\<And>c. c \<in> set cs \<Longrightarrow> sc_currentState c = g"
  shows "map (cs_view g) (cs_events dds cs tp) = map (\<lambda>c. Reached (sc_taskId c)) cs"
  using assms by (induction cs arbitrary: tp) (simp_all add: Let_def)

lemma cs_events_snoc:
  "cs_events dds (cs @ [c]) tp = cs_events dds cs tp @
     [(tp_stateData (handle_changes dds (cs @ [c]) tp), sc_taskId c, sc_currentState c, False)]"
  by (induction cs arbitrary: tp) (simp_all add: Let_def)

lemma cs_completing_data:
  assumes "op_result (cs_op op) = None" "op_result (cs_op (cs_Update sd t s x op)) = Some (ec, d)"
  shows "d = sd"
  using assms by (auto simp: cs_defs split: if_splits)

lemma verdict_reached [simp]: "verdict e (map Reached ts) = e"
  by (induction ts) simp_all

lemma relevant_reached: "relevant ts (map Reached us) = map Reached (filter (\<lambda>t. t \<in> set ts) us)"
  by (induction us) simp_all

lemma reported_reached: "reported ts (map Reached us) = set us \<inter> set ts"
  unfolding reported_def relevant_reached set_map image_image by auto

text \<open>What the started operation looks like.\<close>

lemma tp_at_cong:
  "tp_stateData a = tp_stateData b \<Longrightarrow> tp_stateIndex a = tp_stateIndex b \<Longrightarrow> tp_at a t = tp_at b t"
  by (simp add: tp_at_def cong: option.case_cong)

lemma GetTasks_loop_cong:
  assumes "tp_stateData a = tp_stateData b" "tp_stateIndex a = tp_stateIndex b"
  shows "GetTasks_loop a ts = GetTasks_loop b ts"
  by (induction ts) (auto simp: tp_at_cong [OF assms] assms(1) split: sum.split)

lemma GetTasks_other [simp]: "GetTasks dds path (tp\<lparr>tp_changeStateOps := ops\<rparr>) = GetTasks dds path tp"
proof -
  have "GetTasks_loop (tp\<lparr>tp_changeStateOps := ops\<rparr>) = GetTasks_loop tp"
    by (rule ext) (rule GetTasks_loop_cong, simp_all)
  then show ?thesis by (simp add: GetTasks_def)
qed

lemma map_of_drop_None: "map_of ops i = None \<Longrightarrow> map_of (drop_completed c ops) i = None"
  unfolding drop_completed_def by (induction ops) (auto split: if_splits)

lemma AsyncChangeState_starts:
  assumes "topo_wf tp" "GetTasks dds path tp = Inr tasks" "map_of (tp_changeStateOps tp) i = None"
    and "cs_new i tr tasks timeout = Inr op"
  shows "\<exists>tp'. AsyncChangeState dds i tr path timeout tp = (tp', None) \<and> topo_wf tp' \<and>
    tp_stateData tp' = tp_stateData tp \<and> tp_stateIndex tp' = tp_stateIndex tp \<and>
    tp_sent tp' = tp_sent tp @ [([ChangeState \<lparr>chs_transition = tr\<rparr>], path)] \<and>
    map_of (tp_changeStateOps tp') i = Some (cs_start (tp_stateIndex tp) (tp_stateData tp) op)"
proof -
  have wf: "wf_index (tp_stateIndex tp) (tp_stateData tp)" using assms(1) by (simp add: topo_wf_def)
  obtain op1 where r: "cs_ResetCount (tp_stateIndex tp) (tp_stateData tp) op = (op1, None)"
    using cs_ResetCount_ok(1) [OF wf] by (metis prod.collapse)
  have n: "map_of (drop_completed cs_IsCompleted (tp_changeStateOps tp)) i = None"
    by (rule map_of_drop_None [OF assms(3)])
  obtain tp' e where a: "AsyncChangeState dds i tr path timeout tp = (tp', e)" by fastforce
  have "topo_wf tp'"
    using AsyncChangeState_ok [of tp dds i tr path timeout] assms(1) by (simp add: topo_step_ok_def a)
  moreover have "e = None \<and> tp_stateData tp' = tp_stateData tp \<and> tp_stateIndex tp' = tp_stateIndex tp \<and>
    tp_sent tp' = tp_sent tp @ [([ChangeState \<lparr>chs_transition = tr\<rparr>], path)] \<and>
    map_of (tp_changeStateOps tp') i = Some (cs_start (tp_stateIndex tp) (tp_stateData tp) op)"
    using a assms(2,4) n r
    by (auto simp: AsyncChangeState_def Let_def tp_send_def cs_start_def update_conv')
  ultimately show ?thesis using a by blast
qed

text \<open>
  An operation started on devices of which none has failed and of which those of the tasks \<open>R\<close> are not
  where they should be: it waits until all of \<open>R\<close> have reported and then has no error.
\<close>

lemma reports_complete:
  assumes "cs_new i tr tasks timeout = Inr op" "cs_targetState op = g" "wf_index idx sd"
    and "distinct (map fId tasks)" "length tasks < 2 ^ 32"
    and P: "settled (cs_reached g) idx sd (map fId tasks) = fId ` set tasks - R"
    and E: "\<not> start_errored (cs_reached g) idx sd (map fId tasks)"
    and R: "R \<subseteq> fId ` set tasks" "set us \<subseteq> R" "distinct us"
    and v: "map (cs_view g) es = map Reached us"
  shows "map_option fst (op_result (cs_op (fold cs_event_update es (cs_start idx sd op)))) =
    (if set us = R then Some None else None)"
proof -
  let ?ids = "map fId tasks"
  have f: "filter (\<lambda>t. t \<in> set ?ids) us = us" using R by (auto simp: filter_id_conv)
  have rep: "reported ?ids (map Reached us) = set us" using R by (auto simp: reported_reached)
  have "once ?ids (settled (cs_reached g) idx sd ?ids) (map (cs_view g) es)"
    unfolding v once_def rep relevant_reached f P using R by (auto simp: comp_def)
  moreover have "run_verdict (cs_reached g) idx sd ?ids (map (cs_view g) es) = (if set us = R then Some None else None)"
    unfolding v run_verdict_def Let_def rep relevant_reached f verdict_reached P
    using E R by (auto simp: verdict_code_def)
  ultimately show ?thesis
    using cs_started_run [of i tr tasks timeout op idx sd es] assms(1-5) by simp
qed

text \<open>The state an operation hands over is the one after the last of the changes.\<close>

lemma cs_run_data:
  assumes "healthy tp cs" "map_of (tp_changeStateOps tp) i = Some op"
    and "cs = [] \<Longrightarrow> op_result (cs_op op) = Some (ec, d) \<Longrightarrow> d = tp_stateData tp"
    and "cs \<noteq> [] \<Longrightarrow> watch_cs i (handle_changes dds (butlast cs) tp) = None"
    and "watch_cs i (handle_changes dds cs tp) = Some (ec, d)"
  shows "d = tp_stateData (handle_changes dds cs tp)"
proof (cases cs rule: rev_cases)
  case Nil
  then show ?thesis using assms(2,3,5) by (simp add: watch_cs_def)
next
  case (snoc cs' c)
  have h: "healthy tp cs'" using assms(1) by (simp add: healthy_def snoc)
  let ?op = "fold cs_event_update (cs_events dds cs' tp) op"
  have "op_result (cs_op ?op) = None"
    using assms(4) handle_changes_op [OF h assms(2)] by (simp add: watch_cs_def snoc)
  moreover have "op_result (cs_op (cs_Update (tp_stateData (handle_changes dds cs tp)) (sc_taskId c) (sc_currentState c) False ?op))
      = Some (ec, d)"
    using assms(5) handle_changes_op [OF assms(1,2)] by (simp add: watch_cs_def snoc cs_events_snoc)
  ultimately show ?thesis by (rule cs_completing_data)
qed

lemma cs_start_data:
  "cs_op op = Pending \<Longrightarrow> op_result (cs_op (cs_start idx sd op)) = Some (ec, d) \<Longrightarrow> wf_index idx sd \<Longrightarrow> d = sd"
  by (auto simp: cs_start_def cs_ResetCount_def cs_ResetCount_loop_spec wf_index_def split_def cs_TryCompletion_def
      cs_Complete_def split: if_splits)

text \<open>Which tasks a request has to wait for, and that none of its devices counts as failed.\<close>

lemma settled_of_request:
  assumes "wf_index (tp_stateIndex tp) (tp_stateData tp)"
    and "\<And>t. t \<in> fId ` set tasks \<Longrightarrow> \<exists>k. tp_at tp t = Inr k"
    and "\<And>t k. t \<in> fId ` set tasks \<Longrightarrow> map_of (tp_stateIndex tp) t = Some k \<Longrightarrow> \<not> device_failed (tp_device tp k)"
  shows "settled (cs_reached g) (tp_stateIndex tp) (tp_stateData tp) (map fId tasks) = fId ` set tasks -
      {t \<in> fId ` set tasks. \<forall>k. map_of (tp_stateIndex tp) t = Some k \<longrightarrow> ds_state (tp_device tp k) \<noteq> g}"
    and "\<not> start_errored (cs_reached g) (tp_stateIndex tp) (tp_stateData tp) (map fId tasks)"
proof -
  show "settled (cs_reached g) (tp_stateIndex tp) (tp_stateData tp) (map fId tasks) = fId ` set tasks -
      {t \<in> fId ` set tasks. \<forall>k. map_of (tp_stateIndex tp) t = Some k \<longrightarrow> ds_state (tp_device tp k) \<noteq> g}"
    using assms(2,3) tp_at_less unfolding settled_def cs_reached_def by fastforce
  show "\<not> start_errored (cs_reached g) (tp_stateIndex tp) (tp_stateData tp) (map fId tasks)"
  proof
    assume "start_errored (cs_reached g) (tp_stateIndex tp) (tp_stateData tp) (map fId tasks)"
    then obtain t k where e: "(t, k) \<in> set (tp_stateIndex tp)" "ds_taskId (tp_device tp k) \<in> fId ` set tasks"
      "device_failed (tp_device tp k)" by (auto simp: start_errored_def)
    then have "map_of (tp_stateIndex tp) t = Some k" using assms(1) by (simp add: wf_index_def distinct_keys_def)
    with wf_index_nth [OF assms(1) this] e assms(3) [of t k] show False by auto
  qed
qed

text \<open>
  A request on devices of which none has failed, while those of its tasks that are not in the target state report it: the
  operation has ended exactly when all of them have.
\<close>

lemma ChangeState_watch:
  assumes wf: "topo_wf tp" and g: "gExpectedState tr = Some g" "g \<noteq> Exiting"
    and tasks: "GetTasks dds path tp = Inr tasks" "distinct (map fId tasks)"
    and new: "map_of (tp_changeStateOps tp) i = None"
    and sound: "\<forall>t \<in> fId ` set tasks. \<forall>k. map_of (tp_stateIndex tp) t = Some k \<longrightarrow> \<not> device_failed (tp_device tp k)"
    and cs: "\<forall>c \<in> set cs. sc_currentState c = g"
      "sc_taskId ` set cs = {t \<in> fId ` set tasks. \<forall>k. map_of (tp_stateIndex tp) t = Some k \<longrightarrow> ds_state (tp_device tp k) \<noteq> g}"
  shows "\<exists>tp1 op. AsyncChangeState dds i tr path timeout tp = (tp1, None) \<and> topo_wf tp1 \<and>
    tp_stateData tp1 = tp_stateData tp \<and> tp_stateIndex tp1 = tp_stateIndex tp \<and>
    map_of (tp_changeStateOps tp1) i = Some op \<and>
    (\<forall>ec d. op_result (cs_op op) = Some (ec, d) \<longrightarrow> d = tp_stateData tp1) \<and>
    (\<forall>cs'. set cs' \<subseteq> set cs \<longrightarrow> healthy tp1 cs') \<and>
    (\<forall>cs'. set cs' \<subseteq> set cs \<longrightarrow> distinct (map sc_taskId cs') \<longrightarrow>
       map_option fst (watch_cs i (handle_changes dds cs' tp1)) =
         (if sc_taskId ` set cs' = sc_taskId ` set cs then Some None else None))"
proof -
  have ok: "\<not> device_failed (tp_device tp k)" if "t \<in> fId ` set tasks" "map_of (tp_stateIndex tp) t = Some k" for t k
    using sound that by blast
  obtain op where op: "cs_new i tr tasks timeout = Inr op" "cs_targetState op = g"
    using g(1) by (simp add: cs_new_def)
  from AsyncChangeState_starts [OF wf tasks(1) new op(1)] obtain tp1 where
    start: "AsyncChangeState dds i tr path timeout tp = (tp1, None)" "topo_wf tp1"
      "tp_stateData tp1 = tp_stateData tp" "tp_stateIndex tp1 = tp_stateIndex tp"
      "map_of (tp_changeStateOps tp1) i = Some (cs_start (tp_stateIndex tp) (tp_stateData tp) op)" by blast
  let ?sd = "tp_stateData tp" and ?idx = "tp_stateIndex tp" and ?R = "sc_taskId ` set cs"
  have idx: "wf_index ?idx ?sd" using wf by (simp add: topo_wf_def)
  have at: "\<exists>k. tp_at tp t = Inr k" if "t \<in> fId ` set tasks" for t
    using GetTasks_in_index [OF tasks(1) that] by blast
  have len: "length tasks < 2 ^ 32" using index_card [OF wf tasks(2)] at by simp
  have P: "settled (cs_reached g) ?idx ?sd (map fId tasks) = fId ` set tasks - ?R"
    unfolding cs(2) by (rule settled_of_request(1) [OF idx at ok])
  have E: "\<not> start_errored (cs_reached g) ?idx ?sd (map fId tasks)"
    by (rule settled_of_request(2) [OF idx at ok])
  have at1: "tp_at tp1 t = tp_at tp t" for t by (rule tp_at_cong [OF start(3,4)])
  have R: "?R \<subseteq> fId ` set tasks" unfolding cs(2) by blast
  have h: "healthy tp1 cs'" if "set cs' \<subseteq> set cs" for cs'
  proof -
    have "\<exists>k. tp_at tp (sc_taskId c) = Inr k" if "c \<in> set cs" for c using R that by (intro at) auto
    then show ?thesis using that cs(1) g(2) gExpectedState_not_Error [OF g(1)] unfolding healthy_def at1 by auto
  qed
  have watch: "map_option fst (watch_cs i (handle_changes dds cs' tp1)) = (if sc_taskId ` set cs' = ?R then Some None else None)"
    if sub: "set cs' \<subseteq> set cs" "distinct (map sc_taskId cs')" for cs'
  proof -
    have v: "map (cs_view g) (cs_events dds cs' tp1) = map Reached (map sc_taskId cs')"
      using cs_events_views [of cs' g dds tp1] cs(1) sub(1) by (auto simp: comp_def)
    have us: "set (map sc_taskId cs') \<subseteq> ?R" using sub(1) by auto
    show ?thesis
      using reports_complete [OF op idx tasks(2) len P E R us sub(2) v]
        handle_changes_op [OF h [OF sub(1)] start(5), of dds]
      by (simp only: watch_cs_def Option.bind.bind_lunit set_map)
  qed
  moreover have "d = tp_stateData tp1" if "op_result (cs_op (cs_start ?idx ?sd op)) = Some (ec, d)" for ec d
  proof -
    have "cs_op op = Pending" using op(1) by (auto simp: cs_new_def split: option.splits)
    then show ?thesis using cs_start_data [OF _ that idx] start(3) by simp
  qed
  ultimately show ?thesis using start h by blast
qed

section \<open>Devices after a failure\<close>

lemma for_devices_nth:
  "j < length sd \<Longrightarrow> \<exists>m. fst (for_devices f sd n) ! j = fst (f (sd ! j) m)"
proof (induction sd arbitrary: n j)
  case (Cons d ds)
  then show ?case by (cases j) (auto simp: split_def Let_def)
qed simp

lemma ignore_collection_device:
  assumes "j < length (tp_stateData tp)"
  shows "tp_device (ignore_collection c tp) j =
    (if ds_collectionId (tp_device tp j) = c then (tp_device tp j)\<lparr>ds_subscribed := False, ds_ignored := True\<rparr>
     else tp_device tp j)"
proof -
  let ?f = "\<lambda>d n. if ds_collectionId d = c then ignore_device d n else (d, n)"
  obtain m where "fst (for_devices ?f (tp_stateData tp) (tp_publishers tp)) ! j = fst (?f (tp_device tp j) m)"
    using for_devices_nth [OF assms] by blast
  then show ?thesis
    by (simp add: ignore_collection_def ignore_device_def unsubscribe_device_def split_def Let_def)
qed

lemma IsExpendable_collection:
  assumes "k < length (tp_stateData tp)" "\<not> ds_ignored (tp_device tp k)" "\<not> ds_expendable (tp_device tp k)"
    and "ds_collectionId (tp_device tp k) \<noteq> 0" "rt_collectionName dds (ds_collectionId (tp_device tp k)) = Inr name"
    and "map_of (tp_collectionInfo tp) name = Some col"
  shows "snd (IsExpendable dds k tp) = Inr (ci_nMin col \<noteq> 0 \<and> ci_nMin col < ci_nCurrent col)"
    and "map_of (tp_collectionInfo (fst (IsExpendable dds k tp))) name = Some (col\<lparr>ci_nCurrent := ci_nCurrent col - 1\<rparr>)"
    and "\<not> (ci_nMin col \<noteq> 0 \<and> ci_nMin col < ci_nCurrent col) \<Longrightarrow>
      tp_stateData (fst (IsExpendable dds k tp)) = tp_stateData tp"
  using assms by (auto simp: IsExpendable_def Let_def ignore_collection_def split_def)

section \<open>Properties\<close>

text \<open>
  C10: every reachable topology is consistent: the index is a bijection between tasks and positions, the
  publisher count is the number of subscribed devices, and no operation id occurs twice; DDS lists
  every runtime task once and fewer than 2^32 of them.
\<close>

theorem topo_reachable_wf:
  assumes "topo_reachable dds tp" "distinct (map fst (rt_tasks dds))" "length (rt_tasks dds) < 2 ^ 32"
  shows "topo_wf tp"
  using assms(1)
proof induction
  case (init X ci)
  show ?case by (rule tp_new_wf [OF assms(2,3)])
next
  case (step tp ev)
  from topo.step_inv [OF step.IH] show ?case .
qed

text \<open>
  No sequence of steps changes the task, the collection or the expendability of a device, moves it to
  another position, or takes back that it is ignored.
\<close>

theorem topo_run_evolves:
  assumes "topo_wf tp"
  shows "tp_stateIndex (fold (\<lambda>ev tp. fst (topo_step dds ev tp)) evs tp) = tp_stateIndex tp \<and>
    list_all2 dev_evolves (tp_stateData tp) (tp_stateData (fold (\<lambda>ev tp. fst (topo_step dds ev tp)) evs tp))"
  using topo.run_later [OF assms] by (simp add: evolves_def)

text \<open>
  \<^verbatim>\<open>GetTasks\<close> returns the tasks of the path in their order without the ignored ones, and only tasks the
  topology knows.
\<close>

theorem GetTasks_spec:
  assumes "GetTasks dds path tp = Inr tasks"
  shows "\<exists>ts. (if path = [] then Inr (rt_tasks dds) else rt_matching dds path) = Inr ts \<and>
    map fId tasks = filter (\<lambda>i. \<not> ds_ignored (tp_device tp (the (map_of (tp_stateIndex tp) i)))) (map fst ts) \<and>
    (\<forall>i \<in> set (map fst ts). \<exists>k. tp_at tp i = Inr k)"
proof -
  obtain ts where ts: "(if path = [] then Inr (rt_tasks dds) else rt_matching dds path) = Inr ts"
    and l: "GetTasks_loop tp ts = Inr tasks"
    using assms by (auto simp: GetTasks_def bind_exn_def split: sum.splits if_splits)
  from GetTasks_loop_spec [OF l] have
    "map fId tasks = filter (\<lambda>i. \<not> ds_ignored (tp_device tp (the (map_of (tp_stateIndex tp) i)))) (map fst ts)"
    "\<forall>i \<in> set (map fst ts). \<exists>k. tp_at tp i = Inr k"
    by (auto simp: filter_map comp_def split_def)
  with ts show ?thesis by blast
qed


text \<open>The run is evaluated on two fresh tasks that change state one after the other.\<close>

definition sample_dds :: dds_topo where
  "sample_dds = \<lparr>rt_tasks = [(1, 0), (2, 0)], rt_matching = (\<lambda>_. Inr [(1, 0), (2, 0)]),
     rt_collectionName = (\<lambda>_. Inl (RuntimeError ''unknown collection''))\<rparr>"

definition sample_change :: "task_id \<Rightarrow> StateChange" where
  "sample_change t = \<lparr>sc_deviceId = ''d'', sc_taskId = t, sc_lastState = Idle, sc_currentState = InitializingDevice\<rparr>"

lemma sample_tp:
  "tp_stateData (tp_new sample_dds {} []) = [new_DeviceStatus False 1 0, new_DeviceStatus False 2 0]"
  "tp_stateIndex (tp_new sample_dds {} []) = [(1, 0), (2, 1)]"
  "tp_changeStateOps (tp_new sample_dds {} []) = []"
  by (simp_all add: tp_new_def sample_dds_def SubscribeToStateChanges_def tp_send_def umap_emplace_def)

lemma sample_tasks:
  "GetTasks sample_dds '''' (tp_new sample_dds {} []) = Inr [\<lparr>fId = 1, fCollectionId = 0\<rparr>, \<lparr>fId = 2, fCollectionId = 0\<rparr>]"
proof -
  have "rt_tasks sample_dds = [(1, 0), (2, 0)]" by (simp add: sample_dds_def)
  then show ?thesis by (simp add: GetTasks_def tp_at_def sample_tp new_DeviceStatus_def)
qed



text \<open>
  A failure of one collection that is not tolerated is counted once per failing device, not once per
  collection: two devices of the same collection take two off its current number.
\<close>

theorem collection_failure_counted_per_device:
  assumes "j < length (tp_stateData tp)" "k < length (tp_stateData tp)"
    and "\<forall>i \<in> {j, k}. \<not> ds_ignored (tp_device tp i) \<and> \<not> ds_expendable (tp_device tp i) \<and>
      ds_collectionId (tp_device tp i) = c"
    and "c \<noteq> 0" "rt_collectionName dds c = Inr name" "map_of (tp_collectionInfo tp) name = Some col"
    and "ci_nMin col = 0 \<or> ci_nCurrent col \<le> ci_nMin col"
  shows "map_of (tp_collectionInfo (fst (IsExpendable dds k (fst (IsExpendable dds j tp))))) name =
    Some (col\<lparr>ci_nCurrent := ci_nCurrent col - 2\<rparr>)"
proof -
  let ?tp = "fst (IsExpendable dds j tp)"
  have j: "map_of (tp_collectionInfo ?tp) name = Some (col\<lparr>ci_nCurrent := ci_nCurrent col - 1\<rparr>)"
    "tp_stateData ?tp = tp_stateData tp"
    using IsExpendable_collection(2,3) [of j tp dds name col] assms by auto
  show ?thesis
    using IsExpendable_collection(2) [OF _ _ _ _ _ j(1), of k dds] j(2) assms by simp
qed

text \<open>
  The destructor cancels the pending change-state operations only up to the first one that has
  completed: that one and all behind it in the container stay as they are.
\<close>

theorem destructor_stops_at_completed:
  assumes "\<forall>(i, op) \<in> set pre. \<not> cs_IsCompleted op" and "cs_IsCompleted op"
  shows "cancel_ops sd (pre @ (i, op) # post) =
    map_vals (\<lambda>op. op\<lparr>cs_timer := False, cs_op := Completed (MakeErrorCode OperationCanceled) sd\<rparr>) pre
      @ (i, op\<lparr>cs_timer := False\<rparr>) # post"
  using assms(1)
proof (induction pre)
  case Nil
  then show ?case using assms(2) by (cases "cs_op op") (auto simp: cs_IsCompleted_def cs_Complete_def map_vals_def)
next
  case (Cons p pre)
  obtain j o1 where p: "p = (j, o1)" by (cases p)
  have "cs_op o1 = Pending" using Cons.prems by (cases "cs_op o1") (auto simp: p cs_IsCompleted_def)
  with Cons p show ?case by (simp add: cs_Complete_def map_vals_def)
qed

text \<open>
  Starting a set-properties operation removes no set-properties operation, completed or not, while
  starting a change-state operation removes the completed ones.
\<close>

theorem completed_operations_kept:
  assumes "j \<noteq> i" and "distinct_keys (tp_changeStateOps tp)"
  shows "map_of (tp_setPropertiesOps (fst (AsyncSetProperties dds i props path timeout tp))) j =
      map_of (tp_setPropertiesOps tp) j \<and>
    map_of (tp_changeStateOps (fst (AsyncChangeState dds i tr path timeout tp))) j =
      (case map_of (tp_changeStateOps tp) j of
         Some op \<Rightarrow> if cs_IsCompleted op then None else Some op | None \<Rightarrow> None)"
proof -
  have drop: "map_of (drop_completed cs_IsCompleted m) j =
      (case map_of m j of Some op \<Rightarrow> if cs_IsCompleted op then None else Some op | None \<Rightarrow> None)"
    if "distinct_keys m" for m :: "(u64 \<times> change_state_op) list"
    using that
  proof (induction m)
    case (Cons e m)
    have n: "map_of m (fst e) = None" using Cons.prems by (simp add: distinct_keys_def map_of_eq_None_iff)
    have d: "distinct_keys m" using Cons.prems by (simp add: distinct_keys_def)
    show ?case using Cons.IH [OF d] n by (cases e) (auto simp: drop_completed_def)
  qed (simp add: drop_completed_def)
  show ?thesis
    using assms(1) drop [OF assms(2)]
    by (simp add: AsyncSetProperties_def AsyncChangeState_def Let_def tp_send_def update_conv' split_def split: sum.split)
qed

text \<open>
  C29: a device that reports a failed transition ends exactly the pending operations that wait for it
  and whose target it is not in, with the code for an invalid transition.
\<close>

theorem TransitionStatus_cancels:
  assumes "ts_result cmd = Result_Failure" "tp_at tp (ts_taskId cmd) = Inr k"
  shows "snd (HandleCmd_TransitionStatus cmd tp) = None \<and>
    map_of (tp_changeStateOps (fst (HandleCmd_TransitionStatus cmd tp))) i =
      map_option (\<lambda>op. if \<not> cs_IsCompleted op \<and> cs_ContainsTask (ts_taskId cmd) op \<and>
            ds_state (tp_device tp k) \<noteq> cs_targetState op
          then op\<lparr>cs_timer := False, cs_op := Completed (MakeErrorCode DeviceChangeStateInvalidTransition) (tp_stateData tp)\<rparr>
          else op) (map_of (tp_changeStateOps tp) i)"
proof -
  have "TransitionStatus_loop (ts_taskId cmd) tp ops =
    (map_vals (\<lambda>op. if \<not> cs_IsCompleted op \<and> cs_ContainsTask (ts_taskId cmd) op \<and> ds_state (tp_device tp k) \<noteq> cs_targetState op
          then op\<lparr>cs_timer := False, cs_op := Completed (MakeErrorCode DeviceChangeStateInvalidTransition) (tp_stateData tp)\<rparr>
          else op) ops, None)" for ops
  proof (induction ops)
    case (Cons e ops)
    obtain i op where "e = (i, op)" by (cases e)
    with Cons assms(2) show ?case
      by (cases "cs_op op") (auto simp: map_vals_def cs_IsCompleted_def cs_Complete_def)
  qed (simp add: map_vals_def)
  then show ?thesis using assms(1) by (simp add: HandleCmd_TransitionStatus_def)
qed

text \<open>
  The poll for a publisher count ends with the count reached when, in a running session, it is
  reached at the end of any of the 600 intervals.
\<close>

theorem WaitForPublisherCount_reaches:
  assumes "\<And>n. running n" and "k \<le> 600" and "tp_publishers (fold others [0..<k] tp) = number"
  shows "tp_publishers (WaitForPublisherCount number running others tp) = number"
  unfolding WaitForPublisherCount_def
  by (rule WaitForPublisherCount_loop_exit) (use assms in auto)

section \<open>Concrete topologies\<close>

lemma sample_wf_tp: "topo_wf (tp_new sample_dds {} [])"
  by (rule tp_new_wf) (simp_all add: sample_dds_def)

theorem topo_reachable_wf_witness:
  "topo_wf (fst (topo_step sample_dds (EvTaskDone 1 0 9) (tp_new sample_dds {} [])))"
  by (rule topo_reachable_wf [OF topo_reachable.step [OF topo_reachable.init]]) (simp_all add: sample_dds_def)

theorem topo_run_evolves_witness:
  "tp_stateIndex (fold (\<lambda>ev tp. fst (topo_step sample_dds ev tp)) [EvTaskDone 1 0 9, EvIgnoreTask 2]
     (tp_new sample_dds {} [])) = [(1, 0), (2, 1)]"
  using topo_run_evolves [OF sample_wf_tp, of sample_dds "[EvTaskDone 1 0 9, EvIgnoreTask 2]"]
  by (simp add: sample_tp)

theorem GetTasks_spec_witness:
  "\<exists>ts. rt_tasks sample_dds = ts \<and> filter (\<lambda>i. \<not> ds_ignored (tp_device (tp_new sample_dds {} [])
      (the (map_of (tp_stateIndex (tp_new sample_dds {} [])) i)))) (map fst ts) = [1, 2]"
  using GetTasks_spec [OF sample_tasks] by auto

text \<open>A collection with two devices, of which one is a collection of its own kind.\<close>

definition sample_col :: "int \<Rightarrow> int \<Rightarrow> CollectionInfo" where
  "sample_col nCurrent nMin = \<lparr>ci_name = ''c'', ci_zone = '''', ci_agentGroup = ''g'', ci_topoParent = '''',
     ci_topoPath = '''', ci_nOriginal = 3, ci_nCurrent = nCurrent, ci_nMin = nMin, ci_nCores = 0,
     ci_numTasks = 2, ci_totalTasks = 6\<rparr>"

definition sample_cdds :: dds_topo where
  "sample_cdds = \<lparr>rt_tasks = [(1, 7), (2, 7)], rt_matching = (\<lambda>_. Inr []), rt_collectionName = (\<lambda>_. Inr ''c'')\<rparr>"

lemma sample_ctp:
  "tp_stateData (tp_new sample_cdds {} ci) = [new_DeviceStatus False 1 7, new_DeviceStatus False 2 7]"
  "tp_collectionInfo (tp_new sample_cdds {} ci) = ci"
  by (simp_all add: tp_new_def sample_cdds_def SubscribeToStateChanges_def tp_send_def)


theorem collection_failure_counted_per_device_witness:
  "map_of (tp_collectionInfo (fst (IsExpendable sample_cdds 1 (fst (IsExpendable sample_cdds 0
     (tp_new sample_cdds {} [(''c'', sample_col 3 3)])))))) ''c'' = Some (sample_col 1 3)"
  using collection_failure_counted_per_device [of 0 "tp_new sample_cdds {} [(''c'', sample_col 3 3)]" 1 7 sample_cdds "''c''" "sample_col 3 3"]
  by (simp add: sample_ctp new_DeviceStatus_def sample_col_def) (simp add: sample_cdds_def)

theorem destructor_stops_at_completed_witness:
  "cancel_ops [] [(1, sample_op), (2, sample_op\<lparr>cs_op := Completed None []\<rparr>), (3, sample_op)] =
    [(1, sample_op\<lparr>cs_timer := False, cs_op := Completed (MakeErrorCode OperationCanceled) []\<rparr>),
     (2, sample_op\<lparr>cs_timer := False, cs_op := Completed None []\<rparr>), (3, sample_op)]"
  using destructor_stops_at_completed [of "[(1, sample_op)]" "sample_op\<lparr>cs_op := Completed None []\<rparr>" "[]" 2 "[(3, sample_op)]"]
  by (simp add: cs_IsCompleted_def sample_op_def map_vals_def)

theorem completed_operations_kept_witness:
  "map_of (tp_setPropertiesOps (fst (AsyncSetProperties sample_dds 4 [] '''' 0
      ((tp_new sample_dds {} [])\<lparr>tp_setPropertiesOps := [(3, (spo_new 3 [] 0)\<lparr>spo_op := Completed None {}\<rparr>)]\<rparr>)))) 3
    = Some ((spo_new 3 [] 0)\<lparr>spo_op := Completed None {}\<rparr>)"
  using completed_operations_kept [of 3 4 "(tp_new sample_dds {} [])
      \<lparr>tp_setPropertiesOps := [(3, (spo_new 3 [] 0)\<lparr>spo_op := Completed None {}\<rparr>)]\<rparr>" sample_dds "[]" "''''" 0]
  by (simp add: sample_tp)

theorem TransitionStatus_cancels_witness:
  "map_of (tp_changeStateOps (fst (HandleCmd_TransitionStatus
      \<lparr>ts_deviceId = ''d'', ts_taskId = 1, ts_result = Result_Failure, ts_transition = Run, ts_currentState = Idle\<rparr>
      ((tp_new sample_dds {} [])\<lparr>tp_changeStateOps := [(9, sample_op)]\<rparr>)))) 9 =
    Some (sample_op\<lparr>cs_timer := False, cs_op := Completed (MakeErrorCode DeviceChangeStateInvalidTransition)
      (tp_stateData (tp_new sample_dds {} []))\<rparr>)"
proof -
  let ?tp = "(tp_new sample_dds {} [])\<lparr>tp_changeStateOps := [(9, sample_op)]\<rparr>"
  let ?cmd = "\<lparr>ts_deviceId = ''d'', ts_taskId = 1, ts_result = Result_Failure, ts_transition = Run, ts_currentState = Idle\<rparr>"
  have at: "tp_at ?tp (ts_taskId ?cmd) = Inr 0" by (simp add: tp_at_def sample_tp)
  have c: "cs_ContainsTask 1 sample_op" "cs_targetState sample_op = Running" "\<not> cs_IsCompleted sample_op"
    by (simp_all add: sample_op_def Change_State_Op.sample_tasks_def cs_ContainsTask_def cs_IsCompleted_def)
  show ?thesis
    using TransitionStatus_cancels [OF _ at, of 9] c
    by (simp add: sample_tp new_DeviceStatus_def)
qed

theorem WaitForPublisherCount_reaches_witness:
  "tp_publishers (WaitForPublisherCount 2 (\<lambda>_. True) (\<lambda>_ tp. tp\<lparr>tp_publishers := tp_publishers tp + 1\<rparr>)
     (tp_new sample_dds {} [])) = 2"
proof (rule WaitForPublisherCount_reaches [where k = 2])
  show "tp_publishers (fold (\<lambda>_ tp. tp\<lparr>tp_publishers := tp_publishers tp + 1\<rparr>) [0..<2] (tp_new sample_dds {} [])) = 2"
    by (simp add: upt_rec tp_new_def sample_dds_def SubscribeToStateChanges_def tp_send_def)
qed simp_all

end
