(* ===== verification/Misc_Utils.thy ===== *)
theory Misc_Utils
  imports ODC_Prelude
begin

text \<open>
  \<^verbatim>\<open>src/odc/MiscUtils.h\<close> and the string functions of the C++ library and of Boost the sources share:
  \<^verbatim>\<open>stoi\<close>, \<^verbatim>\<open>stoll\<close>, \<^verbatim>\<open>split\<close>, \<^verbatim>\<open>join\<close>, \<^verbatim>\<open>find\<close>. The password file, the environment variables and
  \<^verbatim>\<open>realpath\<close> are parameters of \<open>smart_path\<close>. A loop that may not end is a partial function
  into an option: \<open>None\<close> is the call that does not return.
\<close>

section \<open>Numbers\<close>

definition is_space :: "char \<Rightarrow> bool" where
  "is_space c \<longleftrightarrow> c \<in> {CHR 0x20, CHR 0x09, CHR 0x0A, CHR 0x0B, CHR 0x0C, CHR 0x0D}"

definition is_digit :: "char \<Rightarrow> bool" where
  "is_digit c \<longleftrightarrow> 48 \<le> (of_char c :: nat) \<and> (of_char c :: nat) \<le> 57"

definition digits_value :: "string \<Rightarrow> int" where
  "digits_value ds = fold (\<lambda>c v. 10 * v + (of_char c - 48)) ds 0"

text \<open>The common part of \<^verbatim>\<open>stoi\<close> and \<^verbatim>\<open>stoll\<close>: leading blanks, a sign, the longest run of digits.\<close>

definition parse_decimal :: "string \<Rightarrow> int option" where
  "parse_decimal s =
     (let s1 = dropWhile is_space s;
          (neg, s2) = (case s1 of [] \<Rightarrow> (False, s1)
             | c # cs \<Rightarrow> if c = CHR 0x2D then (True, cs) else if c = CHR 0x2B then (False, cs) else (False, s1));
          ds = takeWhile is_digit s2
      in if ds = [] then None else Some (if neg then - digits_value ds else digits_value ds))"

definition parse_bounded :: "string \<Rightarrow> nat \<Rightarrow> string \<Rightarrow> exn + int" where
  "parse_bounded name bits s =
     (case parse_decimal s of
        None \<Rightarrow> Inl (InvalidArgument name)
      | Some v \<Rightarrow> if - (2 ^ (bits - 1)) \<le> v \<and> v < 2 ^ (bits - 1) then Inr v else Inl (OutOfRange name))"

definition stoi :: "string \<Rightarrow> exn + int" where
  "stoi s = parse_bounded ''stoi'' 32 s"

definition stoll :: "string \<Rightarrow> exn + int" where
  "stoll s = parse_bounded ''stoll'' 64 s"

text \<open>The conversion of a 64-bit value to \<^verbatim>\<open>int32_t\<close>.\<close>

definition to_int32 :: "int \<Rightarrow> int" where
  "to_int32 v = (v + 2 ^ 31) mod 2 ^ 32 - 2 ^ 31"

section \<open>Splitting and searching\<close>

text \<open>\<^verbatim>\<open>strStartsWith\<close>.\<close>

definition strStartsWith :: "string \<Rightarrow> string \<Rightarrow> bool" where
  "strStartsWith str start = (if length str \<ge> length start then take (length start) str = start else False)"

text \<open>\<^verbatim>\<open>split\<close> at every delimiter: one more piece than there are delimiters.\<close>

fun split_at :: "char \<Rightarrow> string \<Rightarrow> string list" where
  "split_at d [] = [[]]"
| "split_at d (x # xs) =
     (if x = d then [] # split_at d xs
      else (case split_at d xs of [] \<Rightarrow> [[x]] | w # ws \<Rightarrow> (x # w) # ws))"

fun join_with :: "string \<Rightarrow> string list \<Rightarrow> string" where
  "join_with sep [] = []"
| "join_with sep [w] = w"
| "join_with sep (w # ws) = w @ sep @ join_with sep ws"

text \<open>\<^verbatim>\<open>s.find(what, pos)\<close>; \<open>None\<close> is \<^verbatim>\<open>npos\<close>.\<close>

fun find_sub :: "string \<Rightarrow> string \<Rightarrow> nat option" where
  "find_sub pat [] = (if pat = [] then Some 0 else None)"
| "find_sub pat (c # cs) =
     (if take (length pat) (c # cs) = pat then Some 0 else map_option Suc (find_sub pat cs))"

definition str_find :: "string \<Rightarrow> string \<Rightarrow> nat \<Rightarrow> nat option" where
  "str_find pat s pos = (if pos \<le> length s then map_option ((+) pos) (find_sub pat (drop pos s)) else None)"

text \<open>The text before and after the first delimiter; without one, \<^verbatim>\<open>substr(npos + 1)\<close> is everything.\<close>

definition split_first :: "char \<Rightarrow> string \<Rightarrow> string \<times> string" where
  "split_first d s = (takeWhile (\<lambda>c. c \<noteq> d) s, if d \<in> set s then tl (dropWhile (\<lambda>c. c \<noteq> d) s) else s)"

section \<open>Paths\<close>

partial_function (option) replace_from :: "string \<Rightarrow> string \<Rightarrow> string \<Rightarrow> nat \<Rightarrow> string option" where
  "replace_from pat repl s pos =
     (case str_find pat s pos of
        None \<Rightarrow> Some s
      | Some p \<Rightarrow> replace_from pat repl (take p s @ repl @ drop (p + length pat) s)
          (if length repl > length pat then p + (length repl - length pat + 1) else p))"

definition replace_all :: "string \<Rightarrow> string \<Rightarrow> string \<Rightarrow> string option" where
  "replace_all pat repl s = replace_from pat repl s 0"

definition smart_append :: "char \<Rightarrow> string \<Rightarrow> string" where
  "smart_append c s = (if s = [] \<or> last s \<noteq> c then s @ [c] else s)"

definition trim_left :: "char \<Rightarrow> string \<Rightarrow> string" where
  "trim_left c s = dropWhile (\<lambda>x. x = c) s"

record path_env =
  pe_homedir :: "string \<Rightarrow> string"
  pe_realpath :: "string \<Rightarrow> string option"
  pe_getenv :: "string \<Rightarrow> string option"

text \<open>
  The expansion of a leading tilde. For \<^verbatim>\<open>~/\<close> the source erases a range of iterators of one string from
  another, which has no defined result: \<open>None\<close>. A path that is blank except for spaces is read at index 0,
  the terminating null character.
\<close>

definition expand_tilde :: "path_env \<Rightarrow> string \<Rightarrow> string option" where
  "expand_tilde env p =
     (case trim_left (CHR '' '') p of
        [] \<Rightarrow> Some p
      | c # _ \<Rightarrow>
          if c \<noteq> CHR ''~'' then Some p
          else if length p > 1 \<and> p ! 1 = CHR ''/'' then None
          else (case str_find ''/'' p 0 of
                  None \<Rightarrow> Some p
                | Some i \<Rightarrow> Some (pe_homedir env (take (i - 1) (drop 1 p)) @ drop i p)))"

definition canonical_path :: "path_env \<Rightarrow> string \<Rightarrow> string" where
  "canonical_path env p =
     (case pe_realpath env p of
        None \<Rightarrow> p
      | Some r \<Rightarrow> if last p = CHR ''/'' then smart_append (CHR ''/'') r else r)"

definition env_name :: "string \<Rightarrow> nat \<Rightarrow> string" where
  "env_name p i =
     (let b = i + 1; e = (case str_find ''/'' p b of None \<Rightarrow> length p | Some e \<Rightarrow> e) in take (e - b) (drop b p))"

partial_function (option) smart_path :: "path_env \<Rightarrow> string \<Rightarrow> string option" where
  "smart_path env path =
     (if path = [] then Some path
      else case expand_tilde env path of
        None \<Rightarrow> None
      | Some p \<Rightarrow>
         (case str_find ''$'' p 0 of
            None \<Rightarrow> Some (canonical_path env p)
          | Some i \<Rightarrow>
             (case pe_getenv env (env_name p i) of
                None \<Rightarrow> Some p
              | Some v \<Rightarrow>
                  if v = [] then Some p
                  else (case replace_all (''$'' @ env_name p i) v p of
                          None \<Rightarrow> None
                        | Some p1 \<Rightarrow> smart_path env p1))))"

section \<open>Facts\<close>

lemma length_split_at [simp]: "length (split_at d s) = Suc (length (filter (\<lambda>c. c = d) s))"
  by (induction s) (auto split: list.split)

lemma split_at_join: "join_with [d] (split_at d s) = s"
proof (induction s)
  case (Cons c s)
  obtain w ws where w: "split_at d s = w # ws" by (cases "split_at d s") (metis length_split_at list.size(3) nat.distinct(1), simp)
  show ?case using Cons by (cases ws) (auto simp: w)
qed simp

lemma split_at_none: "d \<notin> set w \<Longrightarrow> split_at d w = [w]"
  by (induction w) auto

lemma split_at_append: "d \<notin> set w \<Longrightarrow> split_at d (w @ d # s) = w # split_at d s"
  by (induction w) auto

lemma split_at_join_with:
  "ws \<noteq> [] \<Longrightarrow> \<forall>w \<in> set ws. d \<notin> set w \<Longrightarrow> split_at d (join_with [d] ws) = ws"
proof (induction ws rule: induct_list012)
  case (3 w v ws)
  then show ?case by (simp add: split_at_append)
qed (simp_all add: split_at_none)

lemma find_sub_Some: "find_sub pat s = Some p \<Longrightarrow> p + length pat \<le> length s \<and> take (length pat) (drop p s) = pat"
  by (induction s arbitrary: p) (auto split: if_splits dest: arg_cong [of "take _ _" _ length])

lemma str_find_Some:
  "str_find pat s pos = Some p \<Longrightarrow> pos \<le> p \<and> p + length pat \<le> length s \<and> take (length pat) (drop p s) = pat"
  using find_sub_Some [of pat "drop pos s"] by (auto simp: str_find_def add.commute split: if_splits)

lemma find_sub_0: "take (length pat) s = pat \<Longrightarrow> find_sub pat s = Some 0"
  by (cases s) auto

lemma replace_same:
  "str_find pat s pos = Some p \<Longrightarrow> take p s @ pat @ drop (p + length pat) s = s"
  using str_find_Some [of pat s pos p] by (metis append_take_drop_id drop_drop add.commute)

lemma replace_from_unequal: "length pat \<noteq> length repl \<Longrightarrow> \<exists>r. replace_from pat repl s pos = Some r"
proof (induction "if length repl > length pat then Suc (length s) - pos else length s" arbitrary: s pos rule: less_induct)
  case less
  show ?case
  proof (cases "str_find pat s pos")
    case None
    then show ?thesis by (simp add: replace_from.simps)
  next
    case (Some p)
    let ?s = "take p s @ repl @ drop (p + length pat) s"
    from str_find_Some [OF Some] have p: "pos \<le> p" "p + length pat \<le> length s" by simp_all
    have l: "length ?s + length pat = length s + length repl" using p by simp
    let ?pos = "if length repl > length pat then p + (length repl - length pat + 1) else p"
    have "\<exists>r. replace_from pat repl ?s ?pos = Some r"
      by (rule less(1)) (use p l less(2) in \<open>auto simp: less_diff_conv\<close>)
    then show ?thesis using Some by (simp add: replace_from.simps [of _ _ s])
  qed
qed

text \<open>With a different text of the same length, nothing is found again at the place of a replacement.\<close>

lemma replace_from_equal:
  "length pat = length repl \<Longrightarrow> pat \<noteq> repl \<Longrightarrow> \<exists>r. replace_from pat repl s pos = Some r"
proof (induction "2 * (Suc (length s) - pos) + (if take (length pat) (drop pos s) = pat then 1 else 0 :: nat)"
    arbitrary: s pos rule: less_induct)
  case less
  show ?case
  proof (cases "str_find pat s pos")
    case None
    then show ?thesis by (simp add: replace_from.simps)
  next
    case (Some p)
    let ?s = "take p s @ repl @ drop (p + length pat) s"
    from str_find_Some [OF Some] have p: "pos \<le> p" "p + length pat \<le> length s" "take (length pat) (drop p s) = pat" by simp_all
    have l: "length ?s = length s" using p less(2) by simp
    have "take (length pat) (drop p ?s) = repl" using p(2) less(2) by simp
    then have no: "take (length pat) (drop p ?s) \<noteq> pat" using less(3) by simp
    have "2 * (Suc (length s) - p) < 2 * (Suc (length s) - pos) + (if take (length pat) (drop pos s) = pat then 1 else 0 :: nat)"
      using p by (cases "p = pos") auto
    then have "\<exists>r. replace_from pat repl ?s p = Some r"
      using less(1) [of ?s p] less(2,3) no l by simp
    then show ?thesis using Some less(2) by (simp add: replace_from.simps [of _ _ s])
  qed
qed

lemma replace_from_same:
  assumes "str_find pat s pos \<noteq> None"
  shows "replace_from pat pat s pos = None"
proof -
  have never: "\<not> (a = b \<and> (\<exists>p. str_find a t pos = Some p))" if "replace_from a b t pos = Some y" for a b t pos y
  proof (rule replace_from.raw_induct [where P = "\<lambda>a b t pos y. \<not> (a = b \<and> (\<exists>p. str_find a t pos = Some p))", OF _ that])
    fix f and a b t :: string and pos and y
    assume ih: "\<And>a b t pos y. f a b t pos = Some y \<Longrightarrow> \<not> (a = b \<and> (\<exists>p. str_find a t pos = Some p))"
      and f: "(case str_find a t pos of None \<Rightarrow> Some t
        | Some p \<Rightarrow> f a b (take p t @ b @ drop (p + length a) t)
            (if length a < length b then p + (length b - length a + 1) else p)) = Some y"
    show "\<not> (a = b \<and> (\<exists>p. str_find a t pos = Some p))"
    proof
      assume "a = b \<and> (\<exists>p. str_find a t pos = Some p)"
      then obtain p where p: "str_find a t pos = Some p" and ab: "a = b" by blast
      have "f a a t p = Some y" using f p replace_same [OF p] by (simp add: ab)
      moreover have "str_find a t p = Some p"
        using find_sub_0 str_find_Some [OF p] by (simp add: str_find_def)
      ultimately show False using ih by blast
    qed
  qed
  then show ?thesis using assms never [of pat pat s pos] by (cases "replace_from pat pat s pos") auto
qed

text \<open>A number that was printed is read back.\<close>

lemma of_char_digit_char [simp]: "d < 10 \<Longrightarrow> (of_char (digit_char d) :: int) = 48 + int d"
proof -
  assume d: "d < 10"
  have "(of_char (digit_char d) :: nat) = 48 + d" using d by (simp add: digit_char_def)
  then have "int (of_char (digit_char d)) = 48 + int d" by simp
  then show ?thesis by (simp only: of_nat_of_char)
qed

lemma is_digit_digit_char [simp]: "d < 10 \<Longrightarrow> is_digit (digit_char d)"
  by (simp add: is_digit_def digit_char_def of_char_of)

lemma digits_value_snoc [simp]: "digits_value (xs @ [c]) = 10 * digits_value xs + (of_char c - 48)"
  by (simp add: digits_value_def)

lemma digits_value_string_of_nat [simp]: "digits_value (string_of_nat n) = int n"
proof (induction n rule: string_of_nat.induct)
  case (1 n)
  show ?case
  proof (cases "n < 10")
    case True
    then show ?thesis by (simp add: string_of_nat.simps [of n] digits_value_def)
  next
    case False
    then have "digits_value (string_of_nat n) = 10 * int (n div 10) + int (n mod 10)"
      by (simp add: string_of_nat.simps [of n] 1)
    moreover have "10 * int (n div 10) + int (n mod 10) = int n" by (simp flip: of_nat_mult of_nat_add add: zdiv_int zmod_int)
    ultimately show ?thesis by simp
  qed
qed

lemma string_of_nat_digits: "string_of_nat n \<noteq> [] \<and> (\<forall>c \<in> set (string_of_nat n). is_digit c)"
proof (induction n rule: string_of_nat.induct)
  case (1 n)
  then show ?case by (subst (1 2) string_of_nat.simps) auto
qed

lemma digit_not_space: "is_digit c \<Longrightarrow> \<not> is_space c \<and> c \<noteq> CHR 0x2D \<and> c \<noteq> CHR 0x2B"
  by (auto simp: is_digit_def is_space_def)

lemma parse_decimal_string_of_nat [simp]: "parse_decimal (string_of_nat n) = Some (int n)"
proof -
  obtain c cs where s: "string_of_nat n = c # cs" and d: "\<forall>x \<in> set (c # cs). is_digit x"
    using string_of_nat_digits [of n] by (cases "string_of_nat n") auto
  have tw: "takeWhile is_digit (c # cs) = c # cs" using d takeWhile_eq_all_conv by blast
  have "digits_value (c # cs) = int n" using digits_value_string_of_nat [of n] s by simp
  then show ?thesis using digit_not_space [of c] d by (simp add: parse_decimal_def s tw Let_def del: takeWhile.simps)
qed

lemma stoi_string_of_nat: "n < 2 ^ 31 \<Longrightarrow> stoi (string_of_nat n) = Inr (int n)"
  and stoll_string_of_nat: "n < 2 ^ 63 \<Longrightarrow> stoll (string_of_nat n) = Inr (int n)"
  by (simp_all add: stoi_def stoll_def parse_bounded_def)

lemma to_int32_small [simp]: "0 \<le> v \<Longrightarrow> v < 2 ^ 31 \<Longrightarrow> to_int32 v = v"
  by (simp add: to_int32_def)

section \<open>Properties\<close>

text \<open>
  C32: replacing a text everywhere terminates, also when the replacement contains the text it replaces, with one
  exception: replacing a text that occurs by itself never returns.
\<close>

theorem replace_all_termination:
  "replace_all pat repl s = None \<longleftrightarrow> pat = repl \<and> str_find pat s 0 \<noteq> None"
proof (cases "pat = repl \<and> str_find pat s 0 \<noteq> None")
  case True
  then show ?thesis using replace_from_same [of pat s 0] by (auto simp: replace_all_def)
next
  case False
  have "\<exists>r. replace_from pat repl s 0 = Some r"
  proof (cases "str_find pat s 0")
    case None
    then show ?thesis by (simp add: replace_from.simps)
  qed (use False replace_from_unequal replace_from_equal in blast)
  then show ?thesis using False by (auto simp: replace_all_def)
qed

text \<open>An environment variable whose value is its own reference.\<close>

theorem replace_all_termination_witness:
  "replace_all ''$HOME'' ''/home/$HOME'' ''$HOME/log'' \<noteq> None \<and> replace_all ''$A'' ''$A'' ''$A/x'' = None"
  by (simp add: replace_all_termination str_find_def)

end
