(* ===== verification/Device_Plugin.thy ===== *)
theory Device_Plugin
  imports Custom_Commands Misc_Utils
begin

text \<open>
  \<^verbatim>\<open>src/plugins/fmq/ODC.h\<close> and \<^verbatim>\<open>ODC.cpp\<close>: the plugin that runs inside every FairMQ device. It executes
  the commands of the controller, tells its subscribers about state changes and exchanges channel
  addresses with the other devices. Parameters: the plugin services of FairMQ (\<open>plugin_api\<close>; what the plugin
  asks of them is recorded as output), the clock (in nanoseconds), and the DDS environment. The
  functions run on three threads under mutexes: each is one step.
\<close>

section \<open>State\<close>

record DDSConfig =
  dc_numSubChannels :: u32
  dc_values :: "(u64 \<times> string) list"

record IofN =
  in_I :: u32
  in_N :: u32
  in_entries :: "string list"

datatype device_output =
    Sent Cmds u64
  | PutValue string string
  | UpdateProperty string string
  | SetProperty string string
  | RequestTransition mq_transition
  | SetDeviceProperties "(string \<times> string) list"

text \<open>\<open>dv_updates\<close> holds the channel updates posted to the worker thread.\<close>

record device =
  dv_id :: string
  dv_taskId :: u64
  dv_bindingChans :: "(string \<times> string list) list"
  dv_connectingChans :: "(string \<times> DDSConfig) list"
  dv_I :: "(string \<times> int) list"
  dv_IofN :: "(string \<times> IofN) list"
  dv_currentState :: mq_state
  dv_lastState :: mq_state
  dv_terminationRequested :: bool
  dv_subscribers :: "(u64 \<times> int \<times> int) list"
  dv_updatesAllowed :: bool
  dv_updates :: "(string \<times> string \<times> u64) list"
  dv_running :: bool
  dv_out :: "device_output list"

record plugin_api =
  pl_takeControl :: "exn option"
  pl_channelInfo :: "(string \<times> int) list"
  pl_get :: "string \<Rightarrow> exn + string"
  pl_getList :: "string \<Rightarrow> string list option"
  pl_changeState :: "mq_transition \<Rightarrow> bool"
  pl_deviceState :: mq_state
  pl_allProperties :: "(string \<times> string) list"
  pl_query :: "string \<Rightarrow> exn + (string \<times> string) list"
  pl_setProperties :: "(string \<times> string) list \<Rightarrow> exn option"
  pl_taskPath :: string
  pl_sessionId :: string
  pl_taskId :: u64

definition emit :: "device_output list \<Rightarrow> device \<Rightarrow> device" where
  "emit xs d = d\<lparr>dv_out := dv_out d @ xs\<rparr>"

section \<open>Channels\<close>

definition chan_key :: "string \<Rightarrow> nat \<Rightarrow> string" where
  "chan_key name i = ''chans.'' @ name @ ''.'' @ string_of_nat i @ ''.address''"

text \<open>The addresses of a binding channel, pushed one by one; a missing property throws.\<close>

fun bind_addresses :: "plugin_api \<Rightarrow> string \<Rightarrow> nat list \<Rightarrow> string list \<Rightarrow> string list \<times> exn option" where
  "bind_addresses api name [] l = (l, None)"
| "bind_addresses api name (i # is) l =
     (case pl_get api (chan_key name i) of
        Inl e \<Rightarrow> (l, Some e)
      | Inr a \<Rightarrow> bind_addresses api name is (l @ [a]))"

text \<open>The flag tells whether the function goes on: not after an exception or an unknown method.\<close>

fun fill_channels :: "plugin_api \<Rightarrow> (string \<times> int) list \<Rightarrow> device \<Rightarrow> device \<times> bool" where
  "fill_channels api [] d = (d, True)"
| "fill_channels api ((name, n) # cs) d =
     (case pl_get api (''chans.'' @ name @ ''.'' @ string_of_int (n - 1) @ ''.method'') of
        Inl e \<Rightarrow> (d, False)
      | Inr method \<Rightarrow>
          if method = ''bind''
          then (let old = (case map_of (dv_bindingChans d) name of None \<Rightarrow> [] | Some l \<Rightarrow> l);
                    (l, e) = bind_addresses api name [0..<nat n] old;
                    d1 = d\<lparr>dv_bindingChans := AList.update name l (dv_bindingChans d)\<rparr>
                in case e of Some _ \<Rightarrow> (d1, False) | None \<Rightarrow> fill_channels api cs d1)
          else if method = ''connect''
          then (let old = (case map_of (dv_connectingChans d) name of
                             None \<Rightarrow> \<lparr>dc_numSubChannels = 0, dc_values = []\<rparr> | Some c \<Rightarrow> c)
                in fill_channels api cs (d\<lparr>dv_connectingChans :=
                     AList.update name (old\<lparr>dc_numSubChannels := word_of_int n\<rparr>) (dv_connectingChans d)\<rparr>))
          else (d, False))"

fun fill_I :: "string list \<Rightarrow> device \<Rightarrow> device \<times> bool" where
  "fill_I [] d = (d, True)"
| "fill_I (v # vs) d =
     (let (chan, rest) = split_first (CHR '':'') v in
      if map_of (dv_connectingChans d) chan = None then (d, False)
      else case stoi rest of
             Inl e \<Rightarrow> (d, False)
           | Inr i \<Rightarrow> fill_I vs (d\<lparr>dv_I := umap_emplace chan i (dv_I d)\<rparr>))"

fun fill_IofN :: "string list \<Rightarrow> device \<Rightarrow> device" where
  "fill_IofN [] d = d"
| "fill_IofN (v # vs) d =
     (let (chan, rest) = split_first (CHR '':'') v; (si, sn) = split_first (CHR ''-'') rest in
      if map_of (dv_connectingChans d) chan = None then d
      else case stoi si of
             Inl e \<Rightarrow> d
           | Inr i \<Rightarrow>
              (case stoi sn of
                 Inl e \<Rightarrow> d
               | Inr n \<Rightarrow> fill_IofN vs (d\<lparr>dv_IofN :=
                     umap_emplace chan \<lparr>in_I = word_of_int i, in_N = word_of_int n, in_entries = []\<rparr> (dv_IofN d)\<rparr>)))"

definition option_list :: "'a list option \<Rightarrow> 'a list" where
  "option_list x = (case x of None \<Rightarrow> [] | Some l \<Rightarrow> l)"

definition FillChannelContainers :: "plugin_api \<Rightarrow> device \<Rightarrow> device" where
  "FillChannelContainers api d =
     (let (d1, go1) = fill_channels api (pl_channelInfo api) d in
      if \<not> go1 then d1
      else let (d2, go2) = fill_I (option_list (pl_getList api ''dds-i'')) d1 in
           if \<not> go2 then d2 else fill_IofN (option_list (pl_getList api ''dds-i-n'')) d2)"

definition EmptyChannelContainers :: "device \<Rightarrow> device" where
  "EmptyChannelContainers d = d\<lparr>dv_bindingChans := [], dv_connectingChans := []\<rparr>"

definition PublishBoundChannels :: "device \<Rightarrow> device" where
  "PublishBoundChannels d =
     emit (map (\<lambda>(name, l). PutValue (''fmqchan_'' @ name) (join_with '','' l)) (dv_bindingChans d)) d"

subsection \<open>Addresses from other devices\<close>

text \<open>The key-value callback: an update of a channel is posted to the worker.\<close>

definition onKeyValue :: "string \<Rightarrow> string \<Rightarrow> u64 \<Rightarrow> device \<Rightarrow> device" where
  "onKeyValue key val sender d =
     (if take 8 key \<noteq> ''fmqchan_'' then d
      else d\<lparr>dv_updates := dv_updates d @ [(drop 8 key, val, sender)]\<rparr>)"

text \<open>The value one update of an n-valued channel leads to: an exception, none yet, or the chosen one.\<close>

definition pick_value :: "string \<Rightarrow> IofN \<Rightarrow> IofN \<times> (exn + string option)" where
  "pick_value val x =
     (let entries = in_entries x @ [val] in
      if length entries = unat (in_N x)
      then (let es = sort entries in
            (x\<lparr>in_entries := es\<rparr>,
             case at es (unat (in_I x)) of None \<Rightarrow> Inl (OutOfRange ''vector::at'') | Some v \<Rightarrow> Inr (Some v)))
      else (x\<lparr>in_entries := entries\<rparr>, Inr None))"

definition choose_connection :: "string \<Rightarrow> string \<Rightarrow> device \<Rightarrow> exn + string" where
  "choose_connection chan val d =
     (let cs = split_at (CHR '','') val in
      if length cs > 1
      then case map_of (dv_I d) chan of
             None \<Rightarrow> Inr (hd cs)
           | Some i \<Rightarrow> if 0 \<le> i \<and> i < int (length cs) then Inr (cs ! nat i) else Inl (OutOfRange ''vector::at'')
      else Inr val)"

text \<open>The addresses of a channel all of whose values are there, in the order of their senders.\<close>

definition channel_updates :: "string \<times> DDSConfig \<Rightarrow> device_output list" where
  "channel_updates = (\<lambda>(name, c).
     if unat (dc_numSubChannels c) = length (dc_values c)
     then map (\<lambda>(i, v). UpdateProperty (chan_key name i) v) (zip [0..<length (dc_values c)] (map snd (dc_values c)))
     else [])"

definition handle_update :: "string \<times> string \<times> u64 \<Rightarrow> device \<Rightarrow> device" where
  "handle_update = (\<lambda>(chan, val, sender) d.
     case map_of (dv_connectingChans d) chan of
       None \<Rightarrow> d
     | Some cfg \<Rightarrow>
        (let (d1, r) = (case map_of (dv_IofN d) chan of
                 None \<Rightarrow> (d, Inr (Some val))
               | Some x \<Rightarrow> let (x1, r) = pick_value val x in (d\<lparr>dv_IofN := AList.update chan x1 (dv_IofN d)\<rparr>, r))
         in case r of
              Inr (Some v) \<Rightarrow>
                (case choose_connection chan v d1 of
                   Inl e \<Rightarrow> d1
                 | Inr s \<Rightarrow>
                     let d2 = d1\<lparr>dv_connectingChans := AList.update chan
                                 (cfg\<lparr>dc_values := smap_emplace sender s (dc_values cfg)\<rparr>) (dv_connectingChans d1)\<rparr>
                     in emit (concat (map channel_updates (dv_connectingChans d2))) d2)
            | _ \<Rightarrow> d1))"

definition worker_step :: "device \<Rightarrow> device" where
  "worker_step d =
     (case dv_updates d of
        [] \<Rightarrow> d
      | u # us \<Rightarrow> if dv_updatesAllowed d then handle_update u (d\<lparr>dv_updates := us\<rparr>) else d)"

section \<open>State changes\<close>

text \<open>
  The elapsed time is compared in seconds with three times the interval, which the controller gives in
  milliseconds.
\<close>

definition heartbeat_expired :: "int \<Rightarrow> int \<times> int \<Rightarrow> bool" where
  "heartbeat_expired now = (\<lambda>(t, interval). now - t > 3 * interval * 1000000000)"

definition state_change_cmd :: "string \<Rightarrow> device \<Rightarrow> Cmd" where
  "state_change_cmd i d = StateChange \<lparr>sc_deviceId = i, sc_taskId = dv_taskId d, sc_lastState = dv_lastState d,
     sc_currentState = dv_currentState d\<rparr>"

definition enter_state :: "plugin_api \<Rightarrow> mq_state \<Rightarrow> device \<Rightarrow> device" where
  "enter_state api newState d =
     (if newState = Bound
      then PublishBoundChannels ((FillChannelContainers api d)\<lparr>dv_updatesAllowed := True\<rparr>)
      else if newState = ResettingDevice then EmptyChannelContainers (d\<lparr>dv_updatesAllowed := False\<rparr>)
      else if newState = Exiting then d\<lparr>dv_terminationRequested := True, dv_running := False\<rparr>
      else d)"

definition onDeviceStateChange :: "plugin_api \<Rightarrow> int \<Rightarrow> mq_state \<Rightarrow> device \<Rightarrow> device \<times> exn option" where
  "onDeviceStateChange api now newState d =
     (let d1 = enter_state api newState d in
      case pl_get api ''id'' of
        Inl e \<Rightarrow> (d1, Some e)
      | Inr i \<Rightarrow>
          let d2 = d1\<lparr>dv_lastState := dv_currentState d1, dv_currentState := newState\<rparr>;
              subs = filter (\<lambda>(_, s). \<not> heartbeat_expired now s) (dv_subscribers d2);
              d3 = d2\<lparr>dv_subscribers := subs\<rparr>
          in (emit (if newState \<noteq> Exiting then map (\<lambda>(s, _). Sent [state_change_cmd i d3] s) subs else []) d3, None))"

section \<open>Commands\<close>

definition HandleDeviceCmd :: "plugin_api \<Rightarrow> int \<Rightarrow> u64 \<Rightarrow> Cmd \<Rightarrow> device \<Rightarrow> device" where
  "HandleDeviceCmd api now sender cmd d =
     (let i = dv_id d; t = dv_taskId d in
      case cmd of
        CheckState \<Rightarrow> emit [Sent [state_change_cmd i d] sender] d
      | ChangeState c \<Rightarrow>
          let d1 = emit [RequestTransition (chs_transition c)] d
          in if pl_changeState api (chs_transition c) then d1
             else emit [Sent [TransitionStatus \<lparr>ts_deviceId = i, ts_taskId = t, ts_result = Result_Failure,
                    ts_transition = chs_transition c, ts_currentState = pl_deviceState api\<rparr>] sender] d1
      | DumpConfig \<Rightarrow>
          emit [Sent [Config \<lparr>cfg_deviceId = i, cfg_config =
            concat (map (\<lambda>(k, v). i @ '': '' @ k @ '' -> '' @ v @ [CHR 0x0A]) (pl_allProperties api))\<rparr>] sender] d
      | SubscribeToStateChange c \<Rightarrow>
          emit [Sent [StateChangeSubscription \<lparr>scs_deviceId = i, scs_taskId = t, scs_result = Result_Ok\<rparr>,
                      state_change_cmd i d] sender]
            (d\<lparr>dv_subscribers := umap_emplace sender (now, sint (sub_interval c)) (dv_subscribers d)\<rparr>)
      | SubscriptionHeartbeat c \<Rightarrow>
          (if map_of (dv_subscribers d) sender = None then d
           else d\<lparr>dv_subscribers := AList.update sender (now, sint (hb_interval c)) (dv_subscribers d)\<rparr>)
      | UnsubscribeFromStateChange \<Rightarrow>
          emit [Sent [StateChangeUnsubscription \<lparr>scu_deviceId = i, scu_taskId = t, scu_result = Result_Ok\<rparr>] sender]
            (d\<lparr>dv_subscribers := AList.delete sender (dv_subscribers d)\<rparr>)
      | GetProperties c \<Rightarrow>
          let (result, props) = (case pl_query api (gpr_query c) of
                 Inl e \<Rightarrow> (Result_Failure, []) | Inr ps \<Rightarrow> (Result_Ok, ps))
          in emit [Sent [Properties \<lparr>pr_deviceId = i, pr_taskId = t, pr_requestId = gpr_requestId c, pr_result = result,
               pr_properties = props\<rparr>] sender] d
      | SetProperties c \<Rightarrow>
          let props = fold (\<lambda>(k, v). smap_emplace k v) (spr_properties c) [];
              result = (case pl_setProperties api props of None \<Rightarrow> Result_Ok | Some e \<Rightarrow> Result_Failure)
          in emit [SetDeviceProperties props, Sent [PropertiesSet \<lparr>ps_deviceId = i, ps_taskId = t,
               ps_requestId = spr_requestId c, ps_result = result\<rparr>] sender] d
      | _ \<Rightarrow> d)"

definition onCustomCommand :: "fb_codec \<Rightarrow> plugin_api \<Rightarrow> int \<Rightarrow> u64 \<Rightarrow> string \<Rightarrow> device \<Rightarrow> device \<times> exn option" where
  "onCustomCommand fb api now sender msg d =
     (case Deserialize fb Binary msg [] of
        (_, Some e) \<Rightarrow> (d, Some e)
      | (cmds, None) \<Rightarrow> (fold (HandleDeviceCmd api now sender) cmds d, None))"

section \<open>Construction\<close>

text \<open>The constructor; whatever it throws is logged, and leaves a device that takes no commands.\<close>

definition new_device :: "plugin_api \<Rightarrow> device" where
  "new_device api =
     (let d = \<lparr>dv_id = '''', dv_taskId = pl_taskId api, dv_bindingChans = [], dv_connectingChans = [], dv_I = [],
               dv_IofN = [], dv_currentState = Idle, dv_lastState = Idle, dv_terminationRequested = False,
               dv_subscribers = [], dv_updatesAllowed = False, dv_updates = [], dv_running = False, dv_out = []\<rparr>
      in case pl_takeControl api of Some e \<Rightarrow> d | None \<Rightarrow>
         (case pl_get api ''id'' of Inl e \<Rightarrow> d | Inr i \<Rightarrow>
           let d1 = emit (if i = [] then [SetProperty ''id'' (pl_taskPath api)] else []) d
           in (case pl_get api ''session'' of Inl e \<Rightarrow> d1 | Inr session \<Rightarrow>
             let d2 = emit (if session = ''default'' then [SetProperty ''session'' (pl_sessionId api)] else []) d1
             in (case pl_get api ''control'' of Inl e \<Rightarrow> d2 | Inr control \<Rightarrow>
                 if control = ''static'' then d2
                 else d2\<lparr>dv_id := (if i = [] then pl_taskPath api else i), dv_running := True\<rparr>))))"

section \<open>Lemmas\<close>

lemma emit_simps [simp]:
  "dv_out (emit xs d) = dv_out d @ xs" "dv_subscribers (emit xs d) = dv_subscribers d"
  "dv_currentState (emit xs d) = dv_currentState d" "dv_lastState (emit xs d) = dv_lastState d"
  "dv_IofN (emit xs d) = dv_IofN d" "dv_I (emit xs d) = dv_I d" "dv_taskId (emit xs d) = dv_taskId d"
  "dv_connectingChans (emit xs d) = dv_connectingChans d" "dv_id (emit xs d) = dv_id d"
  "dv_bindingChans (emit xs d) = dv_bindingChans d" "dv_updates (emit xs d) = dv_updates d"
  "dv_updatesAllowed (emit xs d) = dv_updatesAllowed d" "dv_running (emit xs d) = dv_running d"
  by (simp_all add: emit_def)

text \<open>What filling the channel containers leaves alone, and what it keeps of the n-valued channels.\<close>

definition same_device :: "device \<Rightarrow> device \<Rightarrow> bool" where
  "same_device d d' \<longleftrightarrow> dv_subscribers d' = dv_subscribers d \<and> dv_currentState d' = dv_currentState d \<and>
     dv_lastState d' = dv_lastState d \<and> dv_taskId d' = dv_taskId d \<and> dv_out d' = dv_out d \<and> dv_id d' = dv_id d \<and>
     map_of (dv_IofN d) \<subseteq>\<^sub>m map_of (dv_IofN d')"

lemma same_device_refl [simp]: "same_device d d"
  by (simp add: same_device_def)

lemma same_device_trans: "same_device d1 d2 \<Longrightarrow> same_device d2 d3 \<Longrightarrow> same_device d1 d3"
  by (auto simp: same_device_def intro: map_le_trans)

lemma map_le_umap_emplace: "map_of m \<subseteq>\<^sub>m map_of (umap_emplace k v m)"
  by (auto simp: map_le_def split: option.split)

lemma same_device_update [simp]:
  "same_device e d \<Longrightarrow> same_device e (d\<lparr>dv_bindingChans := b\<rparr>)"
  "same_device e d \<Longrightarrow> same_device e (d\<lparr>dv_connectingChans := c\<rparr>)"
  "same_device e d \<Longrightarrow> same_device e (d\<lparr>dv_I := i\<rparr>)"
  by (simp_all add: same_device_def)

lemma same_device_emplace [simp]:
  "same_device e d \<Longrightarrow> same_device e (d\<lparr>dv_IofN := umap_emplace k x (dv_IofN d)\<rparr>)"
  using map_le_umap_emplace [of "dv_IofN d" k x]
  by (auto simp: same_device_def simp del: map_of_umap_emplace intro: map_le_trans)

lemma fill_channels_same: "same_device e d \<Longrightarrow> same_device e (fst (fill_channels api cs d))"
proof (induction api cs d rule: fill_channels.induct)
  case (2 api name n cs d)
  let ?old = "case map_of (dv_bindingChans d) name of None \<Rightarrow> [] | Some l \<Rightarrow> l"
  obtain l x where b: "bind_addresses api name [0..<nat n] ?old = (l, x)" by (metis surj_pair)
  show ?case
    by (cases x; cases "pl_get api (''chans.'' @ name @ ''.'' @ string_of_int (n - 1) @ ''.method'')")
      (use 2 b in \<open>simp_all add: Let_def\<close>)
qed simp

lemma fill_I_same: "same_device e d \<Longrightarrow> same_device e (fst (fill_I vs d))"
proof (induction vs d rule: fill_I.induct)
  case (2 v vs d)
  obtain chan rest where s: "split_first (CHR '':'') v = (chan, rest)" by (metis surj_pair)
  then show ?case
    by (cases "map_of (dv_connectingChans d) chan"; cases "stoi rest") (use 2 in \<open>simp_all\<close>)
qed simp

lemma fill_IofN_same: "same_device e d \<Longrightarrow> same_device e (fill_IofN vs d)"
proof (induction vs d rule: fill_IofN.induct)
  case (2 v vs d)
  obtain chan rest si sn where s: "split_first (CHR '':'') v = (chan, rest)"
    "split_first (CHR ''-'') rest = (si, sn)" by (metis surj_pair)
  then show ?case
    by (cases "map_of (dv_connectingChans d) chan"; cases "stoi si"; cases "stoi sn") (use 2 in \<open>simp_all\<close>)
qed simp

lemma FillChannelContainers_same: "same_device d (FillChannelContainers api d)"
proof -
  obtain d1 b1 where 1: "fill_channels api (pl_channelInfo api) d = (d1, b1)" by (metis surj_pair)
  obtain d2 b2 where 2: "fill_I (option_list (pl_getList api ''dds-i'')) d1 = (d2, b2)" by (metis surj_pair)
  have "same_device d d1" "same_device d1 d2"
    using fill_channels_same [of d d api "pl_channelInfo api"] fill_I_same [of d1 d1 "option_list (pl_getList api ''dds-i'')"]
    by (simp_all add: 1 2)
  then show ?thesis using fill_IofN_same [of d d2]
    by (auto simp: FillChannelContainers_def 1 2 intro: same_device_trans)
qed

text \<open>The messages sent to one subscriber, and the state changes they report.\<close>

fun message_to :: "u64 \<Rightarrow> device_output \<Rightarrow> Cmds list" where
  "message_to s (Sent cmds s') = (if s' = s then [cmds] else [])"
| "message_to s _ = []"

definition messages_to :: "u64 \<Rightarrow> device_output list \<Rightarrow> Cmds list" where
  "messages_to s out = concat (map (message_to s) out)"

lemma messages_to_simps [simp]:
  "messages_to s [] = []" "messages_to s (xs @ ys) = messages_to s xs @ messages_to s ys"
  "messages_to s (x # xs) = message_to s x @ messages_to s xs"
  by (simp_all add: messages_to_def)

lemma messages_to_PutValue [simp]: "messages_to s (map (\<lambda>(n, l). PutValue (f n) (g l)) xs) = []"
  by (induction xs) auto

lemma messages_to_all:
  assumes "distinct (map fst subs)" "map_of subs s = Some x"
  shows "messages_to s (map (\<lambda>(s', _). Sent cmds s') subs) = [cmds]"
proof -
  have "messages_to s (map (\<lambda>(s', _). Sent cmds s') subs) = (if s \<in> fst ` set subs then [cmds] else [])"
    using assms(1) by (induction subs) (auto, force)
  moreover have "s \<in> fst ` set subs" using map_of_SomeD [OF assms(2)] by force
  ultimately show ?thesis by simp
qed

fun change_in :: "Cmd \<Rightarrow> (mq_state \<times> mq_state) list" where
  "change_in (StateChange c) = [(sc_lastState c, sc_currentState c)]"
| "change_in _ = []"

definition changes_sent :: "u64 \<Rightarrow> device_output list \<Rightarrow> (mq_state \<times> mq_state) list" where
  "changes_sent s out = concat (map change_in (concat (messages_to s out)))"

lemma enter_state_keeps:
  "dv_subscribers (enter_state api st d) = dv_subscribers d"
  "dv_currentState (enter_state api st d) = dv_currentState d"
  "dv_taskId (enter_state api st d) = dv_taskId d"
  "messages_to s (dv_out (enter_state api st d)) = messages_to s (dv_out d)"
  using FillChannelContainers_same [of d api]
  by (simp_all add: enter_state_def PublishBoundChannels_def EmptyChannelContainers_def same_device_def)

definition live_subscriber :: "int \<Rightarrow> u64 \<Rightarrow> device \<Rightarrow> bool" where
  "live_subscriber now s d \<longleftrightarrow> (case map_of (dv_subscribers d) s of None \<Rightarrow> False | Some x \<Rightarrow> \<not> heartbeat_expired now x)"

lemma map_of_filter_keys:
  "distinct (map fst m) \<Longrightarrow> map_of (filter (\<lambda>(k, v). P v) m) k = (case map_of m k of None \<Rightarrow> None | Some v \<Rightarrow> if P v then Some v else None)"
  by (induction m) (auto simp: map_of_eq_None_iff image_iff split: option.split)

lemma onDeviceStateChange_step:
  assumes i: "pl_get api ''id'' = Inr i" and n: "st \<noteq> Exiting"
    and d: "distinct_keys (dv_subscribers d)" and l: "live_subscriber now s d"
  shows "distinct_keys (dv_subscribers (fst (onDeviceStateChange api now st d)))"
    and "map_of (dv_subscribers (fst (onDeviceStateChange api now st d))) s = map_of (dv_subscribers d) s"
    and "dv_currentState (fst (onDeviceStateChange api now st d)) = st"
    and "dv_lastState (fst (onDeviceStateChange api now st d)) = dv_currentState d"
    and "dv_taskId (fst (onDeviceStateChange api now st d)) = dv_taskId d"
    and "messages_to s (dv_out (fst (onDeviceStateChange api now st d))) = messages_to s (dv_out d) @
      [[StateChange \<lparr>sc_deviceId = i, sc_taskId = dv_taskId d, sc_lastState = dv_currentState d, sc_currentState = st\<rparr>]]"
proof -
  let ?subs = "filter (\<lambda>(_, x). \<not> heartbeat_expired now x) (dv_subscribers d)"
  have m: "map_of ?subs s = map_of (dv_subscribers d) s"
    using l map_of_filter_keys [of "dv_subscribers d" "\<lambda>x. \<not> heartbeat_expired now x" s] d
    by (cases "map_of (dv_subscribers d) s") (simp_all add: live_subscriber_def distinct_keys_def)
  have k: "distinct (map fst ?subs)"
    using d by (simp add: distinct_keys_def distinct_map_filter)
  obtain x where x: "map_of ?subs s = Some x"
    using l m by (auto simp: live_subscriber_def split: option.splits)
  show "distinct_keys (dv_subscribers (fst (onDeviceStateChange api now st d)))"
    "map_of (dv_subscribers (fst (onDeviceStateChange api now st d))) s = map_of (dv_subscribers d) s"
    "dv_currentState (fst (onDeviceStateChange api now st d)) = st"
    "dv_lastState (fst (onDeviceStateChange api now st d)) = dv_currentState d"
    "dv_taskId (fst (onDeviceStateChange api now st d)) = dv_taskId d"
    "messages_to s (dv_out (fst (onDeviceStateChange api now st d))) = messages_to s (dv_out d) @
      [[StateChange \<lparr>sc_deviceId = i, sc_taskId = dv_taskId d, sc_lastState = dv_currentState d, sc_currentState = st\<rparr>]]"
    using m k n by (simp_all add: onDeviceStateChange_def i Let_def enter_state_keeps distinct_keys_def
        messages_to_all [OF k x] state_change_cmd_def)
qed


section \<open>A sample device\<close>

definition sample_api :: plugin_api where
  "sample_api = \<lparr>pl_takeControl = None, pl_channelInfo = [(''data'', 2), (''raw'', 1), (''out'', 2)],
     pl_get = (\<lambda>k. if k = ''id'' then Inr ''dev-1'' else if k = ''session'' then Inr ''default''
        else if k = ''control'' then Inr ''external''
        else if k = ''chans.data.1.method'' \<or> k = ''chans.raw.0.method'' then Inr ''connect''
        else if k = ''chans.out.1.method'' then Inr ''bind''
        else if k = ''chans.out.0.address'' then Inr ''tcp://a:1'' else if k = ''chans.out.1.address'' then Inr ''tcp://a:2''
        else Inl (OtherException k)),
     pl_getList = (\<lambda>k. if k = ''dds-i-n'' then Some [''raw:1-2''] else None), pl_changeState = (\<lambda>_. True),
     pl_deviceState = Idle, pl_allProperties = [], pl_query = (\<lambda>_. Inr []), pl_setProperties = (\<lambda>_. None),
     pl_taskPath = ''main/dev'', pl_sessionId = ''s1'', pl_taskId = 7\<rparr>"

definition sample_device :: device where
  "sample_device = HandleDeviceCmd sample_api 0 99 (SubscribeToStateChange \<lparr>sub_interval = 600000\<rparr>) (new_device sample_api)"

lemma sample_device_facts:
  "distinct_keys (dv_subscribers sample_device)"
  "\<forall>(now, st) \<in> set [(5, InitializingDevice), (10, Initialized)]. live_subscriber now 99 sample_device \<and> st \<noteq> Exiting"
  "changes_sent 99 (dv_out sample_device) = [(Idle, Idle)]" "dv_currentState sample_device = Idle"
  by code_simp+


section \<open>Channel addresses\<close>

lemma handle_update_other:
  "chan' \<noteq> chan \<Longrightarrow> map_of (dv_connectingChans (handle_update (chan', v, s) d)) chan = map_of (dv_connectingChans d) chan"
  "chan' \<noteq> chan \<Longrightarrow> map_of (dv_IofN (handle_update (chan', v, s) d)) chan = map_of (dv_IofN d) chan"
  by (auto simp: handle_update_def Let_def update_conv' split: option.split sum.split prod.split)

text \<open>An n-valued channel that has more values than it waits for chooses none.\<close>

lemma handle_update_overfull:
  assumes "map_of (dv_IofN d) chan = Some x" "unat (in_N x) \<le> length (in_entries x)"
  shows "map_of (dv_connectingChans (handle_update u d)) chan = map_of (dv_connectingChans d) chan \<and>
     (\<exists>y. map_of (dv_IofN (handle_update u d)) chan = Some y \<and> unat (in_N y) \<le> length (in_entries y))"
proof -
  obtain c v s where u: "u = (c, v, s)" by (metis prod_cases3)
  show ?thesis
  proof (cases "c = chan")
    case True
    show ?thesis using assms
      by (auto simp: u True handle_update_def Let_def pick_value_def update_conv' split: option.split)
  next
    case False
    then show ?thesis using assms by (auto simp: u handle_update_other)
  qed
qed

lemma handle_updates_overfull:
  assumes "map_of (dv_IofN d) chan = Some x" "unat (in_N x) \<le> length (in_entries x)"
  shows "map_of (dv_connectingChans (fold handle_update us d)) chan = map_of (dv_connectingChans d) chan"
  using assms
proof (induction us arbitrary: d x)
  case (Cons u us)
  from handle_update_overfull [OF Cons.prems, of u] obtain y
    where "map_of (dv_IofN (handle_update u d)) chan = Some y" "unat (in_N y) \<le> length (in_entries y)"
      and "map_of (dv_connectingChans (handle_update u d)) chan = map_of (dv_connectingChans d) chan" by blast
  with Cons.IH [OF this(1,2)] show ?case by simp
qed simp

text \<open>Filled containers hold no value yet.\<close>

definition no_values :: "device \<Rightarrow> bool" where
  "no_values d \<longleftrightarrow> (\<forall>c cfg. map_of (dv_connectingChans d) c = Some cfg \<longrightarrow> dc_values cfg = [])"

lemma fill_channels_no_values: "no_values d \<Longrightarrow> no_values (fst (fill_channels api cs d))"
proof (induction api cs d rule: fill_channels.induct)
  case (2 api name n cs d)
  let ?old = "case map_of (dv_bindingChans d) name of None \<Rightarrow> [] | Some l \<Rightarrow> l"
  let ?cfg = "(case map_of (dv_connectingChans d) name of None \<Rightarrow> \<lparr>dc_numSubChannels = 0, dc_values = []\<rparr> | Some c \<Rightarrow> c)
      \<lparr>dc_numSubChannels := word_of_int n\<rparr>"
  obtain l x where b: "bind_addresses api name [0..<nat n] ?old = (l, x)" by (metis surj_pair)
  have n1: "no_values (d\<lparr>dv_connectingChans := AList.update name ?cfg (dv_connectingChans d)\<rparr>)"
    using 2(3) by (auto simp: no_values_def update_conv' split: option.splits)
  have n2: "no_values (d\<lparr>dv_bindingChans := y\<rparr>)" for y using 2(3) by (simp add: no_values_def)
  show ?case
    by (cases x; cases "pl_get api (''chans.'' @ name @ ''.'' @ string_of_int (n - 1) @ ''.method'')")
      (use 2 b n1 n2 in \<open>simp_all add: Let_def\<close>)
qed simp

lemma fill_I_connecting: "dv_connectingChans (fst (fill_I vs d)) = dv_connectingChans d"
proof (induction vs d rule: fill_I.induct)
  case (2 v vs d)
  obtain chan rest where s: "split_first (CHR '':'') v = (chan, rest)" by (metis surj_pair)
  then show ?case
    by (cases "map_of (dv_connectingChans d) chan"; cases "stoi rest") (use 2 in \<open>simp_all\<close>)
qed simp

lemma fill_IofN_connecting: "dv_connectingChans (fill_IofN vs d) = dv_connectingChans d"
proof (induction vs d rule: fill_IofN.induct)
  case (2 v vs d)
  obtain chan rest si sn where s: "split_first (CHR '':'') v = (chan, rest)"
    "split_first (CHR ''-'') rest = (si, sn)" by (metis surj_pair)
  then show ?case
    by (cases "map_of (dv_connectingChans d) chan"; cases "stoi si"; cases "stoi sn") (use 2 in \<open>simp_all\<close>)
qed simp

lemma FillChannelContainers_no_values: "no_values d \<Longrightarrow> no_values (FillChannelContainers api d)"
proof -
  assume d: "no_values d"
  obtain d1 b1 where 1: "fill_channels api (pl_channelInfo api) d = (d1, b1)" by (metis surj_pair)
  obtain d2 b2 where 2: "fill_I (option_list (pl_getList api ''dds-i'')) d1 = (d2, b2)" by (metis surj_pair)
  have "no_values d1" using fill_channels_no_values [OF d, of api "pl_channelInfo api"] 1 by simp
  moreover have "dv_connectingChans d2 = dv_connectingChans d1"
    using fill_I_connecting [of "option_list (pl_getList api ''dds-i'')" d1] 2 by simp
  ultimately show ?thesis by (auto simp: FillChannelContainers_def 1 2 no_values_def fill_IofN_connecting)
qed

text \<open>
  The reset of a device empties its channel containers but not the values collected for the n-valued
  channels of \<^verbatim>\<open>dds-i-n\<close>, and an entry already there is kept when the containers are filled
  again. So a channel that has chosen its value once is never configured after a reset, whatever
  updates arrive.
\<close>
theorem IofN_not_reset:
  assumes "map_of (dv_IofN d) chan = Some x" and "length (in_entries x) = unat (in_N x)"
    and "map_of (dv_connectingChans (fold handle_update us
           (enter_state api Bound (enter_state api ResettingDevice d)))) chan = Some cfg"
  shows "dc_values cfg = []"
proof -
  let ?d1 = "enter_state api ResettingDevice d" and ?d = "enter_state api Bound (enter_state api ResettingDevice d)"
  have 1: "dv_IofN ?d1 = dv_IofN d" "no_values ?d1"
    by (simp_all add: enter_state_def EmptyChannelContainers_def no_values_def)
  have "map_of (dv_IofN ?d1) \<subseteq>\<^sub>m map_of (dv_IofN ?d)"
    using FillChannelContainers_same [of ?d1 api] by (simp add: enter_state_def PublishBoundChannels_def same_device_def)
  then have "map_of (dv_IofN ?d) chan = Some x"
    using assms(1) 1(1) by (metis map_le_def domI)
  then have "map_of (dv_connectingChans ?d) chan = Some cfg"
    using handle_updates_overfull [of ?d chan x us] assms(2,3) by simp
  moreover have "no_values ?d"
    using FillChannelContainers_no_values [OF 1(2), of api]
    by (simp add: enter_state_def [of api Bound] PublishBoundChannels_def no_values_def)
  ultimately show ?thesis by (simp add: no_values_def)
qed

text \<open>The sample device, bound, after both values of its n-valued channel have arrived.\<close>

definition sample_bound :: device where
  "sample_bound = fold handle_update [(''raw'', ''tcp://z:1'', 31), (''raw'', ''tcp://b:1'', 32)]
     (enter_state sample_api Bound sample_device)"

lemma sample_bound_facts:
  "map_of (dv_IofN sample_bound) ''raw'' = Some \<lparr>in_I = 1, in_N = 2, in_entries = [''tcp://b:1'', ''tcp://z:1'']\<rparr>"
  "map_of (dv_connectingChans sample_bound) ''raw'' = Some \<lparr>dc_numSubChannels = 1, dc_values = [(32, ''tcp://z:1'')]\<rparr>"
  "map_option dc_numSubChannels (map_of (dv_connectingChans (fold handle_update [(''raw'', ''tcp://z:1'', 31), (''raw'', ''tcp://b:1'', 32)]
     (enter_state sample_api Bound (enter_state sample_api ResettingDevice sample_bound)))) ''raw'') = Some 1"
  by code_simp+

theorem IofN_not_reset_witness:
  "\<exists>cfg. map_of (dv_connectingChans (fold handle_update [(''raw'', ''tcp://z:1'', 31), (''raw'', ''tcp://b:1'', 32)]
     (enter_state sample_api Bound (enter_state sample_api ResettingDevice sample_bound)))) ''raw'' = Some cfg \<and> dc_values cfg = []"
  using sample_bound_facts(3) IofN_not_reset [OF sample_bound_facts(1)] by fastforce

subsection \<open>Arrival order\<close>

lemma sorted_keys_unique:
  assumes "sorted_keys m" "sorted_keys m'" "map_of m = map_of m'"
  shows "m = m'"
proof -
  have d: "distinct (map fst m)" "distinct (map fst m')" "sorted (map fst m)" "sorted (map fst m')"
    using assms(1,2) by (simp_all add: sorted_keys_def strict_sorted_iff)
  have "set m = set m'"
    using d(1,2) assms(3) by (metis set_map_of_compr)
  then show ?thesis
    using d by (metis Un_absorb distinct_map map_sorted_distinct_set_unique)
qed

lemma sorted_keys_fold_emplace:
  "sorted_keys m \<Longrightarrow> sorted_keys (fold (\<lambda>(k, v). smap_emplace k v) es m)"
  by (induction es arbitrary: m) (auto intro: inv_intros)

lemma map_of_fold_emplace:
  "map_of (fold (\<lambda>(k, v). smap_emplace k v) es m) k = (case map_of m k of None \<Rightarrow> map_of es k | Some v \<Rightarrow> Some v)"
  by (induction es arbitrary: m) (auto split: option.splits)

lemma fold_emplace_sort:
  assumes "distinct (map fst es)"
  shows "fold (\<lambda>(k, v). smap_emplace k v) es [] = sort_key fst es"
proof (rule sorted_keys_unique)
  have "map_of (sort_key fst es) = map_of es"
    using assms by (intro map_of_inject_set [THEN iffD2]) (simp_all add: distinct_map)
  then show "map_of (fold (\<lambda>(k, v). smap_emplace k v) es []) = map_of (sort_key fst es)"
    by (auto simp: map_of_fold_emplace)
  show "sorted_keys (sort_key fst es)"
    using assms by (simp add: sorted_keys_def strict_sorted_iff distinct_map)
qed (simp add: sorted_keys_fold_emplace)

lemma choose_single: "CHR '','' \<notin> set v \<Longrightarrow> choose_connection chan v d = Inr v"
  by (simp add: choose_connection_def split_at_none)

text \<open>One update of a plain channel.\<close>

lemma handle_update_plain:
  assumes "map_of (dv_connectingChans d) chan = Some cfg" "map_of (dv_IofN d) chan = None" "CHR '','' \<notin> set v"
  shows "map_of (dv_connectingChans (handle_update (chan, v, s) d)) chan
         = Some (cfg\<lparr>dc_values := smap_emplace s v (dc_values cfg)\<rparr>)"
    and "dv_IofN (handle_update (chan, v, s) d) = dv_IofN d"
    and "set (channel_updates (chan, cfg\<lparr>dc_values := smap_emplace s v (dc_values cfg)\<rparr>))
         \<subseteq> set (dv_out (handle_update (chan, v, s) d))"
proof -
  let ?cfg = "cfg\<lparr>dc_values := smap_emplace s v (dc_values cfg)\<rparr>"
  have e: "handle_update (chan, v, s) d
      = (let d2 = d\<lparr>dv_connectingChans := AList.update chan ?cfg (dv_connectingChans d)\<rparr>
         in emit (concat (map channel_updates (dv_connectingChans d2))) d2)"
    by (simp add: handle_update_def assms choose_single)
  show "map_of (dv_connectingChans (handle_update (chan, v, s) d)) chan = Some ?cfg"
    "dv_IofN (handle_update (chan, v, s) d) = dv_IofN d"
    by (simp_all add: e Let_def update_conv')
  have "(chan, ?cfg) \<in> set (AList.update chan ?cfg (dv_connectingChans d))"
    by (rule map_of_SomeD) (simp add: update_conv')
  then show "set (channel_updates (chan, ?cfg)) \<subseteq> set (dv_out (handle_update (chan, v, s) d))"
    by (auto simp: e Let_def)
qed

lemma handle_updates_plain:
  assumes "map_of (dv_connectingChans d) chan = Some cfg" "map_of (dv_IofN d) chan = None"
    and "\<forall>(v, s) \<in> set us. CHR '','' \<notin> set v"
  shows "map_of (dv_connectingChans (fold (\<lambda>(v, s). handle_update (chan, v, s)) us d)) chan
         = Some (cfg\<lparr>dc_values := fold (\<lambda>(k, v). smap_emplace k v) (map prod.swap us) (dc_values cfg)\<rparr>)
       \<and> map_of (dv_IofN (fold (\<lambda>(v, s). handle_update (chan, v, s)) us d)) chan = None"
  using assms
proof (induction us arbitrary: d cfg)
  case (Cons u us)
  obtain v s where u: "u = (v, s)" by fastforce
  have v: "CHR '','' \<notin> set v" using Cons.prems(3) u by simp
  note st = handle_update_plain [OF Cons.prems(1,2) v, of s]
  show ?case using Cons.IH [OF st(1)] st(2) Cons.prems by (simp add: u)
qed simp


definition sample_ready :: device where
  "sample_ready = enter_state sample_api Bound sample_device"

lemma sample_ready_facts:
  "map_of (dv_connectingChans sample_ready) ''data'' = Some \<lparr>dc_numSubChannels = 2, dc_values = []\<rparr>"
  "map_of (dv_IofN sample_ready) ''data'' = None"
  "map_of (dv_connectingChans sample_ready) ''raw'' = Some \<lparr>dc_numSubChannels = 1, dc_values = []\<rparr>"
  "map_of (dv_IofN sample_ready) ''raw'' = Some \<lparr>in_I = 1, in_N = 2, in_entries = []\<rparr>"
  by code_simp+


lemma handle_update_waits:
  assumes "map_of (dv_connectingChans d) chan = Some cfg" "map_of (dv_IofN d) chan = Some x"
    and "Suc (length (in_entries x)) \<noteq> unat (in_N x)"
  shows "map_of (dv_connectingChans (handle_update (chan, v, s) d)) chan = Some cfg
     \<and> map_of (dv_IofN (handle_update (chan, v, s) d)) chan = Some (x\<lparr>in_entries := in_entries x @ [v]\<rparr>)"
  using assms by (simp add: handle_update_def pick_value_def update_conv' Let_def)

lemma handle_updates_wait:
  assumes "map_of (dv_connectingChans d) chan = Some cfg" "map_of (dv_IofN d) chan = Some x"
    and "length (in_entries x) + length us < unat (in_N x)"
  shows "map_of (dv_connectingChans (fold (\<lambda>(v, s). handle_update (chan, v, s)) us d)) chan = Some cfg
     \<and> map_of (dv_IofN (fold (\<lambda>(v, s). handle_update (chan, v, s)) us d)) chan
       = Some (x\<lparr>in_entries := in_entries x @ map fst us\<rparr>)"
  using assms
proof (induction us arbitrary: d x)
  case (Cons u us)
  obtain v s where u: "u = (v, s)" by fastforce
  have "Suc (length (in_entries x)) \<noteq> unat (in_N x)" using Cons.prems(3) by simp
  note st = handle_update_waits [OF Cons.prems(1,2) this, of v s]
  show ?case using Cons.IH [OF conjunct1 [OF st] conjunct2 [OF st]] Cons.prems(3) by (simp add: u)
qed simp

lemma handle_update_picks:
  assumes "map_of (dv_connectingChans d) chan = Some cfg" "map_of (dv_IofN d) chan = Some x"
    and "pick_value v x = (x1, Inr (Some w))" "CHR '','' \<notin> set w"
  shows "map_of (dv_connectingChans (handle_update (chan, v, s) d)) chan
       = Some (cfg\<lparr>dc_values := smap_emplace s w (dc_values cfg)\<rparr>)"
  using assms by (simp add: handle_update_def choose_single update_conv' Let_def)



end
