(* ===== verification/ODC_Network.thy ===== *)
theory ODC_Network
  imports Topology_Props Device_Plugin "HOL-Library.Multiset"
begin

text \<open>
  The two ends together: the topology in the controller (\<^verbatim>\<open>src/odc/Topology.h\<close>) and the plugins of its
  devices (\<^verbatim>\<open>src/plugins/fmq/ODC.cpp\<close>). A command handled by a device, or a state change of it, is one
  step; the messages the device sends to the controller in it are delivered to the topology in the order
  in which they were sent, before the next step. Messages are lists of commands here: that they survive
  their encoding is the round trip of \<open>Custom_Commands\<close>.
\<close>

section \<open>The network\<close>

record network =
  nw_tp :: topology
  nw_devs :: "device list"

definition deliver :: "dds_topo \<Rightarrow> Cmds list \<Rightarrow> topology \<Rightarrow> topology" where
  "deliver dds msgs tp = fold (\<lambda>cs tp. fst (HandleCmds dds cs tp)) msgs tp"

text \<open>What a device has sent to the controller since an earlier state of it.\<close>

definition answers :: "u64 \<Rightarrow> device \<Rightarrow> device \<Rightarrow> Cmds list" where
  "answers ctl d d' = messages_to ctl (drop (length (dv_out d)) (dv_out d'))"

definition dev_step :: "u64 \<Rightarrow> dds_topo \<Rightarrow> nat \<Rightarrow> (device \<Rightarrow> device) \<Rightarrow> network \<Rightarrow> network" where
  "dev_step ctl dds k f nw =
     (let d = nw_devs nw ! k; d' = f d
      in nw\<lparr>nw_tp := deliver dds (answers ctl d d') (nw_tp nw), nw_devs := (nw_devs nw)[k := d']\<rparr>)"

datatype net_event =
    DevCommands nat int Cmds
  | DevChange nat int mq_state

fun net_step :: "u64 \<Rightarrow> dds_topo \<Rightarrow> (nat \<Rightarrow> plugin_api) \<Rightarrow> net_event \<Rightarrow> network \<Rightarrow> network" where
  "net_step ctl dds api (DevCommands k now cmds) nw =
     dev_step ctl dds k (\<lambda>d. fold (HandleDeviceCmd (api k) now ctl) cmds d) nw"
| "net_step ctl dds api (DevChange k now st) nw =
     dev_step ctl dds k (\<lambda>d. fst (onDeviceStateChange (api k) now st d)) nw"

section \<open>What the topology keeps of the states\<close>

text \<open>Two topologies with the same tasks in the same states.\<close>

definition same_states :: "topology \<Rightarrow> topology \<Rightarrow> bool" where
  "same_states tp tp' \<longleftrightarrow> tp_stateIndex tp' = tp_stateIndex tp \<and>
     map (\<lambda>d. (ds_state d, ds_lastState d)) (tp_stateData tp') = map (\<lambda>d. (ds_state d, ds_lastState d)) (tp_stateData tp)"

lemma same_states_refl [simp]: "same_states tp tp"
  by (simp add: same_states_def)

lemma same_states_trans: "same_states a b \<Longrightarrow> same_states b c \<Longrightarrow> same_states a c"
  by (simp add: same_states_def)

lemma same_states_length: "same_states tp tp' \<Longrightarrow> length (tp_stateData tp') = length (tp_stateData tp)"
  unfolding same_states_def by (metis length_map)

lemma same_states_at: "same_states tp tp' \<Longrightarrow> tp_at tp' t = tp_at tp t"
  using same_states_length [of tp tp'] by (simp add: same_states_def tp_at_def split: option.split)

lemma same_states_device:
  assumes "same_states tp tp'" "k < length (tp_stateData tp)"
  shows "ds_state (tp_device tp' k) = ds_state (tp_device tp k) \<and> ds_lastState (tp_device tp' k) = ds_lastState (tp_device tp k)"
proof -
  let ?f = "\<lambda>d. (ds_state d, ds_lastState d)"
  have "?f (tp_device tp' k) = ?f (tp_device tp k)"
    using assms same_states_length [OF assms(1)] unfolding same_states_def by (metis (lifting) nth_map)
  then show ?thesis by simp
qed

lemma same_states_for_devices:
  assumes "\<And>d n. ds_state (fst (f d n)) = ds_state d \<and> ds_lastState (fst (f d n)) = ds_lastState d"
  shows "map (\<lambda>d. (ds_state d, ds_lastState d)) (fst (for_devices f sd n)) = map (\<lambda>d. (ds_state d, ds_lastState d)) sd"
  by (induction sd arbitrary: n) (simp_all add: split_def Let_def assms)

lemma same_states_set_device:
  assumes "ds_state d = ds_state (tp_device tp k)" "ds_lastState d = ds_lastState (tp_device tp k)"
  shows "same_states tp (tp_set_device k d tp)"
  unfolding same_states_def tp_set_device_def
  using assms by (cases "k < length (tp_stateData tp)") (simp_all add: map_update list_update_same_conv list_update_beyond not_less)

lemma same_states_ignore_collection: "same_states tp (ignore_collection c tp)"
  using same_states_for_devices [of "\<lambda>d n. if ds_collectionId d = c then ignore_device d n else (d, n)"]
  by (simp add: same_states_def ignore_collection_def split_def Let_def ignore_device_def unsubscribe_device_def)

lemma same_states_IsExpendable: "same_states tp (fst (IsExpendable dds k tp))"
proof -
  have "same_states tp (ignore_collection c (tp\<lparr>tp_collectionInfo := ci\<rparr>))" for c ci
    by (rule same_states_trans [OF _ same_states_ignore_collection]) (simp add: same_states_def)
  moreover have "same_states tp (tp_set_device k ((tp_device tp k)\<lparr>ds_ignored := True\<rparr>) tp)"
    by (rule same_states_set_device) simp_all
  ultimately show ?thesis
    by (auto simp: IsExpendable_def Let_def same_states_def split: option.split sum.split)
qed

lemma same_states_ops:
  "same_states tp (update_cs_ops t s b tp)" "same_states tp (update_ws_ops t l s b tp)" "same_states tp (update_sp_ops t b tp)"
  by (simp_all add: same_states_def update_cs_ops_def update_ws_ops_def update_sp_ops_def)

text \<open>A state change writes the reported states into the entry of the task, whatever follows from it.\<close>

lemma StateChange_states:
  assumes "tp_at tp (sc_taskId c) = Inr k"
  shows "same_states (tp_set_device k ((tp_device tp k)\<lparr>ds_lastState := sc_lastState c, ds_state := sc_currentState c\<rparr>) tp)
     (HandleCmd_StateChange dds c tp)"
proof -
  let ?tp = "tp_set_device k ((tp_device tp k)\<lparr>ds_lastState := sc_lastState c, ds_state := sc_currentState c\<rparr>) tp"
  obtain tp2 r where e: "IsExpendable dds k ?tp = (tp2, r)" by fastforce
  have s2: "same_states ?tp tp2" using same_states_IsExpendable [of ?tp dds k] e by simp
  have all: "same_states a (update_ws_ops t l s b (update_cs_ops t' s' b' c))" if "same_states a c" for a c t l s b t' s' b'
    by (rule same_states_trans [OF same_states_trans [OF that same_states_ops(1)] same_states_ops(2)])
  have s3: "same_states ?tp (update_sp_ops t b tp2)" for t b
    by (rule same_states_trans [OF s2 same_states_ops(3)])
  show ?thesis
  proof (cases "sc_currentState c = Error \<or> (sc_currentState c = Exiting \<and> ds_state (tp_device tp k) \<noteq> Idle)")
    case True
    then show ?thesis
      by (cases r) (auto simp: HandleCmd_StateChange_def assms e s2 all [OF s3])
  next
    case False
    then show ?thesis by (auto simp: HandleCmd_StateChange_def assms all [OF same_states_refl])
  qed
qed

lemma same_states_Subscription: "same_states tp (HandleCmd_StateChangeSubscription c tp)"
proof (cases "tp_at tp (scs_taskId c)")
  case (Inr k)
  have "same_states tp (tp_set_device k ((tp_device tp k)\<lparr>ds_subscribed := True\<rparr>) tp)"
    by (rule same_states_set_device) simp_all
  then show ?thesis by (simp add: HandleCmd_StateChangeSubscription_def Inr same_states_def)
qed (simp add: HandleCmd_StateChangeSubscription_def)

lemma same_states_Unsubscription: "same_states tp (HandleCmd_StateChangeUnsubscription c tp)"
proof (cases "tp_at tp (scu_taskId c)")
  case (Inr k)
  have "same_states tp (tp_set_device k (fst (unsubscribe_device (tp_device tp k) n)) tp)" for n
    by (rule same_states_set_device) (simp_all add: unsubscribe_device_def)
  then show ?thesis by (simp add: HandleCmd_StateChangeUnsubscription_def Inr same_states_def split_def Let_def)
qed (simp add: HandleCmd_StateChangeUnsubscription_def)

lemma HandleCmd_other_states:
  assumes "\<And>c. cmd \<noteq> StateChange c"
  shows "same_states tp (fst (HandleCmd dds cmd tp))"
proof (cases cmd)
  case (TransitionStatus c)
  then show ?thesis by (simp add: HandleCmd_def HandleCmd_TransitionStatus_def same_states_def split_def Let_def)
next
  case (Properties c)
  then show ?thesis by (simp add: HandleCmd_def HandleCmd_Properties_def same_states_def split: option.split)
next
  case (PropertiesSet c)
  then show ?thesis by (simp add: HandleCmd_def HandleCmd_PropertiesSet_def same_states_def split: option.split)
qed (use assms in \<open>simp_all add: HandleCmd_def same_states_Subscription same_states_Unsubscription\<close>)

section \<open>Mirroring\<close>

definition mirrors :: "topology \<Rightarrow> device \<Rightarrow> bool" where
  "mirrors tp d \<longleftrightarrow> (\<exists>j. tp_at tp (dv_taskId d) = Inr j \<and>
     ds_state (tp_device tp j) = dv_currentState d \<and> ds_lastState (tp_device tp j) = dv_lastState d)"

text \<open>A command that, if it reports a state, reports the states of the device.\<close>

definition own_report :: "device \<Rightarrow> Cmd \<Rightarrow> bool" where
  "own_report d cmd \<longleftrightarrow> (\<forall>c. cmd = StateChange c \<longrightarrow>
     sc_taskId c = dv_taskId d \<and> sc_lastState c = dv_lastState d \<and> sc_currentState c = dv_currentState d)"

lemma mirrors_same_states: "same_states tp tp' \<Longrightarrow> mirrors tp d \<Longrightarrow> mirrors tp' d"
  using same_states_at [of tp tp'] same_states_device [of tp tp'] by (fastforce simp: mirrors_def dest: tp_at_less)

lemma tp_at_inj: "topo_wf tp \<Longrightarrow> tp_at tp t = Inr k \<Longrightarrow> tp_at tp t' = Inr k \<Longrightarrow> t = t'"
  using tp_at_less wf_index_nth unfolding topo_wf_def by metis

lemma tp_at_set_device: "tp_at (tp_set_device k d tp) t = tp_at tp t"
  by (simp add: tp_at_def tp_set_device_def split: option.split)

lemma HandleCmd_at: "tp_at (fst (HandleCmd dds cmd tp)) t = tp_at tp t"
proof (cases "\<exists>c. cmd = StateChange c")
  case False
  then show ?thesis using same_states_at [OF HandleCmd_other_states] by blast
next
  case True
  then obtain c where c: "cmd = StateChange c" by blast
  show ?thesis
  proof (cases "tp_at tp (sc_taskId c)")
    case (Inr k)
    show ?thesis using same_states_at [OF StateChange_states [OF Inr, of dds], of t] by (simp add: c HandleCmd_def tp_at_set_device)
  qed (simp add: c HandleCmd_def HandleCmd_StateChange_def)
qed

lemma StateChange_mirrors:
  assumes "topo_wf tp" "own_report d (StateChange c)" "tp_at tp (dv_taskId d) = Inr j"
  shows "mirrors (HandleCmd_StateChange dds c tp) d"
    and "dv_taskId e \<noteq> dv_taskId d \<Longrightarrow> mirrors tp e \<Longrightarrow> mirrors (HandleCmd_StateChange dds c tp) e"
proof -
  let ?tp = "tp_set_device j ((tp_device tp j)\<lparr>ds_lastState := sc_lastState c, ds_state := sc_currentState c\<rparr>) tp"
  have c: "sc_taskId c = dv_taskId d" "sc_lastState c = dv_lastState d" "sc_currentState c = dv_currentState d"
    using assms(2) by (simp_all add: own_report_def)
  note at = tp_at_set_device
  have s: "same_states ?tp (HandleCmd_StateChange dds c tp)" by (rule StateChange_states) (simp add: c assms(3))
  have j: "j < length (tp_stateData tp)" using tp_at_less [OF assms(3)] by simp
  have "mirrors ?tp d" using assms(3) j by (simp add: mirrors_def at) (simp add: tp_set_device_def c)
  then show "mirrors (HandleCmd_StateChange dds c tp) d" by (rule mirrors_same_states [OF s])
  assume e: "dv_taskId e \<noteq> dv_taskId d" "mirrors tp e"
  obtain k where k: "tp_at tp (dv_taskId e) = Inr k" "ds_state (tp_device tp k) = dv_currentState e"
    "ds_lastState (tp_device tp k) = dv_lastState e" using e(2) unfolding mirrors_def by blast
  have "k \<noteq> j" using tp_at_inj [OF assms(1)] k(1) assms(3) e(1) by metis
  then have "mirrors ?tp e" using k by (simp add: mirrors_def at) (simp add: tp_set_device_def)
  then show "mirrors (HandleCmd_StateChange dds c tp) e" by (rule mirrors_same_states [OF s])
qed

lemma HandleCmd_mirrors:
  assumes "topo_wf tp" "own_report d cmd" "tp_at tp (dv_taskId d) = Inr j"
    and "mirrors tp e" and "dv_taskId e = dv_taskId d \<Longrightarrow> e = d"
  shows "mirrors (fst (HandleCmd dds cmd tp)) e"
proof (cases "\<exists>c. cmd = StateChange c")
  case False
  then show ?thesis using mirrors_same_states [OF HandleCmd_other_states assms(4)] by blast
next
  case True
  then obtain c where c: "cmd = StateChange c" by blast
  from StateChange_mirrors [OF assms(1) assms(2) [unfolded c] assms(3)] assms(4,5) show ?thesis
    by (cases "dv_taskId e = dv_taskId d") (auto simp: c HandleCmd_def)
qed

lemma HandleCmd_wf: "topo_wf tp \<Longrightarrow> topo_wf (fst (HandleCmd dds cmd tp))"
  using HandleCmds_ok [of tp dds "[cmd]"] by (auto simp: topo_step_ok_def split: prod.splits option.splits)

lemma HandleCmds_mirrors:
  assumes "topo_wf tp" "\<forall>cmd \<in> set cmds. own_report d cmd" "tp_at tp (dv_taskId d) = Inr j"
    and "mirrors tp e" and "dv_taskId e = dv_taskId d \<Longrightarrow> e = d"
  shows "mirrors (fst (HandleCmds dds cmds tp)) e"
  using assms
proof (induction cmds arbitrary: tp)
  case (Cons cmd cmds)
  obtain tp1 x where 1: "HandleCmd dds cmd tp = (tp1, x)" by fastforce
  have o: "own_report d cmd" using Cons.prems(2) by simp
  have m: "mirrors tp1 e" "topo_wf tp1" "tp_at tp1 (dv_taskId d) = Inr j"
    using HandleCmd_mirrors [OF Cons.prems(1) o Cons.prems(3,4,5), of dds] HandleCmd_wf [OF Cons.prems(1), of dds cmd]
      HandleCmd_at [of dds cmd tp] Cons.prems(3) 1 by simp_all
  show ?case using Cons.IH [OF m(2) _ m(3,1) Cons.prems(5)] Cons.prems(2) m(1)
    by (cases x) (simp_all add: 1)
qed simp

lemma HandleCmds_at: "tp_at (fst (HandleCmds dds cmds tp)) t = tp_at tp t"
proof (induction cmds arbitrary: tp)
  case (Cons cmd cmds)
  obtain tp1 x where 1: "HandleCmd dds cmd tp = (tp1, x)" by fastforce
  then show ?case using HandleCmd_at [of dds cmd tp t] Cons by (cases x) simp_all
qed simp

lemma HandleCmds_wf: "topo_wf tp \<Longrightarrow> topo_wf (fst (HandleCmds dds cmds tp))"
  using HandleCmds_ok [of tp dds cmds] by (simp add: topo_step_ok_def)

lemma deliver_mirrors:
  assumes "topo_wf tp" "\<forall>cmds \<in> set msgs. \<forall>cmd \<in> set cmds. own_report d cmd" "tp_at tp (dv_taskId d) = Inr j"
    and "mirrors tp e" and "dv_taskId e = dv_taskId d \<Longrightarrow> e = d"
  shows "mirrors (deliver dds msgs tp) e"
  using assms
proof (induction msgs arbitrary: tp)
  case (Cons cmds msgs)
  let ?tp = "fst (HandleCmds dds cmds tp)"
  have "mirrors ?tp e" using HandleCmds_mirrors [OF Cons.prems(1) _ Cons.prems(3,4,5)] Cons.prems(2) by simp
  from Cons.IH [OF HandleCmds_wf [OF Cons.prems(1)] _ _ this Cons.prems(5)] Cons.prems(2,3)
  show ?case by (simp add: deliver_def HandleCmds_at)
qed (simp add: deliver_def)

lemma deliver_at: "tp_at (deliver dds msgs tp) t = tp_at tp t"
  by (induction msgs arbitrary: tp) (simp_all add: deliver_def HandleCmds_at)

lemma deliver_wf: "topo_wf tp \<Longrightarrow> topo_wf (deliver dds msgs tp)"
  by (induction msgs arbitrary: tp) (simp_all add: deliver_def HandleCmds_wf)

section \<open>Steps of the network\<close>

text \<open>A device whose subscription by the controller is in force, with the controller's interval.\<close>

definition subscribed_dev :: "u64 \<Rightarrow> device \<Rightarrow> bool" where
  "subscribed_dev ctl d \<longleftrightarrow> distinct_keys (dv_subscribers d) \<and>
     (\<exists>t \<ge> 0. map_of (dv_subscribers d) ctl = Some (t, 600000))"

text \<open>Commands the controller sends to a device it stays subscribed to.\<close>

definition keeps_subscription :: "Cmd \<Rightarrow> bool" where
  "keeps_subscription cmd \<longleftrightarrow> cmd \<noteq> UnsubscribeFromStateChange \<and>
     (\<forall>h. cmd = SubscriptionHeartbeat h \<longrightarrow> hb_interval h = 600000)"

definition quiet_step :: "u64 \<Rightarrow> device \<Rightarrow> device \<Rightarrow> bool" where
  "quiet_step ctl d d' \<longleftrightarrow> dv_taskId d' = dv_taskId d \<and> dv_currentState d' = dv_currentState d \<and>
     dv_lastState d' = dv_lastState d \<and>
     (\<exists>xs. dv_out d' = dv_out d @ xs \<and> (\<forall>cmds \<in> set (messages_to ctl xs). \<forall>cmd \<in> set cmds. own_report d cmd))"

lemma quiet_step_refl [simp]: "quiet_step ctl d d"
  by (simp add: quiet_step_def)

lemma quiet_step_trans: "quiet_step ctl a b \<Longrightarrow> quiet_step ctl b c \<Longrightarrow> quiet_step ctl a c"
  unfolding quiet_step_def own_report_def by auto

lemma quiet_step_emit:
  "(\<forall>cmds \<in> set (messages_to ctl xs). \<forall>cmd \<in> set cmds. own_report d cmd) \<Longrightarrow> quiet_step ctl d (emit xs d)"
  "quiet_step ctl d d' \<Longrightarrow> quiet_step ctl d (d'\<lparr>dv_subscribers := s\<rparr>)"
  by (simp_all add: quiet_step_def)

lemma own_report_simps [simp]: "own_report d (state_change_cmd i d)"
  by (simp add: own_report_def state_change_cmd_def)

lemma HandleDeviceCmd_quiet: "quiet_step ctl d (HandleDeviceCmd api now s cmd d)"
  unfolding quiet_step_def own_report_def HandleDeviceCmd_def state_change_cmd_def
  by (cases cmd) (simp_all add: Let_def split: sum.split)

lemma HandleDeviceCmd_subscribed:
  assumes "subscribed_dev ctl d" "keeps_subscription cmd" "0 \<le> now"
  shows "subscribed_dev ctl (HandleDeviceCmd api now ctl cmd d)"
  using assms unfolding subscribed_dev_def HandleDeviceCmd_def keeps_subscription_def
  by (cases cmd) (auto simp: Let_def update_conv' split: sum.split intro: inv_intros)

lemma HandleDeviceCmds_quiet: "quiet_step ctl d (fold (HandleDeviceCmd api now s) cmds d)"
  by (induction cmds arbitrary: d) (auto intro: quiet_step_trans [OF HandleDeviceCmd_quiet])

lemma HandleDeviceCmds_subscribed:
  assumes "subscribed_dev ctl d" "\<forall>cmd \<in> set cmds. keeps_subscription cmd" "0 \<le> now"
  shows "subscribed_dev ctl (fold (HandleDeviceCmd api now ctl) cmds d)"
  using assms by (induction cmds arbitrary: d) (simp_all add: HandleDeviceCmd_subscribed)

definition net_ok :: "u64 \<Rightarrow> network \<Rightarrow> bool" where
  "net_ok ctl nw \<longleftrightarrow> topo_wf (nw_tp nw) \<and> distinct (map dv_taskId (nw_devs nw)) \<and>
     (\<forall>d \<in> set (nw_devs nw). mirrors (nw_tp nw) d \<and> subscribed_dev ctl d)"

text \<open>The events of a run in which the controller's heartbeats are recent enough and no device exits.\<close>

fun event_ok :: "network \<Rightarrow> net_event \<Rightarrow> bool" where
  "event_ok nw (DevCommands k now cmds) \<longleftrightarrow> k < length (nw_devs nw) \<and> 0 \<le> now \<and> (\<forall>cmd \<in> set cmds. keeps_subscription cmd)"
| "event_ok nw (DevChange k now st) \<longleftrightarrow> k < length (nw_devs nw) \<and> now \<le> 3 * 600000 * 1000000000 \<and> st \<noteq> Exiting"

lemma dev_step_ok:
  assumes "net_ok ctl nw" "k < length (nw_devs nw)" "f (nw_devs nw ! k) = d'"
    and "dv_taskId d' = dv_taskId (nw_devs nw ! k)" "subscribed_dev ctl d'"
    and "mirrors (deliver dds (answers ctl (nw_devs nw ! k) d') (nw_tp nw)) d'"
    and "\<forall>cmds \<in> set (answers ctl (nw_devs nw ! k) d'). \<forall>cmd \<in> set cmds. own_report d' cmd"
  shows "net_ok ctl (dev_step ctl dds k f nw)"
proof -
  let ?ds = "nw_devs nw" and ?tp = "deliver dds (answers ctl (nw_devs nw ! k) d') (nw_tp nw)"
  have wf: "topo_wf (nw_tp nw)" and dist: "distinct (map dv_taskId ?ds)"
    and m: "\<And>d. d \<in> set ?ds \<Longrightarrow> mirrors (nw_tp nw) d \<and> subscribed_dev ctl d"
    using assms(1) by (auto simp: net_ok_def)
  have ids: "map dv_taskId (?ds[k := d']) = map dv_taskId ?ds"
    using assms(2,4) by (simp add: map_update list_update_same_conv)
  obtain j where j: "tp_at (nw_tp nw) (dv_taskId d') = Inr j"
    using m [OF nth_mem [OF assms(2)]] assms(4) by (auto simp: mirrors_def)
  have "mirrors ?tp (?ds[k := d'] ! i) \<and> subscribed_dev ctl (?ds[k := d'] ! i)" if i: "i < length ?ds" for i
  proof (cases "i = k")
    case True
    then show ?thesis using assms(5,6) i by simp
  next
    case False
    have "dv_taskId (?ds ! i) \<noteq> dv_taskId d'"
      using dist assms(2,4) i False by (simp add: distinct_conv_nth)
    then have "mirrors ?tp (?ds ! i)"
      using deliver_mirrors [OF wf assms(7) j] m [OF nth_mem [OF i]] by simp
    then show ?thesis using m [OF nth_mem [OF i]] False by simp
  qed
  then have "\<forall>d \<in> set (?ds[k := d']). mirrors ?tp d \<and> subscribed_dev ctl d"
    by (metis in_set_conv_nth length_list_update)
  then show ?thesis
    using deliver_wf [OF wf] dist ids by (simp add: net_ok_def dev_step_def Let_def assms(3))
qed

lemma own_report_cong:
  "dv_taskId d' = dv_taskId d \<Longrightarrow> dv_currentState d' = dv_currentState d \<Longrightarrow> dv_lastState d' = dv_lastState d \<Longrightarrow>
     own_report d' cmd = own_report d cmd \<and> mirrors tp d' = mirrors tp d"
  by (simp add: own_report_def mirrors_def)

lemma onDeviceStateChange_out: "\<exists>xs. dv_out (fst (onDeviceStateChange api now st d)) = dv_out d @ xs"
proof -
  have "\<exists>xs. dv_out (enter_state api st d) = dv_out d @ xs"
    using FillChannelContainers_same [of d api]
    by (simp add: enter_state_def PublishBoundChannels_def EmptyChannelContainers_def same_device_def)
  then show ?thesis by (auto simp: onDeviceStateChange_def Let_def split: sum.split)
qed

lemma subscribed_live: "subscribed_dev ctl d \<Longrightarrow> now \<le> 3 * 600000 * 1000000000 \<Longrightarrow> live_subscriber now ctl d"
  by (auto simp: subscribed_dev_def live_subscriber_def heartbeat_expired_def)

lemma net_step_ok:
  assumes "net_ok ctl nw" "event_ok nw ev" and api: "\<And>k. \<exists>i. pl_get (api k) ''id'' = Inr i"
  shows "net_ok ctl (net_step ctl dds api ev nw)"
proof (cases ev)
  case (DevCommands k now cmds)
  let ?d = "nw_devs nw ! k" and ?d' = "fold (HandleDeviceCmd (api k) now ctl) cmds (nw_devs nw ! k)"
  have k: "k < length (nw_devs nw)" "0 \<le> now" "\<forall>cmd \<in> set cmds. keeps_subscription cmd"
    using assms(2) DevCommands by auto
  have d: "mirrors (nw_tp nw) ?d" "subscribed_dev ctl ?d" "topo_wf (nw_tp nw)"
    using assms(1) k(1) by (simp_all add: net_ok_def)
  have q: "quiet_step ctl ?d ?d'" by (rule HandleDeviceCmds_quiet)
  have ans: "\<forall>cmds \<in> set (answers ctl ?d ?d'). \<forall>cmd \<in> set cmds. own_report ?d' cmd"
    using q own_report_cong [of ?d' ?d] unfolding quiet_step_def answers_def by auto
  obtain j where j: "tp_at (nw_tp nw) (dv_taskId ?d') = Inr j"
    using d(1) q by (auto simp: mirrors_def quiet_step_def)
  have "mirrors (nw_tp nw) ?d'" using d(1) q own_report_cong [of ?d' ?d] by (simp add: quiet_step_def)
  then have "mirrors (deliver dds (answers ctl ?d ?d') (nw_tp nw)) ?d'"
    by (intro deliver_mirrors [OF d(3) ans j]) simp_all
  then show ?thesis
    using dev_step_ok [OF assms(1) k(1) refl] q HandleDeviceCmds_subscribed [OF d(2) k(3,2)] ans
    by (simp add: DevCommands quiet_step_def)
next
  case (DevChange k now st)
  let ?d = "nw_devs nw ! k" and ?d' = "fst (onDeviceStateChange (api k) now st (nw_devs nw ! k))"
  have k: "k < length (nw_devs nw)" "now \<le> 3 * 600000 * 1000000000" "st \<noteq> Exiting" using assms(2) DevChange by auto
  have d: "mirrors (nw_tp nw) ?d" "subscribed_dev ctl ?d" "topo_wf (nw_tp nw)"
    using assms(1) k(1) by (simp_all add: net_ok_def)
  obtain i where i: "pl_get (api k) ''id'' = Inr i" using api by blast
  have dk: "distinct_keys (dv_subscribers ?d)" using d(2) by (simp add: subscribed_dev_def)
  note st = onDeviceStateChange_step [OF i k(3) dk subscribed_live [OF d(2) k(2)]]
  let ?c = "\<lparr>sc_deviceId = i, sc_taskId = dv_taskId ?d, sc_lastState = dv_currentState ?d, sc_currentState = st\<rparr>"
  obtain xs where "dv_out ?d' = dv_out ?d @ xs" using onDeviceStateChange_out by blast
  then have ans: "answers ctl ?d ?d' = [[StateChange ?c]]" using st(6) by (simp add: answers_def)
  have own: "own_report ?d' (StateChange ?c)" by (simp add: own_report_def st)
  obtain j where j: "tp_at (nw_tp nw) (dv_taskId ?d') = Inr j" using d(1) st(5) by (auto simp: mirrors_def)
  have "mirrors (deliver dds (answers ctl ?d ?d') (nw_tp nw)) ?d'"
    using StateChange_mirrors(1) [OF d(3) own j] by (simp add: ans deliver_def HandleCmd_def)
  moreover have "subscribed_dev ctl ?d'" using d(2) st(1,2) by (simp add: subscribed_dev_def)
  ultimately show ?thesis
    using dev_step_ok [OF assms(1) k(1) refl] st(5) own by (simp add: DevChange ans)
qed

lemma net_step_devs: "length (nw_devs (net_step ctl dds api ev nw)) = length (nw_devs nw)"
  by (cases ev) (simp_all add: dev_step_def Let_def)

lemma event_ok_cong: "length (nw_devs nw) = length (nw_devs nw') \<Longrightarrow> event_ok nw ev = event_ok nw' ev"
  by (cases ev) simp_all

lemma net_run_ok:
  assumes "net_ok ctl nw" "\<forall>ev \<in> set evs. event_ok nw ev" "\<And>k. \<exists>i. pl_get (api k) ''id'' = Inr i"
  shows "net_ok ctl (fold (net_step ctl dds api) evs nw)"
  using assms
proof (induction evs arbitrary: nw)
  case (Cons ev evs)
  have "net_ok ctl (net_step ctl dds api ev nw)" using Cons.prems(1,2,3) by (intro net_step_ok) simp_all
  then show ?case
    using Cons.IH [OF _ _ Cons.prems(3)] Cons.prems(2) event_ok_cong [OF net_step_devs [of ctl dds api ev nw]] by simp
qed simp

section \<open>Subscribing\<close>

text \<open>The controller's subscription message answered by one device.\<close>

lemma subscription_answer:
  fixes api :: plugin_api
  assumes "distinct_keys (dv_subscribers d)" "map_of (dv_subscribers d) ctl = None" "0 \<le> now"
  defines "d' \<equiv> HandleDeviceCmd api now ctl (SubscribeToStateChange \<lparr>sub_interval = 600000\<rparr>) d"
  shows "answers ctl d d' = [[StateChangeSubscription \<lparr>scs_deviceId = dv_id d, scs_taskId = dv_taskId d, scs_result = Result_Ok\<rparr>,
       StateChange \<lparr>sc_deviceId = dv_id d, sc_taskId = dv_taskId d, sc_lastState = dv_lastState d,
          sc_currentState = dv_currentState d\<rparr>]]"
    and "subscribed_dev ctl d'" and "dv_taskId d' = dv_taskId d" "dv_currentState d' = dv_currentState d"
    and "dv_lastState d' = dv_lastState d"
proof -
  have "sint (600000 :: 64 word) = 600000" by simp
  then show "subscribed_dev ctl d'"
    using assms(1-3) by (simp add: d'_def subscribed_dev_def HandleDeviceCmd_def Let_def inv_intros)
qed (simp_all add: d'_def answers_def HandleDeviceCmd_def Let_def state_change_cmd_def)

definition subscribe_entry :: "device \<Rightarrow> DeviceStatus \<Rightarrow> DeviceStatus" where
  "subscribe_entry d e = e\<lparr>ds_subscribed := True, ds_lastState := dv_lastState d, ds_state := dv_currentState d\<rparr>"

lemma subscription_delivered:
  assumes "tp_at tp (dv_taskId d) = Inr j" "dv_currentState d \<noteq> Error" "dv_currentState d \<noteq> Exiting"
    and "sc_taskId c = dv_taskId d" "sc_lastState c = dv_lastState d" "sc_currentState c = dv_currentState d"
    and "scs_taskId b = dv_taskId d" "scs_result b = Result_Ok"
  shows "tp_stateData (deliver dds [[StateChangeSubscription b, StateChange c]] tp)
     = (tp_stateData tp)[j := subscribe_entry d (tp_device tp j)]"
proof -
  let ?tp = "HandleCmd_StateChangeSubscription b tp"
  have j: "j < length (tp_stateData tp)" using tp_at_less [OF assms(1)] by simp
  have d1: "tp_stateData ?tp = (tp_stateData tp)[j := (tp_device tp j)\<lparr>ds_subscribed := True\<rparr>]"
  proof (cases "ds_subscribed (tp_device tp j)")
    case True
    then have "(tp_device tp j)\<lparr>ds_subscribed := True\<rparr> = tp_device tp j" by (cases "tp_device tp j") simp
    with True show ?thesis using assms(1,7,8) by (simp only: HandleCmd_StateChangeSubscription_def) simp
  next
    case False
    then show ?thesis using assms(1,7,8) by (simp add: HandleCmd_StateChangeSubscription_def tp_set_device_def)
  qed
  have at: "tp_at ?tp (sc_taskId c) = Inr j"
    using same_states_at [OF same_states_Subscription] assms(1,4) by simp
  have "tp_stateData (HandleCmd_StateChange dds c ?tp) = (tp_stateData tp)[j := subscribe_entry d (tp_device tp j)]"
    using HandleCmd_StateChange_healthy [OF at, of dds] assms(2-6) j
    by (simp add: tp_set_device_def update_ws_ops_def update_cs_ops_def d1 subscribe_entry_def)
  then show ?thesis by (simp add: deliver_def HandleCmd_def)
qed

text \<open>The controller and its devices after the devices at the positions \<open>K\<close> have answered.\<close>

definition answered :: "u64 \<Rightarrow> network \<Rightarrow> nat set \<Rightarrow> network \<Rightarrow> bool" where
  "answered ctl nw0 K nw \<longleftrightarrow> topo_wf (nw_tp nw) \<and> length (nw_devs nw) = length (nw_devs nw0) \<and>
     map dv_taskId (nw_devs nw) = map dv_taskId (nw_devs nw0) \<and> (\<forall>t. tp_at (nw_tp nw) t = tp_at (nw_tp nw0) t) \<and>
     length (tp_stateData (nw_tp nw)) = length (tp_stateData (nw_tp nw0)) \<and>
     (\<forall>k < length (nw_devs nw0). if k \<in> K
        then subscribed_dev ctl (nw_devs nw ! k) \<and> mirrors (nw_tp nw) (nw_devs nw ! k) \<and>
          dv_currentState (nw_devs nw ! k) = dv_currentState (nw_devs nw0 ! k) \<and>
          (\<forall>j. tp_at (nw_tp nw) (dv_taskId (nw_devs nw ! k)) = Inr j \<longrightarrow> ds_subscribed (tp_device (nw_tp nw) j))
        else nw_devs nw ! k = nw_devs nw0 ! k)"

definition fresh_device :: "u64 \<Rightarrow> topology \<Rightarrow> device \<Rightarrow> bool" where
  "fresh_device ctl tp d \<longleftrightarrow> distinct_keys (dv_subscribers d) \<and> map_of (dv_subscribers d) ctl = None \<and>
     dv_currentState d \<noteq> Error \<and> dv_currentState d \<noteq> Exiting \<and> (\<exists>j. tp_at tp (dv_taskId d) = Inr j)"

abbreviation "subscription \<equiv> [SubscribeToStateChange \<lparr>sub_interval = 600000\<rparr>]"

lemma answered_step:
  assumes a: "answered ctl nw0 K nw" and k: "k < length (nw_devs nw0)" "k \<notin> K" "0 \<le> now"
    and fresh: "fresh_device ctl (nw_tp nw0) (nw_devs nw0 ! k)" and dist: "distinct (map dv_taskId (nw_devs nw0))"
  shows "answered ctl nw0 (insert k K) (net_step ctl dds api (DevCommands k now subscription) nw)"
proof -
  let ?d = "nw_devs nw ! k" and ?tp = "nw_tp nw"
  let ?d' = "HandleDeviceCmd (api k) now ctl (SubscribeToStateChange \<lparr>sub_interval = 600000\<rparr>) ?d"
  let ?tp' = "deliver dds (answers ctl ?d ?d') ?tp"
  have d: "?d = nw_devs nw0 ! k" using a k unfolding answered_def by simp
  have len: "length (nw_devs nw) = length (nw_devs nw0)" "topo_wf ?tp" "\<And>t. tp_at ?tp t = tp_at (nw_tp nw0) t"
    "map dv_taskId (nw_devs nw) = map dv_taskId (nw_devs nw0)"
    using a by (simp_all add: answered_def)
  have f: "distinct_keys (dv_subscribers ?d)" "map_of (dv_subscribers ?d) ctl = None"
    "dv_currentState ?d \<noteq> Error" "dv_currentState ?d \<noteq> Exiting"
    using fresh by (simp_all add: d fresh_device_def)
  obtain j where j: "tp_at ?tp (dv_taskId ?d) = Inr j" using fresh len(3) by (auto simp: d fresh_device_def)
  note ans = subscription_answer [OF f(1,2) k(3), of "api k"]
  have data: "tp_stateData ?tp' = (tp_stateData ?tp)[j := subscribe_entry ?d (tp_device ?tp j)]"
    unfolding ans(1) by (rule subscription_delivered [OF j f(3,4)]) simp_all
  have jl: "j < length (tp_stateData ?tp)" using tp_at_less [OF j] by simp
  have at: "tp_at ?tp' t = tp_at ?tp t" for t by (rule deliver_at)
  have nw': "net_step ctl dds api (DevCommands k now subscription) nw = nw\<lparr>nw_tp := ?tp', nw_devs := (nw_devs nw)[k := ?d']\<rparr>"
    by (simp add: dev_step_def Let_def)
  have own: "subscribed_dev ctl ?d' \<and> mirrors ?tp' ?d' \<and> dv_currentState ?d' = dv_currentState (nw_devs nw0 ! k) \<and>
      (\<forall>j. tp_at ?tp' (dv_taskId ?d') = Inr j \<longrightarrow> ds_subscribed (tp_device ?tp' j))"
    using ans(2-5) j jl by (simp add: mirrors_def at data d [symmetric] subscribe_entry_def)
  have other: "tp_device ?tp' i = tp_device ?tp i" if "tp_at ?tp (dv_taskId (nw_devs nw ! l)) = Inr i" "l \<noteq> k" "l < length (nw_devs nw0)" for i l
  proof -
    have "dv_taskId (nw_devs nw ! l) \<noteq> dv_taskId ?d"
      using dist that(2,3) k(1) len(1,4) by (metis nth_eq_iff_index_eq length_map nth_map)
    then have "i \<noteq> j" using tp_at_inj [OF len(2) that(1)] j by metis
    then show ?thesis by (simp add: data)
  qed
  have rest: "if l \<in> K
      then subscribed_dev ctl (nw_devs nw ! l) \<and> mirrors ?tp' (nw_devs nw ! l) \<and>
        dv_currentState (nw_devs nw ! l) = dv_currentState (nw_devs nw0 ! l) \<and>
        (\<forall>i. tp_at ?tp' (dv_taskId (nw_devs nw ! l)) = Inr i \<longrightarrow> ds_subscribed (tp_device ?tp' i))
      else nw_devs nw ! l = nw_devs nw0 ! l" if l: "l < length (nw_devs nw0)" "l \<noteq> k" for l
  proof (cases "l \<in> K")
    case True
    then have L: "subscribed_dev ctl (nw_devs nw ! l)" "mirrors ?tp (nw_devs nw ! l)"
      "dv_currentState (nw_devs nw ! l) = dv_currentState (nw_devs nw0 ! l)"
      "\<And>i. tp_at ?tp (dv_taskId (nw_devs nw ! l)) = Inr i \<Longrightarrow> ds_subscribed (tp_device ?tp i)"
      using a l unfolding answered_def by auto
    show ?thesis using True L other [OF _ l(2,1)] by (auto simp: mirrors_def at)
  qed (use a l in \<open>simp add: answered_def\<close>)
  have ids: "map dv_taskId ((nw_devs nw)[k := ?d']) = map dv_taskId (nw_devs nw0)"
    using k(1) len(1,4) ans(3) by (simp add: map_update list_update_same_conv flip: len(4))
  have "length (tp_stateData ?tp') = length (tp_stateData (nw_tp nw0))" using a by (simp add: data answered_def)
  then show ?thesis
    unfolding nw' answered_def using deliver_wf [OF len(2)] len(1,3) at ids own rest k(1)
    by (auto simp: nth_list_update)
qed

lemma answered_run:
  assumes "answered ctl nw0 K nw" "distinct (map fst ks)" "fst ` set ks \<inter> K = {}"
    and "\<forall>(k, now) \<in> set ks. k < length (nw_devs nw0) \<and> 0 \<le> now"
    and "\<forall>d \<in> set (nw_devs nw0). fresh_device ctl (nw_tp nw0) d" and "distinct (map dv_taskId (nw_devs nw0))"
  shows "answered ctl nw0 (K \<union> fst ` set ks)
     (fold (net_step ctl dds api) (map (\<lambda>(k, now). DevCommands k now subscription) ks) nw)"
  using assms(1-4)
proof (induction ks arbitrary: K nw)
  case (Cons e ks)
  obtain k now where e: "e = (k, now)" by fastforce
  have k: "k < length (nw_devs nw0)" "k \<notin> K" "0 \<le> now" using Cons.prems(3,4) e by auto
  have "fresh_device ctl (nw_tp nw0) (nw_devs nw0 ! k)" using assms(5) k(1) by simp
  from Cons.IH [OF answered_step [OF Cons.prems(1) k this assms(6)]] Cons.prems(2-4) e
  show ?case by auto
qed simp

lemma answered_all:
  assumes "answered ctl nw0 {..<length (nw_devs nw0)} nw" "distinct (map dv_taskId (nw_devs nw0))"
    and "length (nw_devs nw0) = length (tp_stateData (nw_tp nw0))"
  shows "net_ok ctl nw" and "unat (tp_publishers (nw_tp nw)) = length (nw_devs nw0)"
proof -
  let ?tp = "nw_tp nw" and ?n = "length (nw_devs nw0)"
  have a: "topo_wf ?tp" "map dv_taskId (nw_devs nw) = map dv_taskId (nw_devs nw0)" "length (nw_devs nw) = ?n"
    "length (tp_stateData ?tp) = ?n"
    "\<And>k. k < ?n \<Longrightarrow> subscribed_dev ctl (nw_devs nw ! k) \<and> mirrors ?tp (nw_devs nw ! k) \<and>
       (\<forall>j. tp_at ?tp (dv_taskId (nw_devs nw ! k)) = Inr j \<longrightarrow> ds_subscribed (tp_device ?tp j))"
    using assms(1,3) by (auto simp: answered_def)
  have "\<forall>d \<in> set (nw_devs nw). mirrors ?tp d \<and> subscribed_dev ctl d" using a(3,5) by (metis in_set_conv_nth)
  then show "net_ok ctl nw" using a(1,2) assms(2) by (simp add: net_ok_def)
  have ex: "\<exists>j. tp_at ?tp (dv_taskId (nw_devs nw ! k)) = Inr j" if "k < ?n" for k
    using a(5) [OF that] by (auto simp: mirrors_def)
  then obtain pos where pos: "\<And>k. k < ?n \<Longrightarrow> tp_at ?tp (dv_taskId (nw_devs nw ! k)) = Inr (pos k)" by metis
  have inj: "inj_on pos {..<?n}"
  proof (rule inj_onI)
    fix k l assume kl: "k \<in> {..<?n}" "l \<in> {..<?n}" "pos k = pos l"
    then have "dv_taskId (nw_devs nw ! k) = dv_taskId (nw_devs nw ! l)"
      using pos [of k] pos [of l] tp_at_inj [OF a(1)] by simp
    then show "k = l"
      using kl a(2,3) assms(2) by (metis distinct_conv_nth length_map lessThan_iff nth_map)
  qed
  have "pos ` {..<?n} \<subseteq> {..<?n}" using pos tp_at_less a(4) by fastforce
  then have "pos ` {..<?n} = {..<?n}" using inj by (simp add: endo_inj_surj)
  then have "ds_subscribed (tp_device ?tp j)" if j: "j < ?n" for j
  proof -
    obtain k where "k < ?n" "j = pos k" using \<open>pos ` {..<?n} = {..<?n}\<close> j by (metis imageE lessThan_iff)
    then show ?thesis using a(5) [of k] pos [of k] by simp
  qed
  then have "filter ds_subscribed (tp_stateData ?tp) = tp_stateData ?tp"
    using a(4) by (auto simp: filter_id_conv in_set_conv_nth)
  then show "unat (tp_publishers ?tp) = ?n" using a(1,4) by (simp add: topo_wf_def)
qed

lemma tp_new_sends: "tp_sent (tp_new dds X ci) = [(subscription, '''')]"
  by (simp add: tp_new_def SubscribeToStateChanges_def tp_send_def split_def Let_def)

lemma new_network_answered:
  assumes "distinct (map fst (rt_tasks dds))" "length (rt_tasks dds) < 2 ^ 32" "nw_tp nw0 = tp_new dds X ci"
  shows "answered ctl nw0 {} nw0"
  using tp_new_wf [OF assms(1,2)] assms(3) by (simp add: answered_def)

lemma tp_new_entries:
  assumes "distinct (map fst (rt_tasks dds))"
  shows "length (tp_stateData (tp_new dds X ci)) = length (rt_tasks dds)"
    and "t \<in> fst ` set (rt_tasks dds) \<Longrightarrow> \<exists>j. tp_at (tp_new dds X ci) t = Inr j"
proof -
  have i: "init_devices X (rt_tasks dds) 0 ([], []) =
      (map (\<lambda>(i, c). new_DeviceStatus (i \<in> X) i c) (rt_tasks dds), zip (map fst (rt_tasks dds)) [0..<length (rt_tasks dds)])"
    using init_devices_spec [OF assms, of "[]" X 0 "[]"] by simp
  show "length (tp_stateData (tp_new dds X ci)) = length (rt_tasks dds)"
    by (simp add: tp_new_def i SubscribeToStateChanges_def tp_send_def)
  assume "t \<in> fst ` set (rt_tasks dds)"
  then obtain k where k: "k < length (rt_tasks dds)" "map fst (rt_tasks dds) ! k = t"
    by (metis in_set_conv_nth length_map list.set_map)
  have "map_of (zip (map fst (rt_tasks dds)) [0..<length (rt_tasks dds)]) t = Some k"
    using map_of_zip_nth [of "map fst (rt_tasks dds)" "[0..<length (rt_tasks dds)]" k] assms k by simp
  then show "\<exists>j. tp_at (tp_new dds X ci) t = Inr j"
    using k(1) by (simp add: tp_at_def tp_new_def i SubscribeToStateChanges_def tp_send_def)
qed

text \<open>The network of a new topology; \<open>ks\<close> says in which order and when the devices get its message.\<close>

definition subscribe_all :: "u64 \<Rightarrow> dds_topo \<Rightarrow> (nat \<Rightarrow> plugin_api) \<Rightarrow> (nat \<times> int) list \<Rightarrow> topology \<Rightarrow> device list \<Rightarrow> network" where
  "subscribe_all ctl dds api ks tp devs =
     fold (net_step ctl dds api) (map (\<lambda>(k, now). DevCommands k now (concat (map fst (tp_sent tp)))) ks)
       \<lparr>nw_tp = tp, nw_devs = devs\<rparr>"

definition devices_of :: "u64 \<Rightarrow> dds_topo \<Rightarrow> device list \<Rightarrow> bool" where
  "devices_of ctl dds devs \<longleftrightarrow> distinct (map fst (rt_tasks dds)) \<and> length (rt_tasks dds) < 2 ^ 32 \<and>
     mset (map dv_taskId devs) = mset (map fst (rt_tasks dds)) \<and>
     (\<forall>d \<in> set devs. distinct_keys (dv_subscribers d) \<and> map_of (dv_subscribers d) ctl = None \<and>
        dv_currentState d \<notin> {Error, Exiting})"

definition order_of :: "(nat \<times> int) list \<Rightarrow> device list \<Rightarrow> bool" where
  "order_of ks devs \<longleftrightarrow> distinct (map fst ks) \<and> fst ` set ks = {..<length devs} \<and> (\<forall>(k, now) \<in> set ks. 0 \<le> now)"

lemma subscribe_all_ok:
  fixes api :: "nat \<Rightarrow> plugin_api" and X :: "task_id set" and ci :: "(string \<times> CollectionInfo) list"
  assumes "devices_of ctl dds devs" "order_of ks devs"
  defines "nw \<equiv> subscribe_all ctl dds api ks (tp_new dds X ci) devs"
  shows "net_ok ctl nw" and "unat (tp_publishers (nw_tp nw)) = length (rt_tasks dds)" and "length (nw_devs nw) = length devs"
    and "map dv_taskId (nw_devs nw) = map dv_taskId devs"
proof -
  let ?tp = "tp_new dds X ci" and ?nw0 = "\<lparr>nw_tp = tp_new dds X ci, nw_devs = devs\<rparr>"
  have dist: "distinct (map fst (rt_tasks dds))" "length (rt_tasks dds) < 2 ^ 32"
    and perm: "mset (map dv_taskId devs) = mset (map fst (rt_tasks dds))"
    using assms(1) by (simp_all add: devices_of_def)
  have ids: "distinct (map dv_taskId devs)" "length devs = length (rt_tasks dds)"
    "dv_taskId ` set devs = fst ` set (rt_tasks dds)"
    using mset_eq_imp_distinct_iff [OF perm] dist(1) arg_cong [OF perm, of size] arg_cong [OF perm, of set_mset]
    by (simp_all only: set_mset_mset list.set_map size_mset length_map)
  have "fresh_device ctl ?tp d" if "d \<in> set devs" for d
  proof -
    have "dv_taskId d \<in> fst ` set (rt_tasks dds)" using ids(3) that by blast
    from tp_new_entries(2) [OF dist(1) this] show ?thesis
      using assms(1) that by (simp add: fresh_device_def devices_of_def)
  qed
  moreover have "k < length devs \<and> 0 \<le> now" if "(k, now) \<in> set ks" for k now
    using assms(2) that unfolding order_of_def by (metis (no_types, lifting) case_prodD fst_conv image_eqI lessThan_iff)
  ultimately have "answered ctl ?nw0 ({} \<union> fst ` set ks)
      (fold (net_step ctl dds api) (map (\<lambda>(k, now). DevCommands k now subscription) ks) ?nw0)"
    using assms(2) ids(1) by (intro answered_run new_network_answered [OF dist]) (auto simp: order_of_def)
  then have a: "answered ctl ?nw0 {..<length devs} nw"
    using assms(2) by (simp add: nw_def subscribe_all_def tp_new_sends order_of_def)
  show "net_ok ctl nw" "unat (tp_publishers (nw_tp nw)) = length (rt_tasks dds)" "length (nw_devs nw) = length devs"
    "map dv_taskId (nw_devs nw) = map dv_taskId devs"
    using answered_all [of ctl ?nw0 nw] a ids tp_new_entries(1) [OF dist(1), of X ci] by (simp_all add: answered_def)
qed



section \<open>A sample network\<close>

definition sample_devs :: "device list" where
  "sample_devs = [(new_device sample_api)\<lparr>dv_taskId := 2\<rparr>, (new_device sample_api)\<lparr>dv_taskId := 1\<rparr>]"

lemma sample_devs_facts: "devices_of 99 sample_dds sample_devs" "order_of [(1, 3), (0, 8)] sample_devs"
proof -
  have "dv_subscribers (new_device sample_api) = []" "dv_currentState (new_device sample_api) = Idle" by code_simp+
  then show "devices_of 99 sample_dds sample_devs" by (simp add: devices_of_def sample_devs_def sample_dds_def)
  show "order_of [(1, 3), (0, 8)] sample_devs" by (auto simp: order_of_def sample_devs_def)
qed



end
