(* ===== verification/Network_Change.thy ===== *)
theory Network_Change
  imports ODC_Network
begin

text \<open>
  A change of state across the network: the topology starts the operation (\<^verbatim>\<open>AsyncChangeState\<close> of \<^verbatim>\<open>src/odc/Topology.h\<close>), its
  command reaches the plugins (\<^verbatim>\<open>src/plugins/fmq/ODC.cpp\<close>), the devices pass through their states in any order and at any
  time, some of them fail, and the plugins' messages end the operation. The definitions are those of the two sides.
\<close>

section \<open>Runs in which the devices follow the command\<close>

text \<open>
  A device gets the command and accepts it, or enters a state, Error included. (The clocks are those of
  \<open>topology_mirrors_devices\<close>.)
\<close>

fun heeds :: "mq_transition \<Rightarrow> (nat \<Rightarrow> plugin_api) \<Rightarrow> nat \<Rightarrow> net_event \<Rightarrow> bool" where
  "heeds tr api n (DevCommands k now cmds) \<longleftrightarrow>
     k < n \<and> 0 \<le> now \<and> cmds = [ChangeState \<lparr>chs_transition = tr\<rparr>] \<and> pl_changeState (api k) tr"
| "heeds tr api n (DevChange k now st) \<longleftrightarrow> k < n \<and> now \<le> 3 * 600000 * 1000000000 \<and> st \<noteq> Exiting"

text \<open>The changes of state in a run, by task; and the devices that enter one of some states, as often as they do.\<close>

fun change_of :: "task_id list \<Rightarrow> net_event \<Rightarrow> (task_id \<times> mq_state) list" where
  "change_of ids (DevCommands k now cmds) = []"
| "change_of ids (DevChange k now st) = [(ids ! k, st)]"

fun enters :: "mq_state set \<Rightarrow> net_event \<Rightarrow> nat list" where
  "enters S (DevCommands k now cmds) = []"
| "enters S (DevChange k now st) = (if st \<in> S then [k] else [])"

definition entered :: "mq_state set \<Rightarrow> net_event list \<Rightarrow> nat list" where
  "entered S evs = concat (map (enters S) evs)"

lemma heeds_event_ok: "heeds tr api (length (nw_devs nw)) ev \<Longrightarrow> event_ok nw ev"
  by (cases ev) (auto simp: keeps_subscription_def)

lemma command_silent:
  assumes "pl_changeState api tr"
  shows "answers ctl d (fold (HandleDeviceCmd api now ctl) [ChangeState \<lparr>chs_transition = tr\<rparr>] d) = []"
  using assms by (simp add: answers_def HandleDeviceCmd_def Let_def)

lemma change_delivered:
  assumes "net_ok ctl nw" "k < length (nw_devs nw)" "now \<le> 3 * 600000 * 1000000000" "st \<noteq> Exiting" "pl_get (api k) ''id'' = Inr i"
  shows "nw_tp (net_step ctl dds api (DevChange k now st) nw) =
    HandleCmd_StateChange dds \<lparr>sc_deviceId = i, sc_taskId = dv_taskId (nw_devs nw ! k),
      sc_lastState = dv_currentState (nw_devs nw ! k), sc_currentState = st\<rparr> (nw_tp nw)"
proof -
  let ?d = "nw_devs nw ! k" and ?d' = "fst (onDeviceStateChange (api k) now st (nw_devs nw ! k))"
  have s: "subscribed_dev ctl ?d" using assms(1,2) by (simp add: net_ok_def)
  then have dk: "distinct_keys (dv_subscribers ?d)" by (simp add: subscribed_dev_def)
  note st = onDeviceStateChange_step(6) [OF assms(5,4) dk subscribed_live [OF s assms(3)]]
  obtain xs where "dv_out ?d' = dv_out ?d @ xs" using onDeviceStateChange_out by blast
  then show ?thesis using st by (simp add: dev_step_def Let_def answers_def deliver_def HandleCmd_def)
qed

lemma heeds_step:
  assumes "net_ok ctl nw" "heeds tr api (length (nw_devs nw)) ev" "\<And>k. \<exists>i. pl_get (api k) ''id'' = Inr i"
  shows "\<exists>cs. nw_tp (net_step ctl dds api ev nw) = handle_changes dds cs (nw_tp nw) \<and>
    map (\<lambda>c. (sc_taskId c, sc_currentState c)) cs = change_of (map dv_taskId (nw_devs nw)) ev"
proof (cases ev)
  case (DevCommands k now cmds)
  then have "nw_tp (net_step ctl dds api ev nw) = nw_tp nw"
    using assms(2) command_silent by (auto simp: dev_step_def Let_def deliver_def)
  then show ?thesis by (intro exI [of _ "[]"]) (simp add: DevCommands)
next
  case (DevChange k now st)
  obtain i where i: "pl_get (api k) ''id'' = Inr i" using assms(3) by blast
  have "nw_tp (net_step ctl dds api ev nw) =
    HandleCmd_StateChange dds \<lparr>sc_deviceId = i, sc_taskId = dv_taskId (nw_devs nw ! k),
      sc_lastState = dv_currentState (nw_devs nw ! k), sc_currentState = st\<rparr> (nw_tp nw)"
    unfolding DevChange using assms(2) DevChange by (intro change_delivered [where api = api and k = k and i = i, OF assms(1)] i) auto
  then show ?thesis
    by (intro exI [of _ "[\<lparr>sc_deviceId = i, sc_taskId = dv_taskId (nw_devs nw ! k),
      sc_lastState = dv_currentState (nw_devs nw ! k), sc_currentState = st\<rparr>]"]) (use assms(2) in \<open>simp add: DevChange\<close>)
qed

lemma net_step_ids:
  assumes "net_ok ctl nw" "event_ok nw ev" "\<And>k. \<exists>i. pl_get (api k) ''id'' = Inr i"
  shows "map dv_taskId (nw_devs (net_step ctl dds api ev nw)) = map dv_taskId (nw_devs nw)"
proof (cases ev)
  case (DevCommands k now cmds)
  have "dv_taskId (fold (HandleDeviceCmd (api k) now ctl) cmds (nw_devs nw ! k)) = dv_taskId (nw_devs nw ! k)"
    using HandleDeviceCmds_quiet [of ctl "nw_devs nw ! k" "api k" now ctl cmds] by (simp add: quiet_step_def)
  then show ?thesis by (cases "k < length (nw_devs nw)")
    (simp_all add: DevCommands dev_step_def Let_def map_update list_update_same_conv list_update_beyond)
next
  case (DevChange k now st)
  obtain i where i: "pl_get (api k) ''id'' = Inr i" using assms(3) by blast
  have k: "k < length (nw_devs nw)" "now \<le> 3 * 600000 * 1000000000" "st \<noteq> Exiting" using assms(2) DevChange by auto
  have s: "subscribed_dev ctl (nw_devs nw ! k)" using assms(1) k(1) by (simp add: net_ok_def)
  then have dk: "distinct_keys (dv_subscribers (nw_devs nw ! k))" by (simp add: subscribed_dev_def)
  show ?thesis
    using onDeviceStateChange_step(5) [OF i k(3) dk subscribed_live [OF s k(2)]] k(1)
    by (simp add: DevChange dev_step_def Let_def map_update list_update_same_conv)
qed

lemma heeds_run:
  assumes "net_ok ctl nw" "\<forall>ev \<in> set evs. heeds tr api (length (nw_devs nw)) ev" "\<And>k. \<exists>i. pl_get (api k) ''id'' = Inr i"
  shows "\<exists>cs. nw_tp (fold (net_step ctl dds api) evs nw) = handle_changes dds cs (nw_tp nw) \<and>
    map (\<lambda>c. (sc_taskId c, sc_currentState c)) cs = concat (map (change_of (map dv_taskId (nw_devs nw))) evs)"
  using assms(1,2)
proof (induction evs arbitrary: nw)
  case (Cons ev evs)
  let ?nw = "net_step ctl dds api ev nw"
  have ev: "heeds tr api (length (nw_devs nw)) ev" using Cons.prems(2) by simp
  have ok: "net_ok ctl ?nw" by (rule net_step_ok [OF Cons.prems(1) heeds_event_ok [OF ev] assms(3)])
  obtain cs where cs: "nw_tp ?nw = handle_changes dds cs (nw_tp nw)"
    "map (\<lambda>c. (sc_taskId c, sc_currentState c)) cs = change_of (map dv_taskId (nw_devs nw)) ev"
    using heeds_step [OF Cons.prems(1) ev assms(3)] by blast
  obtain ds where ds: "nw_tp (fold (net_step ctl dds api) evs ?nw) = handle_changes dds ds (nw_tp ?nw)"
    "map (\<lambda>c. (sc_taskId c, sc_currentState c)) ds = concat (map (change_of (map dv_taskId (nw_devs ?nw))) evs)"
    using Cons.IH [OF ok] Cons.prems(2) by (auto simp: net_step_devs)
  show ?case
    by (intro exI [of _ "cs @ ds"])
      (simp add: cs ds(1) [unfolded cs(1)] ds(2) net_step_ids [OF Cons.prems(1) heeds_event_ok [OF ev] assms(3)])
qed simp

text \<open>A run keeps the tasks of the devices, and the topology's index of them.\<close>

lemma net_run_ids:
  assumes "net_ok ctl nw" "\<forall>ev \<in> set evs. event_ok nw ev" "\<And>k. \<exists>i. pl_get (api k) ''id'' = Inr i"
  shows "map dv_taskId (nw_devs (fold (net_step ctl dds api) evs nw)) = map dv_taskId (nw_devs nw)"
  using assms(1,2)
proof (induction evs arbitrary: nw)
  case (Cons ev evs)
  have ev: "event_ok nw ev" using Cons.prems(2) by simp
  show ?case
    using Cons.IH [OF net_step_ok [OF Cons.prems(1) ev assms(3)]] net_step_ids [OF Cons.prems(1) ev assms(3)]
      Cons.prems(2) event_ok_cong [OF net_step_devs [of ctl dds api ev nw]] by simp
qed simp

lemma net_run_at: "tp_at (nw_tp (fold (net_step ctl dds api) evs nw)) t = tp_at (nw_tp nw) t"
proof (induction evs arbitrary: nw)
  case (Cons ev evs)
  have "tp_at (nw_tp (net_step ctl dds api ev nw)) t = tp_at (nw_tp nw) t"
    by (cases ev) (simp_all add: dev_step_def Let_def deliver_at)
  then show ?case by (simp add: Cons.IH)
qed simp

text \<open>The tasks of a new topology are those of its devices.\<close>

lemma devices_of_distinct: "devices_of ctl dds devs \<Longrightarrow> distinct (map fst (rt_tasks dds))"
  by (simp add: devices_of_def)

lemma devices_of_tasks: "devices_of ctl dds devs \<Longrightarrow> fst ` set (rt_tasks dds) = dv_taskId ` set devs"
  unfolding devices_of_def by (metis list.set_map mset_eq_setD)

lemma tp_new_known:
  assumes "distinct (map fst (rt_tasks dds))" "tp_at (tp_new dds X ci) t = Inr k"
  shows "t \<in> fst ` set (rt_tasks dds)"
proof -
  have i: "init_devices X (rt_tasks dds) 0 ([], []) =
      (map (\<lambda>(i, c). new_DeviceStatus (i \<in> X) i c) (rt_tasks dds), zip (map fst (rt_tasks dds)) [0..<length (rt_tasks dds)])"
    using init_devices_spec [OF assms(1), of "[]" X 0 "[]"] by simp
  obtain x where "map_of (zip (map fst (rt_tasks dds)) [0..<length (rt_tasks dds)]) t = Some x"
    using assms(2) by (auto simp: tp_at_def tp_new_def i SubscribeToStateChanges_def tp_send_def split: option.splits)
  then have "t \<in> set (map fst (rt_tasks dds))" by (blast dest: map_of_SomeD set_zip_leftD)
  then show ?thesis by simp
qed

lemma tasks_have_devices:
  assumes "devices_of ctl dds devs" "order_of ks devs" "\<And>k. \<exists>i. pl_get (api k) ''id'' = Inr i"
    and "\<forall>ev \<in> set evs. event_ok (subscribe_all ctl dds api ks (tp_new dds X ci) devs) ev"
    and "GetTasks dds path (nw_tp (fold (net_step ctl dds api) evs (subscribe_all ctl dds api ks (tp_new dds X ci) devs))) = Inr tasks"
  shows "fId ` set tasks \<subseteq> dv_taskId ` set (nw_devs (fold (net_step ctl dds api) evs (subscribe_all ctl dds api ks (tp_new dds X ci) devs)))"
    (is "_ \<subseteq> dv_taskId ` set (nw_devs ?nw)")
proof
  note sub = subscribe_all_ok [where dds = dds and api = api and X = X and ci = ci, OF assms(1,2)]
  have ids: "map dv_taskId (nw_devs ?nw) = map dv_taskId devs"
    using net_run_ids [OF sub(1) assms(4,3)] sub(4) by simp
  fix t assume "t \<in> fId ` set tasks"
  then obtain k where "tp_at (nw_tp ?nw) t = Inr k" using GetTasks_in_index [OF assms(5)] by blast
  then have "tp_at (tp_new dds X ci) t = Inr k" by (simp add: subscribe_all_def net_run_at)
  then have "t \<in> fst ` set (rt_tasks dds)" by (rule tp_new_known [OF devices_of_distinct [OF assms(1)]])
  also have "\<dots> = dv_taskId ` set (nw_devs ?nw)"
    using devices_of_tasks [OF assms(1)] arg_cong [OF ids, of set] by simp
  finally show "t \<in> dv_taskId ` set (nw_devs ?nw)" .
qed

section \<open>Topologies that spare no device\<close>

text \<open>No device is expendable or ignored, and no collection has a minimum below which it may not fall.\<close>

definition essential :: "dds_topo \<Rightarrow> topology \<Rightarrow> bool" where
  "essential dds tp \<longleftrightarrow> (\<forall>d \<in> set (tp_stateData tp). \<not> ds_ignored d \<and> \<not> ds_expendable d \<and>
       (ds_collectionId d \<noteq> 0 \<longrightarrow> (\<exists>name. rt_collectionName dds (ds_collectionId d) = Inr name))) \<and>
     (\<forall>c \<in> set (tp_collectionInfo tp). ci_nMin (snd c) = 0)"

lemma smap_set_subset: "set (smap_set k v m) \<subseteq> insert (k, v) (set m)"
  by (induction k v m rule: smap_set.induct) auto

lemma IsExpendable_essential:
  assumes "essential dds tp" "k < length (tp_stateData tp)"
  shows "\<exists>ci. IsExpendable dds k tp = (tp\<lparr>tp_collectionInfo := ci\<rparr>, Inr False) \<and> (\<forall>c \<in> set ci. ci_nMin (snd c) = 0)"
proof -
  have d: "\<not> ds_ignored (tp_device tp k)" "\<not> ds_expendable (tp_device tp k)"
    "ds_collectionId (tp_device tp k) \<noteq> 0 \<Longrightarrow> \<exists>name. rt_collectionName dds (ds_collectionId (tp_device tp k)) = Inr name"
    and n: "\<forall>c \<in> set (tp_collectionInfo tp). ci_nMin (snd c) = 0"
    using assms by (simp_all add: essential_def)
  have same: "tp = tp\<lparr>tp_collectionInfo := tp_collectionInfo tp\<rparr>" by simp
  show ?thesis
  proof (cases "ds_collectionId (tp_device tp k) = 0")
    case True
    then have "IsExpendable dds k tp = (tp, Inr False)" using d by (simp add: IsExpendable_def Let_def)
    then show ?thesis using n same by metis
  next
    case False
    then obtain name where name: "rt_collectionName dds (ds_collectionId (tp_device tp k)) = Inr name" using d(3) by blast
    show ?thesis
    proof (cases "map_of (tp_collectionInfo tp) name")
      case None
      then have "IsExpendable dds k tp = (tp, Inr False)" using d False name by (simp add: IsExpendable_def Let_def)
      then show ?thesis using n same by metis
    next
      case (Some col)
      then have col: "ci_nMin col = 0" using n map_of_SomeD [OF Some] by fastforce
      let ?ci = "smap_set name (col\<lparr>ci_nCurrent := ci_nCurrent col - 1\<rparr>) (tp_collectionInfo tp)"
      have "IsExpendable dds k tp = (tp\<lparr>tp_collectionInfo := ?ci\<rparr>, Inr False)"
        using d False name Some col by (simp add: IsExpendable_def Let_def)
      moreover have "\<forall>c \<in> set ?ci. ci_nMin (snd c) = 0" using smap_set_subset n col by fastforce
      ultimately show ?thesis by blast
    qed
  qed
qed

text \<open>Such a topology treats every report alike, of a failure or not: it is no operation's business to excuse it.\<close>

lemma essential_set_device:
  assumes "essential dds tp" "k < length (tp_stateData tp)"
  shows "essential dds (tp_set_device k ((tp_device tp k)\<lparr>ds_lastState := l, ds_state := s\<rparr>) tp)"
  using assms set_update_subset_insert [of "tp_stateData tp" k]
  by (fastforce simp: essential_def tp_set_device_def)

lemma StateChange_essential:
  assumes "essential dds tp" "tp_at tp (sc_taskId c) = Inr k"
  defines "tp' \<equiv> HandleCmd_StateChange dds c tp"
  shows "essential dds tp'"
    and "map_of (tp_changeStateOps tp') i =
      map_option (cs_Update (tp_stateData tp') (sc_taskId c) (sc_currentState c) False) (map_of (tp_changeStateOps tp) i)"
proof -
  let ?d = "(tp_device tp k)\<lparr>ds_lastState := sc_lastState c, ds_state := sc_currentState c\<rparr>"
  let ?tp1 = "tp_set_device k ?d tp"
  have k: "k < length (tp_stateData tp)" using tp_at_less [OF assms(2)] by simp
  have e1: "essential dds ?tp1" by (rule essential_set_device [OF assms(1) k])
  have "k < length (tp_stateData ?tp1)" using k by (simp add: tp_set_device_def)
  from IsExpendable_essential [OF e1 this] obtain ci where
    ci: "IsExpendable dds k ?tp1 = (?tp1\<lparr>tp_collectionInfo := ci\<rparr>, Inr False)" "\<forall>c \<in> set ci. ci_nMin (snd c) = 0" by blast
  have "essential dds tp' \<and> map_of (tp_changeStateOps tp') i =
      map_option (cs_Update (tp_stateData tp') (sc_taskId c) (sc_currentState c) False) (map_of (tp_changeStateOps tp) i)"
  proof (cases "sc_currentState c = Error \<or> (sc_currentState c = Exiting \<and> ds_state (tp_device tp k) \<noteq> Idle)")
    case True
    then have "tp' = update_ws_ops (sc_taskId c) (sc_lastState c) (sc_currentState c) False
        (update_cs_ops (sc_taskId c) (sc_currentState c) False (update_sp_ops (ds_taskId ?d) False (?tp1\<lparr>tp_collectionInfo := ci\<rparr>)))"
      by (auto simp: tp'_def HandleCmd_StateChange_def assms(2) Let_def ci(1))
    then show ?thesis using e1 ci(2)
      by (simp add: essential_def update_ws_ops_def update_cs_ops_def update_sp_ops_def tp_set_device_def)
  next
    case False
    then have "tp' = update_ws_ops (sc_taskId c) (sc_lastState c) (sc_currentState c) False
        (update_cs_ops (sc_taskId c) (sc_currentState c) False ?tp1)"
      by (auto simp: tp'_def HandleCmd_StateChange_def assms(2) Let_def)
    then show ?thesis using e1 by (simp add: essential_def update_ws_ops_def update_cs_ops_def tp_set_device_def)
  qed
  then show "essential dds tp'" "map_of (tp_changeStateOps tp') i =
      map_option (cs_Update (tp_stateData tp') (sc_taskId c) (sc_currentState c) False) (map_of (tp_changeStateOps tp) i)"
    by simp_all
qed

lemma essential_changes_op:
  assumes "essential dds tp" "\<forall>c \<in> set cs. \<exists>k. tp_at tp (sc_taskId c) = Inr k" "map_of (tp_changeStateOps tp) i = Some op"
  shows "map_of (tp_changeStateOps (handle_changes dds cs tp)) i = Some (fold cs_event_update (cs_events dds cs tp) op)"
  using assms
proof (induction cs arbitrary: tp op)
  case (Cons c cs)
  let ?tp = "HandleCmd_StateChange dds c tp"
  obtain k where k: "tp_at tp (sc_taskId c) = Inr k" using Cons.prems(2) by auto
  note step = StateChange_essential [OF Cons.prems(1) k]
  have "tp_at ?tp t = tp_at tp t" for t using HandleCmd_at [of dds "StateChange c" tp t] by (simp add: HandleCmd_def)
  then have "\<forall>c \<in> set cs. \<exists>k. tp_at ?tp (sc_taskId c) = Inr k" using Cons.prems(2) by simp
  from Cons.IH [OF step(1) this] step(2) [of i] Cons.prems(3) show ?case by (simp add: Let_def)
qed simp

section \<open>What the operation sees of the run\<close>

definition change_view :: "mq_state \<Rightarrow> task_id \<times> mq_state \<Rightarrow> report" where
  "change_view g c =
     (if snd c = g then Reached (fst c) else if snd c = Error then Failed (fst c) False else Noise (fst c))"

lemma events_views:
  assumes "\<And>c. c \<in> set cs \<Longrightarrow> sc_currentState c \<noteq> Exiting"
  shows "map (cs_view g) (cs_events dds cs tp) = map (change_view g) (map (\<lambda>c. (sc_taskId c, sc_currentState c)) cs)"
  using assms by (induction cs arbitrary: tp) (simp_all add: Let_def change_view_def)

lemma relevant_append: "relevant ts (as @ bs) = relevant ts as @ relevant ts bs"
  by (simp add: relevant_def)

lemma entered_simps [simp]: "entered S [] = []" "entered S (ev # evs) = enters S ev @ entered S evs"
  by (simp_all add: entered_def)

lemma entered_mono: "S \<subseteq> T \<Longrightarrow> set (entered S evs) \<subseteq> set (entered T evs)"
proof (induction evs)
  case (Cons ev evs)
  then show ?case by (cases ev) auto
qed simp

lemma relevant_changes:
  "map who (relevant ts (map (change_view g) (concat (map (change_of ids) evs)))) =
     filter (\<lambda>t. t \<in> set ts) (map ((!) ids) (entered {g, Error} evs))"
proof (induction evs)
  case (Cons ev evs)
  have "map who (relevant ts (map (change_view g) (change_of ids ev))) =
      filter (\<lambda>t. t \<in> set ts) (map ((!) ids) (enters {g, Error} ev))"
    by (cases ev) (simp_all add: relevant_def change_view_def)
  with Cons show ?case by (simp add: relevant_append)
qed (simp add: relevant_def)

lemma failed_changes:
  assumes "g \<noteq> Error"
  shows "Failed t x \<in> set (relevant ts (map (change_view g) (concat (map (change_of ids) evs)))) \<longleftrightarrow>
     \<not> x \<and> t \<in> set ts \<and> t \<in> (!) ids ` set (entered {Error} evs)"
proof (induction evs)
  case (Cons ev evs)
  have "Failed t x \<in> set (relevant ts (map (change_view g) (change_of ids ev))) \<longleftrightarrow>
      \<not> x \<and> t \<in> set ts \<and> t \<in> (!) ids ` set (enters {Error} ev)"
    using assms by (cases ev) (auto simp: relevant_def change_view_def)
  with Cons show ?case by (auto simp: relevant_append image_Un)
qed (simp add: relevant_def)

lemma verdict_strict: "(\<And>t. Failed t True \<notin> set rs) \<Longrightarrow> verdict e rs \<longleftrightarrow> e \<or> (\<exists>t. Failed t False \<in> set rs)"
proof (induction rs arbitrary: e)
  case (Cons r rs)
  have "\<And>t. Failed t True \<notin> set rs" "\<And>t. r \<noteq> Failed t True" using Cons.prems by auto
  with Cons.IH show ?case by (cases r) auto
qed simp

lemma entered_less: "\<forall>ev \<in> set evs. heeds tr api n ev \<Longrightarrow> k \<in> set (entered S evs) \<Longrightarrow> k < n"
proof (induction evs)
  case (Cons ev evs)
  then show ?case by (cases ev) (auto split: if_splits)
qed simp

lemma changes_known:
  assumes "\<forall>ev \<in> set evs. heeds tr api (length ids) ev" "c \<in> set (concat (map (change_of ids) evs))"
  shows "fst c \<in> set ids \<and> snd c \<noteq> Exiting"
proof -
  obtain ev where ev: "ev \<in> set evs" "c \<in> set (change_of ids ev)" using assms(2) by auto
  with assms(1) show ?thesis by (cases ev) auto
qed

section \<open>A change of state across the network\<close>

text \<open>The devices of the tasks a request is for, by their positions.\<close>

definition asked :: "DDSTask list \<Rightarrow> network \<Rightarrow> nat set" where
  "asked tasks nw = {k. k < length (nw_devs nw) \<and> dv_taskId (nw_devs nw ! k) \<in> fId ` set tasks}"

lemma asked_inj: "net_ok ctl nw \<Longrightarrow> inj_on (\<lambda>k. dv_taskId (nw_devs nw ! k)) (asked tasks nw)"
  by (rule inj_onI) (simp add: net_ok_def asked_def distinct_conv_nth, metis)

lemma asked_tasks:
  assumes "fId ` set tasks \<subseteq> dv_taskId ` set (nw_devs nw)"
  shows "fId ` set tasks = (\<lambda>k. dv_taskId (nw_devs nw ! k)) ` asked tasks nw"
proof (rule equalityI)
  show "fId ` set tasks \<subseteq> (\<lambda>k. dv_taskId (nw_devs nw ! k)) ` asked tasks nw"
  proof
    fix t assume t: "t \<in> fId ` set tasks"
    then have "t \<in> dv_taskId ` set (nw_devs nw)" by (rule subsetD [OF assms])
    then obtain k where k: "k < length (nw_devs nw)" "t = dv_taskId (nw_devs nw ! k)" by (auto simp: in_set_conv_nth)
    then have "k \<in> asked tasks nw" using t by (simp add: asked_def)
    then show "t \<in> (\<lambda>k. dv_taskId (nw_devs nw ! k)) ` asked tasks nw" using k(2) by blast
  qed
qed (auto simp: asked_def)

text \<open>What the topology knows of the devices when the operation starts, in terms of the devices.\<close>

lemma asked_settled:
  assumes "net_ok ctl nw" "fId ` set tasks \<subseteq> dv_taskId ` set (nw_devs nw)" "g \<noteq> Error" "g \<noteq> Exiting"
  shows "settled (cs_reached g) (tp_stateIndex (nw_tp nw)) (tp_stateData (nw_tp nw)) (map fId tasks) =
      (\<lambda>k. dv_taskId (nw_devs nw ! k)) ` {k \<in> asked tasks nw. dv_currentState (nw_devs nw ! k) \<in> {g, Error, Exiting}}"
    and "start_errored (cs_reached g) (tp_stateIndex (nw_tp nw)) (tp_stateData (nw_tp nw)) (map fId tasks) \<longleftrightarrow>
      (\<exists>k \<in> asked tasks nw. dv_currentState (nw_devs nw ! k) \<in> {Error, Exiting})"
proof -
  let ?tp = "nw_tp nw" and ?d = "\<lambda>k. nw_devs nw ! k"
  have wf: "wf_index (tp_stateIndex ?tp) (tp_stateData ?tp)" using assms(1) by (simp add: net_ok_def topo_wf_def)
  have known: "\<exists>j. map_of (tp_stateIndex ?tp) (dv_taskId (?d k)) = Some j \<and> ds_state (tp_device ?tp j) = dv_currentState (?d k)"
    if "k \<in> asked tasks nw" for k
  proof -
    have "?d k \<in> set (nw_devs nw)" using that by (simp add: asked_def)
    then have "mirrors ?tp (?d k)" using assms(1) by (simp add: net_ok_def)
    then show ?thesis using tp_at_less unfolding mirrors_def by blast
  qed
  have set: "set (map fId tasks) = (\<lambda>k. dv_taskId (?d k)) ` asked tasks nw"
    using asked_tasks [OF assms(2)] by simp
  show "settled (cs_reached g) (tp_stateIndex ?tp) (tp_stateData ?tp) (map fId tasks) =
      (\<lambda>k. dv_taskId (?d k)) ` {k \<in> asked tasks nw. dv_currentState (?d k) \<in> {g, Error, Exiting}}"
    unfolding settled_def set using known by (fastforce simp: cs_reached_def device_failed_def)
  show "start_errored (cs_reached g) (tp_stateIndex ?tp) (tp_stateData ?tp) (map fId tasks) \<longleftrightarrow>
      (\<exists>k \<in> asked tasks nw. dv_currentState (?d k) \<in> {Error, Exiting})" (is "?A \<longleftrightarrow> ?B")
  proof
    assume ?A
    then obtain t j where e: "(t, j) \<in> set (tp_stateIndex ?tp)" "ds_taskId (tp_device ?tp j) \<in> set (map fId tasks)"
      "device_failed (tp_device ?tp j)" by (auto simp: start_errored_def)
    have j: "map_of (tp_stateIndex ?tp) t = Some j" using e(1) wf by (simp add: wf_index_def distinct_keys_def)
    have "t \<in> set (map fId tasks)" using e(2) wf_index_nth [OF wf j] by simp
    then obtain k where k: "k \<in> asked tasks nw" "t = dv_taskId (?d k)" unfolding set by blast
    then have "ds_state (tp_device ?tp j) = dv_currentState (?d k)" using known [OF k(1)] j by auto
    then show ?B using k(1) e(3) by (auto simp: device_failed_def)
  next
    assume ?B
    then obtain k where k: "k \<in> asked tasks nw" "dv_currentState (?d k) \<in> {Error, Exiting}" by blast
    obtain j where j: "map_of (tp_stateIndex ?tp) (dv_taskId (?d k)) = Some j" "ds_state (tp_device ?tp j) = dv_currentState (?d k)"
      using known [OF k(1)] by blast
    have "ds_taskId (tp_device ?tp j) \<in> set (map fId tasks)" using wf_index_nth [OF wf j(1)] k(1) by (simp add: asked_def)
    then show ?A using map_of_SomeD [OF j(1)] j(2) k(2) assms(3,4)
      unfolding start_errored_def by (intro bexI [of _ "(dv_taskId (?d k), j)"]) (auto simp: cs_reached_def device_failed_def)
  qed
qed

text \<open>
  What the devices of a request report in a run: those that enter the target state or fail, once each, and the verdict on
  them.
\<close>

definition run_reports :: "mq_state \<Rightarrow> network \<Rightarrow> net_event list \<Rightarrow> report list" where
  "run_reports g nw evs = map (change_view g) (concat (map (change_of (map dv_taskId (nw_devs nw))) evs))"

lemma run_reports_asked:
  assumes "\<forall>ev \<in> set evs. heeds tr api (length (nw_devs nw)) ev"
  shows "map who (relevant (map fId tasks) (run_reports g nw evs)) =
    map (\<lambda>k. dv_taskId (nw_devs nw ! k)) (filter (\<lambda>k. k \<in> asked tasks nw) (entered {g, Error} evs))"
  unfolding run_reports_def relevant_changes
  using entered_less [OF assms] by (auto simp: filter_map comp_def asked_def intro!: map_cong filter_cong)

lemma run_reports_reported:
  assumes "\<forall>ev \<in> set evs. heeds tr api (length (nw_devs nw)) ev"
  shows "reported (map fId tasks) (run_reports g nw evs) =
    (\<lambda>k. dv_taskId (nw_devs nw ! k)) ` {k \<in> asked tasks nw. k \<in> set (entered {g, Error} evs)}"
proof -
  have "{k \<in> asked tasks nw. k \<in> set (entered {g, Error} evs)} = set (filter (\<lambda>k. k \<in> asked tasks nw) (entered {g, Error} evs))"
    by auto
  then show ?thesis
    unfolding reported_def using arg_cong [OF run_reports_asked [OF assms, of tasks g], of set] by (simp only: set_map)
qed

lemma run_reports_once:
  assumes "net_ok ctl nw" "\<forall>ev \<in> set evs. heeds tr api (length (nw_devs nw)) ev" "G \<subseteq> asked tasks nw"
    and "distinct (filter (\<lambda>k. k \<in> asked tasks nw) (entered {g, Error} evs))" "set (entered {g, Error} evs) \<inter> G = {}"
  shows "once (map fId tasks) ((\<lambda>k. dv_taskId (nw_devs nw ! k)) ` G) (run_reports g nw evs)"
proof -
  note inj = asked_inj [OF assms(1)]
  have "{k \<in> asked tasks nw. k \<in> set (entered {g, Error} evs)} \<inter> G = {}" using assms(5) by auto
  then have "(\<lambda>k. dv_taskId (nw_devs nw ! k)) ` {k \<in> asked tasks nw. k \<in> set (entered {g, Error} evs)} \<inter>
      (\<lambda>k. dv_taskId (nw_devs nw ! k)) ` G = {}"
    using inj_on_image_Int [OF inj _ assms(3)] by (metis (no_types, lifting) image_empty mem_Collect_eq subsetI)
  then show ?thesis
    unfolding once_def run_reports_reported [OF assms(2)] run_reports_asked [OF assms(2)]
    using assms(4) inj by (auto simp: distinct_map intro: inj_on_subset)
qed

lemma run_reports_verdict:
  assumes "\<forall>ev \<in> set evs. heeds tr api (length (nw_devs nw)) ev" "g \<noteq> Error"
  shows "verdict e (relevant (map fId tasks) (run_reports g nw evs)) \<longleftrightarrow>
    e \<or> (\<exists>k \<in> asked tasks nw. k \<in> set (entered {Error} evs))"
proof -
  let ?ids = "map dv_taskId (nw_devs nw)"
  have "(\<exists>t. t \<in> set (map fId tasks) \<and> t \<in> (!) ?ids ` set (entered {Error} evs)) \<longleftrightarrow>
      (\<exists>k \<in> asked tasks nw. k \<in> set (entered {Error} evs))" (is "?A \<longleftrightarrow> ?B")
  proof
    assume ?A
    then obtain k where k: "k \<in> set (entered {Error} evs)" "?ids ! k \<in> set (map fId tasks)" by blast
    then have "k \<in> asked tasks nw" using entered_less [OF assms(1) k(1)] by (simp add: asked_def)
    then show ?B using k(1) by blast
  next
    assume ?B
    then obtain k where k: "k \<in> asked tasks nw" "k \<in> set (entered {Error} evs)" by blast
    have "?ids ! k \<in> set (map fId tasks)" using k(1) by (simp add: asked_def)
    then show ?A using k(2) by blast
  qed
  then show ?thesis
    using verdict_strict [of "relevant (map fId tasks) (run_reports g nw evs)" e] failed_changes [OF assms(2)]
    by (auto simp: run_reports_def)
qed

text \<open>
  The operation after a run: the devices that were in the target state or had failed, and those that have done either since,
  are what it has counted.
\<close>

lemma change_run_verdict:
  assumes "net_ok ctl nw" "fId ` set tasks \<subseteq> dv_taskId ` set (nw_devs nw)" "g \<noteq> Error" "g \<noteq> Exiting"
    and evs: "\<forall>ev \<in> set evs. heeds tr api (length (nw_devs nw)) ev"
    and once: "\<And>k. k \<in> asked tasks nw \<Longrightarrow> k \<in> set (entered {g, Error} evs) \<Longrightarrow> dv_currentState (nw_devs nw ! k) \<notin> {g, Error, Exiting}"
  shows "run_verdict (cs_reached g) (tp_stateIndex (nw_tp nw)) (tp_stateData (nw_tp nw)) (map fId tasks) (run_reports g nw evs) =
      (if \<forall>k \<in> asked tasks nw. dv_currentState (nw_devs nw ! k) \<in> {g, Error, Exiting} \<or> k \<in> set (entered {g, Error} evs)
       then Some (verdict_code (\<exists>k \<in> asked tasks nw. dv_currentState (nw_devs nw ! k) \<in> {Error, Exiting} \<or> k \<in> set (entered {Error} evs)))
       else None)"
proof -
  let ?t = "\<lambda>k. dv_taskId (nw_devs nw ! k)" and ?G = "{k \<in> asked tasks nw. dv_currentState (nw_devs nw ! k) \<in> {g, Error, Exiting}}"
    and ?U = "{k \<in> asked tasks nw. k \<in> set (entered {g, Error} evs)}"
  let ?all = "\<forall>k \<in> asked tasks nw. dv_currentState (nw_devs nw ! k) \<in> {g, Error, Exiting} \<or> k \<in> set (entered {g, Error} evs)"
  let ?E = "\<exists>k \<in> asked tasks nw. dv_currentState (nw_devs nw ! k) \<in> {Error, Exiting}"
    and ?F = "\<exists>k \<in> asked tasks nw. k \<in> set (entered {Error} evs)"
  note st = asked_settled [OF assms(1-4)] and rep = run_reports_reported [OF evs] and fail = run_reports_verdict [OF evs assms(3)]
  have img: "?t ` A = ?t ` asked tasks nw \<longleftrightarrow> A = asked tasks nw" if "A \<subseteq> asked tasks nw" for A
    using inj_on_image_eq_iff [OF asked_inj [OF assms(1)] that subset_refl] .
  have sub: "?G \<subseteq> asked tasks nw" "?G \<union> ?U \<subseteq> asked tasks nw" by auto
  have fin: "?t ` ?G \<union> ?t ` ?U = set (map fId tasks) \<longleftrightarrow> ?all"
    unfolding set_map asked_tasks [OF assms(2)] image_Un [symmetric] img [OF sub(2)] by auto
  have start: "?t ` ?G = set (map fId tasks) \<longleftrightarrow> ?G = asked tasks nw"
    unfolding set_map asked_tasks [OF assms(2)] img [OF sub(1)] ..
  have "run_verdict (cs_reached g) (tp_stateIndex (nw_tp nw)) (tp_stateData (nw_tp nw)) (map fId tasks) (run_reports g nw evs) =
      (if ?all then Some (verdict_code (?E \<or> ?F)) else None)"
  proof (cases "?G = asked tasks nw")
    case True
    have "\<not> ?F"
    proof
      assume ?F
      then obtain k where k: "k \<in> asked tasks nw" "k \<in> set (entered {Error} evs)" by blast
      then have "k \<in> set (entered {g, Error} evs)" using entered_mono [of "{Error}" "{g, Error}" evs] by blast
      then show False using once [OF k(1)] k(1) True by blast
    qed
    moreover have ?all using True by auto
    ultimately show ?thesis using True start by (simp add: run_verdict_def st rep)
  next
    case False
    then show ?thesis using start fin by (simp add: run_verdict_def st rep fail)
  qed
  moreover have "?E \<or> ?F \<longleftrightarrow>
      (\<exists>k \<in> asked tasks nw. dv_currentState (nw_devs nw ! k) \<in> {Error, Exiting} \<or> k \<in> set (entered {Error} evs))" by blast
  ultimately show ?thesis by simp
qed

lemma change_run:
  assumes ok: "net_ok ctl nw" and ids: "\<And>k. \<exists>i. pl_get (api k) ''id'' = Inr i"
    and op: "cs_new i tr tasks timeout = Inr op" "cs_targetState op = g" "g \<noteq> Error" "g \<noteq> Exiting"
    and tasks: "distinct (map fId tasks)" "fId ` set tasks \<subseteq> dv_taskId ` set (nw_devs nw)"
    and at: "\<And>t. t \<in> fId ` set tasks \<Longrightarrow> \<exists>k. tp_at (nw_tp nw) t = Inr k"
    and tp1: "topo_wf tp1" "tp_stateData tp1 = tp_stateData (nw_tp nw)" "tp_stateIndex tp1 = tp_stateIndex (nw_tp nw)"
      "map_of (tp_changeStateOps tp1) i = Some (cs_start (tp_stateIndex (nw_tp nw)) (tp_stateData (nw_tp nw)) op)"
    and ess: "essential dds tp1"
    and evs: "\<forall>ev \<in> set evs. heeds tr api (length (nw_devs nw)) ev"
    and once: "distinct (filter (\<lambda>k. k \<in> asked tasks nw) (entered {g, Error} evs))"
      "\<And>k. k \<in> asked tasks nw \<Longrightarrow> k \<in> set (entered {g, Error} evs) \<Longrightarrow> dv_currentState (nw_devs nw ! k) \<notin> {g, Error, Exiting}"
  shows "net_ok ctl (fold (net_step ctl dds api) evs (nw\<lparr>nw_tp := tp1\<rparr>))"
    and "map_option fst (watch_cs i (nw_tp (fold (net_step ctl dds api) evs (nw\<lparr>nw_tp := tp1\<rparr>)))) =
      run_verdict (cs_reached g) (tp_stateIndex (nw_tp nw)) (tp_stateData (nw_tp nw)) (map fId tasks) (run_reports g nw evs)"
proof -
  let ?nw = "nw\<lparr>nw_tp := tp1\<rparr>" and ?ids = "map dv_taskId (nw_devs nw)"
  have same: "same_states (nw_tp nw) tp1" by (simp add: same_states_def tp1(2,3))
  have ok1: "net_ok ctl ?nw" using ok tp1(1) mirrors_same_states [OF same] by (simp add: net_ok_def)
  have ev_ok: "\<forall>ev \<in> set evs. event_ok ?nw ev" using evs heeds_event_ok [of tr api ?nw] by simp
  show "net_ok ctl (fold (net_step ctl dds api) evs ?nw)" by (rule net_run_ok [OF ok1 ev_ok ids])
  obtain cs where cs: "nw_tp (fold (net_step ctl dds api) evs ?nw) = handle_changes dds cs tp1"
    "map (\<lambda>c. (sc_taskId c, sc_currentState c)) cs = concat (map (change_of ?ids) evs)"
    using heeds_run [where nw = ?nw and evs = evs and tr = tr and dds = dds and api = api, OF ok1 _ ids] evs by auto
  have in_cs: "(sc_taskId c, sc_currentState c) \<in> set (concat (map (change_of ?ids) evs))" if "c \<in> set cs" for c
    unfolding cs(2) [symmetric] using that by simp
  have ch: "sc_taskId c \<in> set ?ids \<and> sc_currentState c \<noteq> Exiting" if "c \<in> set cs" for c
    using changes_known [of evs tr api ?ids, OF _ in_cs [OF that]] evs by simp
  have "\<exists>k. tp_at tp1 t = Inr k" if "t \<in> set ?ids" for t
    using ok1 that by (auto simp: net_ok_def mirrors_def)
  then have "\<forall>c \<in> set cs. \<exists>k. tp_at tp1 (sc_taskId c) = Inr k" using ch by blast
  note op_run = essential_changes_op [OF ess this tp1(4)]
  have views: "map (cs_view g) (cs_events dds cs tp1) = run_reports g nw evs"
    using events_views [of cs g dds tp1] ch by (simp add: cs(2) run_reports_def)
  let ?G = "{k \<in> asked tasks nw. dv_currentState (nw_devs nw ! k) \<in> {g, Error, Exiting}}"
  have "set (entered {g, Error} evs) \<inter> ?G = {}" using once(2) by blast
  then have o: "once (map fId tasks) (settled (cs_reached g) (tp_stateIndex (nw_tp nw)) (tp_stateData (nw_tp nw)) (map fId tasks))
      (map (cs_view g) (cs_events dds cs tp1))"
    unfolding views asked_settled(1) [OF ok tasks(2) op(3,4)] by (intro run_reports_once [OF ok evs _ once(1)]) auto
  have wf: "wf_index (tp_stateIndex (nw_tp nw)) (tp_stateData (nw_tp nw))" using ok by (simp add: net_ok_def topo_wf_def)
  have len: "length tasks < 2 ^ 32" using index_card [of "nw_tp nw", OF _ tasks(1)] ok at by (simp add: net_ok_def)
  show "map_option fst (watch_cs i (nw_tp (fold (net_step ctl dds api) evs ?nw))) =
      run_verdict (cs_reached g) (tp_stateIndex (nw_tp nw)) (tp_stateData (nw_tp nw)) (map fId tasks) (run_reports g nw evs)"
    using cs_started_run [OF op(1) wf tasks(1) len, unfolded op(2), OF o] op_run by (simp add: cs(1) watch_cs_def views)
qed

section \<open>Property\<close>

lemma AsyncChangeState_essential:
  "essential dds tp \<Longrightarrow> tp_stateData (fst (AsyncChangeState dds' i tr path timeout tp)) = tp_stateData tp \<Longrightarrow>
     essential dds (fst (AsyncChangeState dds' i tr path timeout tp))"
  by (simp add: essential_def AsyncChangeState_def Let_def tp_send_def split: sum.split prod.split)


text \<open>
  The two devices of the sample network, asked to initialise: the operation ends when the second has done so, and with an error
  when the second fails.
\<close>

abbreviation sample_start :: network where
  "sample_start \<equiv> subscribe_all 99 sample_dds (\<lambda>_. sample_api) [(1, 3), (0, 8)] (tp_new sample_dds {} []) sample_devs"

definition sample_run :: "mq_state \<Rightarrow> net_event list" where
  "sample_run st = [DevCommands 1 15 [ChangeState \<lparr>chs_transition = InitDevice\<rparr>], DevChange 1 20 InitializingDevice,
     DevCommands 0 21 [ChangeState \<lparr>chs_transition = InitDevice\<rparr>], DevChange 1 22 Initialized, DevChange 0 25 st]"

lemma sample_start_facts:
  "GetTasks sample_dds '''' (nw_tp sample_start) = Inr [\<lparr>fId = 1, fCollectionId = 0\<rparr>, \<lparr>fId = 2, fCollectionId = 0\<rparr>]"
  "tp_changeStateOps (nw_tp sample_start) = []" "map dv_taskId (nw_devs sample_start) = [2, 1]"
  "map dv_currentState (nw_devs sample_start) = [Idle, Idle]" "tp_collectionInfo (nw_tp sample_start) = []"
  "map (\<lambda>d. (ds_ignored d, ds_expendable d, ds_collectionId d)) (tp_stateData (nw_tp sample_start)) = [(False, False, 0), (False, False, 0)]"
  by code_simp+

lemma sample_start_essential: "essential sample_dds (nw_tp sample_start)"
proof -
  have "(ds_ignored d, ds_expendable d, ds_collectionId d) = (False, False, 0)" if "d \<in> set (tp_stateData (nw_tp sample_start))" for d
  proof -
    have "(ds_ignored d, ds_expendable d, ds_collectionId d) \<in>
        set (map (\<lambda>d. (ds_ignored d, ds_expendable d, ds_collectionId d)) (tp_stateData (nw_tp sample_start)))"
      using that by (simp only: set_map image_eqI)
    then show ?thesis unfolding sample_start_facts(6) by simp
  qed
  then show ?thesis unfolding essential_def sample_start_facts(5) by simp
qed

lemma sample_run_facts:
  "st \<noteq> Exiting \<Longrightarrow> \<forall>ev \<in> set (sample_run st). heeds InitDevice (\<lambda>_. sample_api) 2 ev"
  "st \<in> {InitializingDevice, Error} \<Longrightarrow> entered {InitializingDevice, Error} (sample_run st) = [1, 0]"
  "entered {Error} (sample_run st) = (if st = Error then [0] else [])"
  by (auto simp: sample_run_def sample_api_def)


end
