(* ===== verification/Network_Properties.thy ===== *)
theory Network_Properties
  imports Network_Change
begin

text \<open>
  A query of properties across the network: the topology sends it to the devices of a path (\<^verbatim>\<open>AsyncGetProperties\<close> of
  \<^verbatim>\<open>src/odc/Topology.h\<close>), every plugin asks its own device (\<^verbatim>\<open>src/plugins/fmq/ODC.cpp\<close>), and the operation collects the
  answers, while the devices go on changing their states.
\<close>

section \<open>Runs in which the devices answer\<close>

fun asks :: "u64 \<Rightarrow> string \<Rightarrow> nat \<Rightarrow> net_event \<Rightarrow> bool" where
  "asks i q n (DevCommands k now cmds) \<longleftrightarrow> k < n \<and> 0 \<le> now \<and> cmds = [GetProperties \<lparr>gpr_requestId = i, gpr_query = q\<rparr>]"
| "asks i q n (DevChange k now st) \<longleftrightarrow> k < n \<and> now \<le> 3 * 600000 * 1000000000 \<and> st \<noteq> Exiting"

fun asked_device :: "net_event \<Rightarrow> nat list" where
  "asked_device (DevCommands k now cmds) = [k]"
| "asked_device (DevChange k now st) = []"

text \<open>What a device answers: the properties its own query finds, or a failure.\<close>

definition own_answer :: "plugin_api \<Rightarrow> string \<Rightarrow> Result \<times> DeviceProperties" where
  "own_answer api q = (case pl_query api q of Inl e \<Rightarrow> (Result_Failure, []) | Inr ps \<Rightarrow> (Result_Ok, ps))"

lemma asks_event_ok: "asks i q (length (nw_devs nw)) ev \<Longrightarrow> event_ok nw ev"
  by (cases ev) (auto simp: keeps_subscription_def)

lemma StateChange_getProperties: "tp_getPropertiesOps (HandleCmd_StateChange dds c tp) = tp_getPropertiesOps tp"
proof (cases "tp_at tp (sc_taskId c)")
  case (Inr k)
  have e: "tp_getPropertiesOps (fst (IsExpendable dds k tp1)) = tp_getPropertiesOps tp1" for tp1
    by (auto simp: IsExpendable_def Let_def ignore_collection_def tp_set_device_def split_def split: sum.split option.split)
  have u: "tp_getPropertiesOps (update_ws_ops t l s x tp1) = tp_getPropertiesOps tp1"
    "tp_getPropertiesOps (update_cs_ops t s x tp1) = tp_getPropertiesOps tp1"
    "tp_getPropertiesOps (update_sp_ops t x tp1) = tp_getPropertiesOps tp1" for t l s x tp1
    by (simp_all add: update_ws_ops_def update_cs_ops_def update_sp_ops_def)
  let ?tp1 = "tp_set_device k ((tp_device tp k)\<lparr>ds_lastState := sc_lastState c, ds_state := sc_currentState c\<rparr>) tp"
  obtain tp2 r where "IsExpendable dds k ?tp1 = (tp2, r)" by fastforce
  moreover have "tp_getPropertiesOps ?tp1 = tp_getPropertiesOps tp" by (simp add: tp_set_device_def)
  ultimately show ?thesis using e [of ?tp1]
    by (cases r) (auto simp: HandleCmd_StateChange_def Inr Let_def u)
qed (simp add: HandleCmd_StateChange_def)

lemma gpo_event_pair [simp]: "gpo_event_update (t, a) op = gpo_Update t (fst a) (snd a) op"
  by (cases a) simp

lemma asks_step:
  assumes "net_ok ctl nw" "asks i q (length (nw_devs nw)) ev" "\<And>k. \<exists>i. pl_get (api k) ''id'' = Inr i"
    and "map_of (tp_getPropertiesOps (nw_tp nw)) i = Some op"
  shows "map_of (tp_getPropertiesOps (nw_tp (net_step ctl dds api ev nw))) i =
    Some (fold gpo_event_update (map (\<lambda>k. (map dv_taskId (nw_devs nw) ! k, own_answer (api k) q)) (asked_device ev)) op)"
proof (cases ev)
  case (DevCommands k now cmds)
  let ?d = "nw_devs nw ! k"
  have k: "k < length (nw_devs nw)" "cmds = [GetProperties \<lparr>gpr_requestId = i, gpr_query = q\<rparr>]" using assms(2) DevCommands by auto
  have "answers ctl ?d (fold (HandleDeviceCmd (api k) now ctl) cmds ?d) =
      [[Properties \<lparr>pr_deviceId = dv_id ?d, pr_taskId = dv_taskId ?d, pr_requestId = i, pr_result = fst (own_answer (api k) q),
        pr_properties = snd (own_answer (api k) q)\<rparr>]]"
    by (auto simp: k(2) answers_def HandleDeviceCmd_def own_answer_def Let_def split: sum.split)
  then show ?thesis
    using assms(4) k(1)
    by (simp add: DevCommands dev_step_def Let_def deliver_def HandleCmd_def HandleCmd_Properties_def update_conv'
        split_def)
next
  case (DevChange k now st)
  have d: "k < length (nw_devs nw)" "now \<le> 3 * 600000 * 1000000000" "st \<noteq> Exiting" using assms(2) DevChange by auto
  obtain j where j: "pl_get (api k) ''id'' = Inr j" using assms(3) by blast
  show ?thesis
    using change_delivered [where api = api and k = k and i = j and dds = dds, OF assms(1) d j] assms(4)
    by (simp add: DevChange StateChange_getProperties del: net_step.simps)
qed

lemma asks_run:
  assumes "net_ok ctl nw" "\<forall>ev \<in> set evs. asks i q (length (nw_devs nw)) ev" "\<And>k. \<exists>i. pl_get (api k) ''id'' = Inr i"
    and "map_of (tp_getPropertiesOps (nw_tp nw)) i = Some op"
  shows "map_of (tp_getPropertiesOps (nw_tp (fold (net_step ctl dds api) evs nw))) i =
    Some (fold gpo_event_update
      (map (\<lambda>k. (map dv_taskId (nw_devs nw) ! k, own_answer (api k) q)) (concat (map asked_device evs))) op)"
  using assms(1,2,4)
proof (induction evs arbitrary: nw op)
  case (Cons ev evs)
  let ?nw = "net_step ctl dds api ev nw"
  have ev: "asks i q (length (nw_devs nw)) ev" using Cons.prems(2) by simp
  have ok: "net_ok ctl ?nw" by (rule net_step_ok [OF Cons.prems(1) asks_event_ok [OF ev] assms(3)])
  have "\<forall>ev \<in> set evs. asks i q (length (nw_devs ?nw)) ev" using Cons.prems(2) by (simp add: net_step_devs)
  from Cons.IH [OF ok this asks_step [OF Cons.prems(1) ev assms(3) Cons.prems(3)]]
  show ?case by (simp add: net_step_ids [OF Cons.prems(1) asks_event_ok [OF ev] assms(3)])
qed simp

section \<open>The started operation\<close>

lemma GetTasks_gp_other [simp]: "GetTasks dds path (tp\<lparr>tp_getPropertiesOps := ops\<rparr>) = GetTasks dds path tp"
proof -
  have "GetTasks_loop (tp\<lparr>tp_getPropertiesOps := ops\<rparr>) = GetTasks_loop tp"
    by (rule ext) (rule GetTasks_loop_cong, simp_all)
  then show ?thesis by (simp add: GetTasks_def)
qed

lemma AsyncGetProperties_starts:
  assumes "topo_wf tp" "GetTasks dds path tp = Inr tasks" "map_of (tp_getPropertiesOps tp) i = None"
  shows "\<exists>tp'. AsyncGetProperties dds i q path timeout tp = (tp', None) \<and> topo_wf tp' \<and>
    tp_stateData tp' = tp_stateData tp \<and> tp_stateIndex tp' = tp_stateIndex tp \<and>
    tp_sent tp' = tp_sent tp @ [([GetProperties \<lparr>gpr_requestId = i, gpr_query = q\<rparr>], path)] \<and>
    map_of (tp_getPropertiesOps tp') i = Some (gpo_new i tasks timeout)"
proof -
  obtain tp' e where a: "AsyncGetProperties dds i q path timeout tp = (tp', e)" by fastforce
  have "topo_wf tp'"
    using AsyncGetProperties_ok [of tp dds i q path timeout] assms(1) by (simp add: topo_step_ok_def a)
  then show ?thesis
    using a assms(2) map_of_drop_None [OF assms(3), of gpo_IsCompleted]
    by (auto simp: AsyncGetProperties_def Let_def tp_send_def)
qed

text \<open>The answers of the devices that are asked, by their tasks.\<close>

lemma asked_answers:
  fixes api :: "nat \<Rightarrow> plugin_api" and q :: string
  assumes "net_ok ctl nw" "fId ` set tasks \<subseteq> dv_taskId ` set (nw_devs nw)"
    and "distinct ks" "set ks = asked tasks nw"
  defines "es \<equiv> map (\<lambda>k. (map dv_taskId (nw_devs nw) ! k, own_answer (api k) q)) ks"
  shows "distinct (map fst es)" "fst ` set es = fId ` set tasks"
    and "(t, r, ps) \<in> set es \<longleftrightarrow> (\<exists>k \<in> asked tasks nw. t = dv_taskId (nw_devs nw ! k) \<and> own_answer (api k) q = (r, ps))"
proof -
  have es: "es = map (\<lambda>k. (dv_taskId (nw_devs nw ! k), own_answer (api k) q)) ks"
    unfolding es_def using assms(4) by (intro map_cong refl) (simp add: asked_def)
  then have m: "map fst es = map (\<lambda>k. dv_taskId (nw_devs nw ! k)) ks" by (simp add: comp_def)
  show "distinct (map fst es)"
    unfolding m using assms(3,4) asked_inj [OF assms(1), of tasks] by (simp add: distinct_map)
  show "fst ` set es = fId ` set tasks"
    using arg_cong [OF m, of set] assms(4) asked_tasks [OF assms(2)] by simp
  show "(t, r, ps) \<in> set es \<longleftrightarrow> (\<exists>k \<in> asked tasks nw. t = dv_taskId (nw_devs nw ! k) \<and> own_answer (api k) q = (r, ps))"
    unfolding es using assms(4) by auto
qed

section \<open>Property\<close>


text \<open>Two devices of which one finds a property and the query of the other fails.\<close>

definition query_api :: "nat \<Rightarrow> plugin_api" where
  "query_api k = sample_api\<lparr>pl_query := (\<lambda>_. if k = 0 then Inl (OtherException ''no such key'') else Inr [(''k'', ''v'')])\<rparr>"

abbreviation query_start :: network where
  "query_start \<equiv> subscribe_all 99 sample_dds query_api [(1, 3), (0, 8)] (tp_new sample_dds {} []) sample_devs"

definition query_run :: "net_event list" where
  "query_run = [DevCommands 1 15 [GetProperties \<lparr>gpr_requestId = 7, gpr_query = ''q''\<rparr>], DevChange 0 18 InitializingDevice,
     DevCommands 0 21 [GetProperties \<lparr>gpr_requestId = 7, gpr_query = ''q''\<rparr>]]"

lemma query_start_facts:
  "GetTasks sample_dds '''' (nw_tp query_start) = Inr [\<lparr>fId = 1, fCollectionId = 0\<rparr>, \<lparr>fId = 2, fCollectionId = 0\<rparr>]"
  "tp_getPropertiesOps (nw_tp query_start) = []" "map dv_taskId (nw_devs query_start) = [2, 1]"
  by code_simp+

lemma query_run_facts:
  "\<forall>ev \<in> set query_run. asks 7 ''q'' 2 ev" "concat (map asked_device query_run) = [1, 0]"
  by (simp_all add: query_run_def)


end
