(* ===== verification/Blocking_Calls.thy ===== *)
theory Blocking_Calls
  imports Topology_Props
begin

text \<open>
  The blocking calls of \<^verbatim>\<open>src/odc/Topology.h\<close> return: whatever else the topology handles while a thread waits for its
  operation (commands of devices, exits of tasks, other calls and their timers), the operation is kept with its timer until it
  has completed, and the timer completes it. The definitions are those of \<open>Topology_Async\<close>.
\<close>

section \<open>Waiting with a timer\<close>

text \<open>
  A state machine with an observer: \<open>armed\<close> says that what the observer waits for has a timer. As long as nothing is
  observed, it stays armed, and the timer's own step lets something be observed.
\<close>

locale timed_wait =
  fixes step :: "'e \<Rightarrow> 's \<Rightarrow> 's" and watch :: "'s \<Rightarrow> 'r option" and armed :: "'s \<Rightarrow> bool" and timer :: 'e
  assumes stays: "armed s \<Longrightarrow> watch s = None \<Longrightarrow> armed (step e s)"
    and fires: "armed s \<Longrightarrow> watch s = None \<Longrightarrow> watch (step timer s) \<noteq> None"
begin

lemma observed: "armed s \<Longrightarrow> timer \<in> set es \<Longrightarrow> \<exists>k \<le> length es. watch (fold step (take k es) s) \<noteq> None"
proof (induction es arbitrary: s)
  case (Cons e es)
  show ?case
  proof (cases "watch s = None")
    case False
    then show ?thesis by (intro exI [of _ 0]) simp
  next
    case True
    have "\<exists>k \<le> length es. watch (fold step (take k es) (step e s)) \<noteq> None"
    proof (cases "e = timer")
      case True
      then show ?thesis using fires [OF Cons.prems(1) \<open>watch s = None\<close>] by (intro exI [of _ 0]) simp
    next
      case False
      then show ?thesis using Cons.IH [OF stays [OF Cons.prems(1) True]] Cons.prems(2) by simp
    qed
    then obtain k where "k \<le> length es" "watch (fold step (take k es) (step e s)) \<noteq> None" by blast
    then show ?thesis by (intro exI [of _ "Suc k"]) simp
  qed
qed simp

end

lemma await_returns:
  "\<exists>k \<le> length es. watch (fold (\<lambda>e tp. fst (topo_step dds e tp)) (take k es) tp) \<noteq> None \<Longrightarrow>
     snd (await dds watch es tp) \<noteq> None"
proof (induction es arbitrary: tp)
  case Nil
  then show ?case by (auto simp: await_step(1))
next
  case (Cons e es)
  then obtain k where k: "k \<le> Suc (length es)" "watch (fold (\<lambda>e tp. fst (topo_step dds e tp)) (take k (e # es)) tp) \<noteq> None"
    by auto
  show ?case
  proof (cases "watch tp")
    case None
    then obtain j where "k = Suc j" using k(2) by (cases k) auto
    then show ?thesis using Cons.IH [of "fst (topo_step dds e tp)"] k by (auto simp: await_step(3) [where watch = watch, OF None])
  qed (simp add: await_step(1))
qed

section \<open>Operations are kept\<close>

text \<open>An operation with a property \<open>P\<close> in one collection is there in the other, with the property \<open>Q\<close>.\<close>

definition alive :: "('op \<Rightarrow> bool) \<Rightarrow> u64 \<Rightarrow> (u64 \<times> 'op) list \<Rightarrow> bool" where
  "alive P i ops \<longleftrightarrow> (\<exists>op. map_of ops i = Some op \<and> P op)"

definition carries :: "('op \<Rightarrow> bool) \<Rightarrow> ('op \<Rightarrow> bool) \<Rightarrow> (u64 \<times> 'op) list \<Rightarrow> (u64 \<times> 'op) list \<Rightarrow> bool" where
  "carries P Q ops ops' \<longleftrightarrow> (\<forall>i. alive P i ops \<longrightarrow> alive Q i ops')"

named_theorems carry "collections of operations that keep what is in them"

lemma carries_refl [carry]: "(\<And>op. P op \<Longrightarrow> Q op) \<Longrightarrow> carries P Q ops ops"
  by (auto simp: carries_def alive_def)

lemma carries_trans: "carries P Q a b \<Longrightarrow> carries Q R b c \<Longrightarrow> carries P R a c"
  by (simp add: carries_def)

lemma carries_weaken: "(\<And>op. P' op \<Longrightarrow> P op) \<Longrightarrow> carries P Q a b \<Longrightarrow> carries P' Q a b"
  by (auto simp: carries_def alive_def)

lemma carries_map_vals [carry]: "(\<And>op. P op \<Longrightarrow> P (f op)) \<Longrightarrow> carries P P ops (map_vals f ops)"
  by (auto simp: carries_def alive_def)

lemma carries_update [carry]:
  "(\<And>op. map_of ops j = Some op \<Longrightarrow> P op \<Longrightarrow> P op') \<Longrightarrow> carries P P ops (AList.update j op' ops)"
  by (auto simp: carries_def alive_def update_conv')

lemma carries_emplace [carry]: "carries P P ops (umap_emplace j op ops)"
  by (auto simp: carries_def alive_def split: option.split)

lemma carries_fire [carry]:
  "(\<And>op. P op \<Longrightarrow> P (fst (fire op))) \<Longrightarrow> carries P P ops (fst (fire_timer fire j ops))"
  by (auto simp: fire_timer_def split_def Let_def intro: carries_refl carries_update split: option.split)

lemma map_of_drop: "map_of ops i = Some op \<Longrightarrow> \<not> completed op \<Longrightarrow> map_of (drop_completed completed ops) i = Some op"
  unfolding drop_completed_def by (induction ops) (auto split: if_splits)

lemma carries_drop:
  "(\<And>op. P op \<Longrightarrow> Q op \<and> \<not> completed op) \<Longrightarrow> carries P Q ops (drop_completed completed ops)"
  by (auto simp: carries_def alive_def dest: map_of_drop)

section \<open>The four kinds of operations\<close>

text \<open>A live operation has a timer or has completed; an armed one has a timer and has not.\<close>

definition cs_live :: "change_state_op \<Rightarrow> bool" where
  "cs_live op \<longleftrightarrow> cs_timer op \<or> cs_IsCompleted op"

definition ws_live :: "wait_for_state_op \<Rightarrow> bool" where
  "ws_live op \<longleftrightarrow> ws_timer op \<or> ws_IsCompleted op"

definition gpo_live :: "get_properties_op \<Rightarrow> bool" where
  "gpo_live op \<longleftrightarrow> gpo_timer op \<or> gpo_IsCompleted op"

definition spo_live :: "set_properties_op \<Rightarrow> bool" where
  "spo_live op \<longleftrightarrow> spo_timer op \<or> spo_IsCompleted op"

definition cs_armed :: "change_state_op \<Rightarrow> bool" where
  "cs_armed op \<longleftrightarrow> cs_timer op \<and> \<not> cs_IsCompleted op"

definition ws_armed :: "wait_for_state_op \<Rightarrow> bool" where
  "ws_armed op \<longleftrightarrow> ws_timer op \<and> \<not> ws_IsCompleted op"

definition gpo_armed :: "get_properties_op \<Rightarrow> bool" where
  "gpo_armed op \<longleftrightarrow> gpo_timer op \<and> \<not> gpo_IsCompleted op"

definition spo_armed :: "set_properties_op \<Rightarrow> bool" where
  "spo_armed op \<longleftrightarrow> spo_timer op \<and> \<not> spo_IsCompleted op"

lemmas live_defs = cs_live_def ws_live_def gpo_live_def spo_live_def
lemmas armed_defs = cs_armed_def ws_armed_def gpo_armed_def spo_armed_def

lemma armed_live [carry]:
  "cs_armed c \<Longrightarrow> cs_live c" "ws_armed w \<Longrightarrow> ws_live w" "gpo_armed g \<Longrightarrow> gpo_live g" "spo_armed p \<Longrightarrow> spo_live p"
  by (simp_all add: live_defs armed_defs)

lemma op_Complete_completes [simp]: "op_IsCompleted (fst (op_Complete ec r op))"
  by (cases op) simp_all

lemma op_Complete_result:
  "\<exists>e r'. op_result (fst (op_Complete ec r op)) = Some (e, r')" "\<exists>e. op_result (fst (op_Complete ec () op0)) = Some (e, ())"
  by (cases op, simp_all) (cases op0, simp_all)

lemma cs_live_step [carry]:
  "cs_live (fst (cs_Complete ec sd op))" "cs_live op \<Longrightarrow> cs_live (cs_TryCompletion sd op)"
  "cs_live op \<Longrightarrow> cs_live (cs_Update sd t s x op)" "cs_live (fst (cs_timer_fired sd op)) \<longleftrightarrow> cs_live op"
  by (auto simp: cs_live_def cs_defs cs_timer_fired_def op_Timeout_def Let_def split_def)

lemma ws_live_step [carry]:
  "ws_live op \<Longrightarrow> ws_live (ws_TryCompletion op)" "ws_live op \<Longrightarrow> ws_live (ws_Update t l s x op)"
  "ws_live (fst (ws_timer_fired op)) \<longleftrightarrow> ws_live op"
  by (auto simp: ws_live_def ws_defs ws_timer_fired_def op_Timeout_def Let_def split_def)

lemma gpo_live_step [carry]:
  "gpo_live op \<Longrightarrow> gpo_live (gpo_Update t r ps op)" "gpo_live (fst (gpo_timer_fired op)) \<longleftrightarrow> gpo_live op"
  by (auto simp: gpo_live_def gpo_defs gpo_timer_fired_def op_Timeout_def Let_def split_def)

lemma spo_live_step [carry]:
  "spo_live op \<Longrightarrow> spo_live (spo_TryCompletion op)" "spo_live op \<Longrightarrow> spo_live (spo_Update t r x op)"
  "spo_live (fst (spo_timer_fired op)) \<longleftrightarrow> spo_live op"
  by (auto simp: spo_live_def spo_defs spo_timer_fired_def op_Timeout_def Let_def split_def)

text \<open>Recounting does not touch the timer or the result.\<close>

lemma cs_live_ResetCount [carry]: "cs_live (fst (cs_ResetCount idx sd op)) \<longleftrightarrow> cs_live op"
proof -
  have "cs_timer (fst (cs_ResetCount_loop idx sd n x)) = cs_timer x \<and> cs_op (fst (cs_ResetCount_loop idx sd n x)) = cs_op x"
    for n and x :: change_state_op
    by (induction idx sd n x rule: cs_ResetCount_loop.induct) (simp_all split: option.split)
  then show ?thesis by (simp add: cs_ResetCount_def cs_live_def cs_IsCompleted_def)
qed

lemma ws_live_ResetCount [carry]: "ws_live (fst (ws_ResetCount idx sd op)) \<longleftrightarrow> ws_live op"
proof -
  have "ws_timer (fst (ws_ResetCount_loop idx sd n x)) = ws_timer x \<and> ws_op (fst (ws_ResetCount_loop idx sd n x)) = ws_op x"
    for n and x :: wait_for_state_op
    by (induction idx sd n x rule: ws_ResetCount_loop.induct) (simp_all split: option.split)
  then show ?thesis by (simp add: ws_ResetCount_def ws_live_def ws_IsCompleted_def)
qed

lemma spo_live_ResetCount [carry]: "spo_live (fst (spo_ResetCount idx sd op)) \<longleftrightarrow> spo_live op"
proof -
  have "spo_timer (fst (spo_ResetCount_loop ts idx sd x)) = spo_timer x \<and> spo_op (fst (spo_ResetCount_loop ts idx sd x)) = spo_op x"
    for ts and x :: set_properties_op
    by (induction ts idx sd x rule: spo_ResetCount_loop.induct) (simp_all add: Let_def split: option.split)
  then show ?thesis by (simp add: spo_ResetCount_def spo_live_def spo_IsCompleted_def)
qed

section \<open>Steps keep operations\<close>

definition ops_kept :: "topology \<Rightarrow> topology \<Rightarrow> bool" where
  "ops_kept tp tp' \<longleftrightarrow> carries cs_live cs_live (tp_changeStateOps tp) (tp_changeStateOps tp') \<and>
     carries ws_live ws_live (tp_waitForStateOps tp) (tp_waitForStateOps tp') \<and>
     carries gpo_live gpo_live (tp_getPropertiesOps tp) (tp_getPropertiesOps tp') \<and>
     carries spo_live spo_live (tp_setPropertiesOps tp) (tp_setPropertiesOps tp')"

definition ops_held :: "topology \<Rightarrow> topology \<Rightarrow> bool" where
  "ops_held tp tp' \<longleftrightarrow> carries cs_armed cs_live (tp_changeStateOps tp) (tp_changeStateOps tp') \<and>
     carries ws_armed ws_live (tp_waitForStateOps tp) (tp_waitForStateOps tp') \<and>
     carries gpo_armed gpo_live (tp_getPropertiesOps tp) (tp_getPropertiesOps tp') \<and>
     carries spo_armed spo_live (tp_setPropertiesOps tp) (tp_setPropertiesOps tp')"

lemma ops_kept_trans: "ops_kept a b \<Longrightarrow> ops_kept b c \<Longrightarrow> ops_kept a c"
  unfolding ops_kept_def by (elim conjE, intro conjI; (rule carries_trans, assumption, assumption))

lemma ops_kept_held: "ops_kept a b \<Longrightarrow> ops_held a b"
  unfolding ops_kept_def ops_held_def by (elim conjE, intro conjI; (rule carries_weaken, erule armed_live, assumption))

lemma ops_held_kept: "ops_held a b \<Longrightarrow> ops_kept b c \<Longrightarrow> ops_held a c"
  unfolding ops_kept_def ops_held_def by (elim conjE, intro conjI; (rule carries_trans, assumption, assumption))

lemma ops_kept_same:
  "tp_changeStateOps b = tp_changeStateOps a \<Longrightarrow> tp_waitForStateOps b = tp_waitForStateOps a \<Longrightarrow>
     tp_getPropertiesOps b = tp_getPropertiesOps a \<Longrightarrow> tp_setPropertiesOps b = tp_setPropertiesOps a \<Longrightarrow> ops_kept a b"
  by (simp add: ops_kept_def carries_refl)

lemma ops_kept_updates:
  "ops_kept tp (update_cs_ops t s x tp)" "ops_kept tp (update_ws_ops t l s x tp)" "ops_kept tp (update_sp_ops t x tp)"
  by (simp_all add: ops_kept_def update_cs_ops_def update_ws_ops_def update_sp_ops_def carry)

lemma ops_kept_IsExpendable: "ops_kept tp (fst (IsExpendable dds k tp))"
  by (auto simp: IsExpendable_def ignore_collection_def tp_set_device_def Let_def split_def
      intro!: ops_kept_same split: sum.split option.split)

text \<open>The three updates that follow a reported state.\<close>

lemma ops_kept_report:
  assumes "ops_kept a b"
  shows "ops_kept a (update_ws_ops t l s x (update_cs_ops t s x b))"
    and "ops_kept a (update_ws_ops t l s x (update_cs_ops t s x (update_sp_ops t' x b)))"
  by (rule ops_kept_trans [OF ops_kept_trans [OF assms ops_kept_updates(1)] ops_kept_updates(2)])
    (rule ops_kept_trans [OF ops_kept_trans [OF ops_kept_trans [OF assms ops_kept_updates(3)] ops_kept_updates(1)] ops_kept_updates(2)])

lemma ops_kept_StateChange: "ops_kept tp (HandleCmd_StateChange dds c tp)"
proof (cases "tp_at tp (sc_taskId c)")
  case (Inr k)
  let ?tp1 = "tp_set_device k ((tp_device tp k)\<lparr>ds_lastState := sc_lastState c, ds_state := sc_currentState c\<rparr>) tp"
  have 1: "ops_kept tp ?tp1" by (rule ops_kept_same) (simp_all add: tp_set_device_def)
  obtain tp2 r where e: "IsExpendable dds k ?tp1 = (tp2, r)" by fastforce
  have 2: "ops_kept tp tp2" using ops_kept_trans [OF 1 ops_kept_IsExpendable [of ?tp1 dds k]] by (simp add: e)
  show ?thesis
    by (cases r) (auto simp: HandleCmd_StateChange_def Inr Let_def e 2 ops_kept_report [OF 1] ops_kept_report [OF 2])
qed (simp add: HandleCmd_StateChange_def ops_kept_same)

lemma ops_kept_TaskDone: "ops_kept tp (fst (onTaskDone dds t code sig tp))"
proof (cases "tp_at tp t")
  case (Inr k)
  have 1: "ops_kept tp ((tp_set_device k d tp)\<lparr>tp_publishers := n\<rparr>)" for d n
    by (rule ops_kept_same) (simp_all add: tp_set_device_def)
  have 2: "ops_kept tp (fst (IsExpendable dds k ((tp_set_device k d tp)\<lparr>tp_publishers := n\<rparr>)))" for d n
    by (rule ops_kept_trans [OF 1 ops_kept_IsExpendable])
  show ?thesis
    by (auto simp: onTaskDone_def Inr Let_def intro: ops_kept_report [OF 1]
        dest!: arg_cong [of _ _ fst] split: prod.split sum.split)
      (metis 2 fst_conv ops_kept_report(2))+
qed (simp add: onTaskDone_def ops_kept_same)

lemma carries_TransitionStatus:
  "carries cs_live cs_live ops (fst (TransitionStatus_loop t tp ops))"
proof (induction ops)
  case (Cons e ops)
  obtain i op where e: "e = (i, op)" by (cases e)
  have cons: "carries cs_live cs_live ((i, op) # ops) ((i, op') # ops')"
    if "cs_live op \<Longrightarrow> cs_live op'" "carries cs_live cs_live ops ops'" for op' ops'
    using that by (auto simp: carries_def alive_def)
  show ?case using Cons
    by (auto simp: e split_def Let_def carry intro!: cons carries_refl split: sum.split)
qed (simp add: carries_refl)

lemma ops_kept_HandleCmd: "ops_kept tp (fst (HandleCmd dds cmd tp))"
proof (cases cmd)
  case (StateChangeSubscription c)
  then show ?thesis
    by (auto simp: HandleCmd_def HandleCmd_StateChangeSubscription_def tp_set_device_def intro!: ops_kept_same split: sum.split)
next
  case (StateChangeUnsubscription c)
  then show ?thesis
    by (auto simp: HandleCmd_def HandleCmd_StateChangeUnsubscription_def tp_set_device_def Let_def split_def
        intro!: ops_kept_same split: sum.split)
next
  case (StateChange c)
  then show ?thesis by (simp add: HandleCmd_def ops_kept_StateChange)
next
  case (TransitionStatus c)
  then show ?thesis
    by (simp add: HandleCmd_def HandleCmd_TransitionStatus_def ops_kept_def carries_refl carries_TransitionStatus split_def Let_def)
next
  case (Properties c)
  have "carries gpo_live gpo_live (tp_getPropertiesOps tp) (tp_getPropertiesOps (HandleCmd_Properties c tp))"
    by (auto simp: HandleCmd_Properties_def carry intro!: carries_refl carries_update split: option.split)
  then show ?thesis
    by (simp add: Properties HandleCmd_def ops_kept_def HandleCmd_Properties_def carries_refl split: option.split)
next
  case (PropertiesSet c)
  have "carries spo_live spo_live (tp_setPropertiesOps tp) (tp_setPropertiesOps (HandleCmd_PropertiesSet c tp))"
    by (auto simp: HandleCmd_PropertiesSet_def carry intro!: carries_refl carries_update split: option.split)
  then show ?thesis
    by (simp add: PropertiesSet HandleCmd_def ops_kept_def HandleCmd_PropertiesSet_def carries_refl split: option.split)
qed (simp_all add: HandleCmd_def ops_kept_same)

lemma ops_kept_HandleCmds: "ops_kept tp (fst (HandleCmds dds cmds tp))"
proof (induction cmds arbitrary: tp)
  case (Cons c cs)
  obtain tp1 x where 1: "HandleCmd dds c tp = (tp1, x)" by fastforce
  then have "ops_kept tp tp1" using ops_kept_HandleCmd [of tp dds c] by simp
  then show ?case using Cons.IH [of tp1] ops_kept_trans by (cases x) (auto simp: 1)
qed (simp add: ops_kept_same)

text \<open>A new call first removes the completed operations of its kind.\<close>

lemma ops_held_drop:
  "ops_held tp (tp\<lparr>tp_changeStateOps := drop_completed cs_IsCompleted (tp_changeStateOps tp)\<rparr>)"
  "ops_held tp (tp\<lparr>tp_waitForStateOps := drop_completed ws_IsCompleted (tp_waitForStateOps tp)\<rparr>)"
  "ops_held tp (tp\<lparr>tp_getPropertiesOps := drop_completed gpo_IsCompleted (tp_getPropertiesOps tp)\<rparr>)"
  by (simp_all add: ops_held_def carries_refl armed_live) (rule carries_drop, simp add: armed_defs live_defs)+

lemma ops_kept_send: "ops_kept tp (tp_send cmds path tp)"
  by (rule ops_kept_same) (simp_all add: tp_send_def)

lemma ops_kept_insert:
  "(\<And>op0. map_of (tp_changeStateOps tp) i = Some op0 \<Longrightarrow> cs_live op0 \<Longrightarrow> cs_live c) \<Longrightarrow>
     ops_kept tp (tp\<lparr>tp_changeStateOps := AList.update i c (tp_changeStateOps tp)\<rparr>)"
  "(\<And>op0. map_of (tp_waitForStateOps tp) i = Some op0 \<Longrightarrow> ws_live op0 \<Longrightarrow> ws_live w) \<Longrightarrow>
     ops_kept tp (tp\<lparr>tp_waitForStateOps := AList.update i w (tp_waitForStateOps tp)\<rparr>)"
  "ops_kept tp (tp\<lparr>tp_getPropertiesOps := umap_emplace i g (tp_getPropertiesOps tp)\<rparr>)"
  "(\<And>op0. map_of (tp_setPropertiesOps tp) i = Some op0 \<Longrightarrow> spo_live op0 \<Longrightarrow> spo_live p) \<Longrightarrow>
     ops_kept tp (tp\<lparr>tp_setPropertiesOps := AList.update i p (tp_setPropertiesOps tp)\<rparr>)"
  by (simp_all add: ops_kept_def carries_refl carries_emplace) (rule carries_update, blast)+

lemma ops_held_AsyncChangeState: "ops_held tp (fst (AsyncChangeState dds i tr path timeout tp))"
proof -
  let ?tp1 = "tp\<lparr>tp_changeStateOps := drop_completed cs_IsCompleted (tp_changeStateOps tp)\<rparr>"
  let ?tp2 = "tp_send [ChangeState \<lparr>chs_transition = tr\<rparr>] path ?tp1"
  have 2: "ops_held tp ?tp2" by (rule ops_held_kept [OF ops_held_drop(1) ops_kept_send])
  show ?thesis
  proof (cases "GetTasks dds path ?tp1")
    case (Inr tasks)
    show ?thesis
    proof (cases "case map_of (tp_changeStateOps ?tp1) i of Some op \<Rightarrow> Inr op | None \<Rightarrow> cs_new i tr tasks timeout")
      case (Inr op)
      let ?r = "cs_ResetCount (tp_stateIndex ?tp2) (tp_stateData ?tp2) op"
      let ?op2 = "if snd ?r = None then cs_TryCompletion (tp_stateData ?tp2) (fst ?r) else fst ?r"
      have "ops_kept ?tp2 (?tp2\<lparr>tp_changeStateOps := AList.update i ?op2 (tp_changeStateOps ?tp2)\<rparr>)"
        by (rule ops_kept_insert(1)) (use Inr in \<open>auto simp: tp_send_def carry\<close>)
      from ops_held_kept [OF 2 this] show ?thesis using \<open>GetTasks dds path ?tp1 = Inr tasks\<close> Inr
        by (simp add: AsyncChangeState_def Let_def split_def cong: if_cong)
    qed (use Inr ops_held_drop(1) in \<open>simp add: AsyncChangeState_def Let_def\<close>)
  qed (use ops_held_drop(1) in \<open>simp add: AsyncChangeState_def Let_def\<close>)
qed

lemma ops_held_AsyncWaitForState: "ops_held tp (fst (AsyncWaitForState dds i l s path timeout tp))"
proof -
  let ?tp1 = "tp\<lparr>tp_waitForStateOps := drop_completed ws_IsCompleted (tp_waitForStateOps tp)\<rparr>"
  show ?thesis
  proof (cases "GetTasks dds path ?tp1")
    case (Inr tasks)
    let ?op = "case map_of (tp_waitForStateOps ?tp1) i of Some op \<Rightarrow> op | None \<Rightarrow> ws_new i l s tasks timeout"
    let ?r = "ws_ResetCount (tp_stateIndex ?tp1) (tp_stateData ?tp1) ?op"
    let ?op2 = "if snd ?r = None then ws_TryCompletion (fst ?r) else fst ?r"
    have "ops_kept ?tp1 (?tp1\<lparr>tp_waitForStateOps := AList.update i ?op2 (tp_waitForStateOps ?tp1)\<rparr>)"
      by (rule ops_kept_insert(2)) (auto simp: carry)
    from ops_held_kept [OF ops_held_drop(2) this] show ?thesis using Inr by (simp add: AsyncWaitForState_def Let_def split_def cong: if_cong)
  qed (use ops_held_drop(2) in \<open>simp add: AsyncWaitForState_def Let_def\<close>)
qed

lemma ops_held_AsyncGetProperties: "ops_held tp (fst (AsyncGetProperties dds i query path timeout tp))"
proof -
  let ?tp1 = "tp\<lparr>tp_getPropertiesOps := drop_completed gpo_IsCompleted (tp_getPropertiesOps tp)\<rparr>"
  have "ops_held tp (tp_send cmds path (?tp1\<lparr>tp_getPropertiesOps := umap_emplace i op (tp_getPropertiesOps ?tp1)\<rparr>))" for cmds op
    by (rule ops_held_kept [OF ops_held_drop(3) ops_kept_trans [OF ops_kept_insert(3) ops_kept_send]])
  then show ?thesis using ops_held_drop(3) by (simp add: AsyncGetProperties_def Let_def split: sum.split)
qed

lemma ops_held_AsyncSetProperties: "ops_held tp (fst (AsyncSetProperties dds i props path timeout tp))"
proof -
  let ?tp1 = "tp\<lparr>tp_getPropertiesOps := drop_completed gpo_IsCompleted (tp_getPropertiesOps tp)\<rparr>"
  let ?tp2 = "tp_send [SetProperties \<lparr>spr_requestId = i, spr_properties = props\<rparr>] path ?tp1"
  have 2: "ops_held tp ?tp2" by (rule ops_held_kept [OF ops_held_drop(3) ops_kept_send])
  show ?thesis
  proof (cases "GetTasks dds path ?tp1")
    case (Inr tasks)
    let ?op = "case map_of (tp_setPropertiesOps ?tp1) i of Some op \<Rightarrow> op | None \<Rightarrow> spo_new i tasks timeout"
    let ?r = "spo_ResetCount (tp_stateIndex ?tp2) (tp_stateData ?tp2) ?op"
    let ?op2 = "if snd ?r = None then spo_TryCompletion (fst ?r) else fst ?r"
    have "ops_kept ?tp2 (?tp2\<lparr>tp_setPropertiesOps := AList.update i ?op2 (tp_setPropertiesOps ?tp2)\<rparr>)"
      by (rule ops_kept_insert(4)) (auto simp: tp_send_def carry)
    from ops_held_kept [OF 2 this] show ?thesis using Inr by (simp add: AsyncSetProperties_def Let_def split_def cong: if_cong)
  qed (use ops_held_drop(3) in \<open>simp add: AsyncSetProperties_def Let_def\<close>)
qed

lemma ops_kept_timer:
  "ops_kept tp (tp\<lparr>tp_changeStateOps := fst (fire_timer (cs_timer_fired sd) i (tp_changeStateOps tp))\<rparr>)"
  "ops_kept tp (tp\<lparr>tp_waitForStateOps := fst (fire_timer ws_timer_fired i (tp_waitForStateOps tp))\<rparr>)"
  "ops_kept tp (tp\<lparr>tp_getPropertiesOps := fst (fire_timer gpo_timer_fired i (tp_getPropertiesOps tp))\<rparr>)"
  "ops_kept tp (tp\<lparr>tp_setPropertiesOps := fst (fire_timer spo_timer_fired i (tp_setPropertiesOps tp))\<rparr>)"
  by (simp_all add: ops_kept_def carries_refl carries_fire carry)

lemma ops_kept_other:
  "ops_kept tp (SendSubscriptionHeartbeats tp)" "ops_kept tp (UnsubscribeFromStateChanges_send tp)"
  "ops_kept tp (fst (IgnoreFailedTask t tp))" "ops_kept tp (IgnoreFailedCollections cs tp)"
  by (auto intro!: ops_kept_same split: sum.split
      simp: SendSubscriptionHeartbeats_def UnsubscribeFromStateChanges_send_def IgnoreFailedTask_def IgnoreFailedCollections_def
        tp_send_def tp_set_device_def Let_def split_def)

lemmas ops_steps = ops_kept_HandleCmds ops_kept_TaskDone ops_kept_timer ops_kept_other

lemma ops_held_step: "ops_held tp (fst (topo_step dds ev tp))"
  by (cases ev)
    (simp_all add: topo_step_def split_def Let_def ops_steps [THEN ops_kept_held] ops_kept_held [OF ops_kept_same]
      ops_held_AsyncChangeState ops_held_AsyncWaitForState ops_held_AsyncGetProperties ops_held_AsyncSetProperties)

section \<open>Every kind of operation is a timed wait\<close>

lemma watch_armed:
  "alive cs_live i (tp_changeStateOps tp) \<Longrightarrow> watch_cs i tp = None \<Longrightarrow> alive cs_armed i (tp_changeStateOps tp)"
  "alive ws_live i (tp_waitForStateOps tp) \<Longrightarrow> watch_ws i tp = None \<Longrightarrow> alive ws_armed i (tp_waitForStateOps tp)"
  "alive gpo_live i (tp_getPropertiesOps tp) \<Longrightarrow> watch_gp i tp = None \<Longrightarrow> alive gpo_armed i (tp_getPropertiesOps tp)"
  "alive spo_live i (tp_setPropertiesOps tp) \<Longrightarrow> watch_sp i tp = None \<Longrightarrow> alive spo_armed i (tp_setPropertiesOps tp)"
  by (auto simp: alive_def watch_cs_def watch_ws_def watch_gp_def watch_sp_def live_defs armed_defs op_IsCompleted_result
      cs_IsCompleted_def ws_IsCompleted_def gpo_IsCompleted_def spo_IsCompleted_def)

lemma step_alive:
  fixes dds :: dds_topo and ev :: topo_event and tp :: topology
  defines "tp' \<equiv> fst (topo_step dds ev tp)"
  shows "alive cs_armed i (tp_changeStateOps tp) \<Longrightarrow> alive cs_live i (tp_changeStateOps tp')"
    and "alive ws_armed i (tp_waitForStateOps tp) \<Longrightarrow> alive ws_live i (tp_waitForStateOps tp')"
    and "alive gpo_armed i (tp_getPropertiesOps tp) \<Longrightarrow> alive gpo_live i (tp_getPropertiesOps tp')"
    and "alive spo_armed i (tp_setPropertiesOps tp) \<Longrightarrow> alive spo_live i (tp_setPropertiesOps tp')"
  using ops_held_step [of tp dds ev] by (simp_all add: tp'_def ops_held_def carries_def)

lemma timer_completes:
  "alive cs_armed i (tp_changeStateOps tp) \<Longrightarrow> watch_cs i (fst (topo_step dds (EvTimerChangeState i) tp)) \<noteq> None"
  "alive ws_armed i (tp_waitForStateOps tp) \<Longrightarrow> watch_ws i (fst (topo_step dds (EvTimerWaitForState i) tp)) \<noteq> None"
  "alive gpo_armed i (tp_getPropertiesOps tp) \<Longrightarrow> watch_gp i (fst (topo_step dds (EvTimerGetProperties i) tp)) \<noteq> None"
  "alive spo_armed i (tp_setPropertiesOps tp) \<Longrightarrow> watch_sp i (fst (topo_step dds (EvTimerSetProperties i) tp)) \<noteq> None"
  by (auto simp: alive_def topo_step_def fire_timer_def Let_def split_def update_conv' armed_defs op_Timeout_def
      watch_cs_def watch_ws_def watch_gp_def watch_sp_def cs_timer_fired_def ws_timer_fired_def gpo_timer_fired_def spo_timer_fired_def
      intro: op_Complete_result)

interpretation cs_wait: timed_wait "\<lambda>ev tp. fst (topo_step dds ev tp)" "watch_cs i"
  "\<lambda>tp. alive cs_live i (tp_changeStateOps tp)" "EvTimerChangeState i" for dds i
  by unfold_locales (rule step_alive timer_completes; rule watch_armed; assumption)+

interpretation ws_wait: timed_wait "\<lambda>ev tp. fst (topo_step dds ev tp)" "watch_ws i"
  "\<lambda>tp. alive ws_live i (tp_waitForStateOps tp)" "EvTimerWaitForState i" for dds i
  by unfold_locales (rule step_alive timer_completes; rule watch_armed; assumption)+

interpretation gpo_wait: timed_wait "\<lambda>ev tp. fst (topo_step dds ev tp)" "watch_gp i"
  "\<lambda>tp. alive gpo_live i (tp_getPropertiesOps tp)" "EvTimerGetProperties i" for dds i
  by unfold_locales (rule step_alive timer_completes; rule watch_armed; assumption)+

interpretation spo_wait: timed_wait "\<lambda>ev tp. fst (topo_step dds ev tp)" "watch_sp i"
  "\<lambda>tp. alive spo_live i (tp_setPropertiesOps tp)" "EvTimerSetProperties i" for dds i
  by unfold_locales (rule step_alive timer_completes; rule watch_armed; assumption)+

text \<open>A call with a positive timeout starts its operation with a timer.\<close>

lemma cs_new_live: "cs_new i tr tasks timeout = Inr op \<Longrightarrow> 0 < timeout \<Longrightarrow> cs_live op"
  by (auto simp: cs_new_def cs_live_def split: option.splits)

lemma AsyncChangeState_live:
  assumes "0 < timeout" "map_of (tp_changeStateOps tp) i = None" "AsyncChangeState dds i tr path timeout tp = (tp', None)"
  shows "alive cs_live i (tp_changeStateOps tp')"
  using assms map_of_drop_None [OF assms(2)]
  by (auto simp: AsyncChangeState_def Let_def split_def alive_def update_conv' tp_send_def carry cs_new_live
      split: sum.splits if_splits)

lemma AsyncWaitForState_live:
  assumes "0 < timeout" "map_of (tp_waitForStateOps tp) i = None" "AsyncWaitForState dds i l s path timeout tp = (tp', None)"
  shows "alive ws_live i (tp_waitForStateOps tp')"
proof -
  have "ws_live (ws_new i l s tasks timeout)" for tasks using assms(1) by (simp add: ws_new_def ws_live_def)
  then show ?thesis
    using assms(3) map_of_drop_None [OF assms(2)]
    by (auto simp: AsyncWaitForState_def Let_def split_def alive_def update_conv' carry split: sum.splits if_splits)
qed

lemma AsyncGetProperties_live:
  assumes "0 < timeout" "map_of (tp_getPropertiesOps tp) i = None" "AsyncGetProperties dds i query path timeout tp = (tp', None)"
  shows "alive gpo_live i (tp_getPropertiesOps tp')"
proof -
  have "gpo_live (gpo_new i tasks timeout)" for tasks using assms(1) by (simp add: gpo_new_def gpo_live_def)
  then show ?thesis
    using assms(3) map_of_drop_None [OF assms(2)]
    by (auto simp: AsyncGetProperties_def Let_def alive_def tp_send_def split: sum.splits)
qed

lemma AsyncSetProperties_live:
  assumes "0 < timeout" "map_of (tp_setPropertiesOps tp) i = None" "AsyncSetProperties dds i props path timeout tp = (tp', None)"
  shows "alive spo_live i (tp_setPropertiesOps tp')"
proof -
  have "spo_live (spo_new i tasks timeout)" for tasks using assms(1) by (simp add: spo_new_def spo_live_def)
  then show ?thesis
    using assms(2,3)
    by (auto simp: AsyncSetProperties_def Let_def split_def alive_def update_conv' tp_send_def carry split: sum.splits if_splits)
qed

section \<open>Property\<close>

lemma block_on_returns:
  assumes "\<And>tp'. started = (tp', None) \<Longrightarrow> \<exists>k \<le> length es. watch (fold (\<lambda>ev tp. fst (topo_step dds ev tp)) (take k es) tp') \<noteq> None"
  shows "snd (block_on dds watch es started) \<noteq> None"
proof (cases started)
  case (Pair tp' e)
  then show ?thesis using await_returns [OF assms, of tp'] by (cases e) (auto simp: block_on_def split_def)
qed

text \<open>
  C5: A blocking call with a positive timeout always returns: whatever the topology handles while the call waits, in
  whatever order (messages of devices, exits of tasks, failures that are tolerated or not, further calls and
  their timers, the removal of completed operations), the call has returned when its own timer has fired, if not
  before, for each of the four kinds of calls; its id is new.
\<close>

theorem blocking_calls_return:
  assumes "0 < timeout"
    and "map_of (tp_changeStateOps tp) i = None" "map_of (tp_waitForStateOps tp) i = None"
    and "map_of (tp_getPropertiesOps tp) i = None" "map_of (tp_setPropertiesOps tp) i = None"
  shows "(EvTimerChangeState i \<in> set es \<longrightarrow> snd (tp_ChangeState dds i tr path timeout es tp) \<noteq> None) \<and>
    (EvTimerWaitForState i \<in> set es \<longrightarrow> snd (tp_WaitForState dds i l s path timeout es tp) \<noteq> None) \<and>
    (EvTimerGetProperties i \<in> set es \<longrightarrow> snd (tp_GetProperties dds i query path timeout es tp) \<noteq> None) \<and>
    (EvTimerSetProperties i \<in> set es \<longrightarrow> snd (tp_SetProperties dds i props path timeout es tp) \<noteq> None)"
  unfolding tp_ChangeState_def tp_WaitForState_def tp_GetProperties_def tp_SetProperties_def
proof (intro conjI impI)
  show "snd (block_on dds (watch_cs i) es (AsyncChangeState dds i tr path timeout tp)) \<noteq> None" if "EvTimerChangeState i \<in> set es"
    by (rule block_on_returns) (rule cs_wait.observed [OF AsyncChangeState_live [OF assms(1,2)] that])
  show "snd (block_on dds (watch_ws i) es (AsyncWaitForState dds i l s path timeout tp)) \<noteq> None" if "EvTimerWaitForState i \<in> set es"
    by (rule block_on_returns) (rule ws_wait.observed [OF AsyncWaitForState_live [OF assms(1,3)] that])
  show "snd (block_on dds (watch_gp i) es (AsyncGetProperties dds i query path timeout tp)) \<noteq> None" if "EvTimerGetProperties i \<in> set es"
    by (rule block_on_returns) (rule gpo_wait.observed [OF AsyncGetProperties_live [OF assms(1,4)] that])
  show "snd (block_on dds (watch_sp i) es (AsyncSetProperties dds i props path timeout tp)) \<noteq> None" if "EvTimerSetProperties i \<in> set es"
    by (rule block_on_returns) (rule spo_wait.observed [OF AsyncSetProperties_live [OF assms(1,5)] that])
qed

text \<open>A device exits while the calls wait, and the others never answer.\<close>

definition sample_waiting :: "topo_event list" where
  "sample_waiting = [EvTaskDone 1 1 9, EvHeartbeat, EvTimerChangeState 7, EvTimerWaitForState 7, EvTimerGetProperties 7,
     EvTimerSetProperties 7]"

theorem blocking_calls_return_witness:
  "snd (tp_ChangeState sample_dds 7 InitDevice '''' 5 sample_waiting (tp_new sample_dds {} [])) \<noteq> None \<and>
   snd (tp_WaitForState sample_dds 7 Idle Ready '''' 5 sample_waiting (tp_new sample_dds {} [])) \<noteq> None \<and>
   snd (tp_GetProperties sample_dds 7 ''q'' '''' 5 sample_waiting (tp_new sample_dds {} [])) \<noteq> None \<and>
   snd (tp_SetProperties sample_dds 7 [(''k'', ''v'')] '''' 5 sample_waiting (tp_new sample_dds {} [])) \<noteq> None"
proof -
  have ops: "tp_changeStateOps (tp_new sample_dds {} []) = []" "tp_waitForStateOps (tp_new sample_dds {} []) = []"
    "tp_getPropertiesOps (tp_new sample_dds {} []) = []" "tp_setPropertiesOps (tp_new sample_dds {} []) = []"
    by (simp_all add: tp_new_def sample_dds_def SubscribeToStateChanges_def tp_send_def)
  have "EvTimerChangeState 7 \<in> set sample_waiting" "EvTimerWaitForState 7 \<in> set sample_waiting"
    "EvTimerGetProperties 7 \<in> set sample_waiting" "EvTimerSetProperties 7 \<in> set sample_waiting"
    by (simp_all add: sample_waiting_def)
  then show ?thesis
    using blocking_calls_return [of 5 "tp_new sample_dds {} []" 7 sample_waiting sample_dds InitDevice "''''" Idle Ready "''q''"
        "[(''k'', ''v'')]"] by (simp only: ops map_of.simps) simp
qed

end
