(* ===== verification/Topology_Overloads.thy ===== *)
theory Topology_Overloads
  imports Topology_Props
begin

text \<open>
  The overloads of \<^verbatim>\<open>src/odc/Topology.h\<close> that fill in the path, the timeout or the last state, the accessors, and the
  constructor with its optional wait for the publishers.
\<close>

section \<open>Overloads\<close>

definition AsyncChangeState_all :: "dds_topo \<Rightarrow> u64 \<Rightarrow> mq_transition \<Rightarrow> topology \<Rightarrow> topology \<times> exn option" where
  "AsyncChangeState_all dds i transition = AsyncChangeState dds i transition '''' 0"

definition AsyncChangeState_timeout ::
  "dds_topo \<Rightarrow> u64 \<Rightarrow> mq_transition \<Rightarrow> int \<Rightarrow> topology \<Rightarrow> topology \<times> exn option" where
  "AsyncChangeState_timeout dds i transition timeout = AsyncChangeState dds i transition '''' timeout"

definition AsyncChangeState_path ::
  "dds_topo \<Rightarrow> u64 \<Rightarrow> mq_transition \<Rightarrow> string \<Rightarrow> topology \<Rightarrow> topology \<times> exn option" where
  "AsyncChangeState_path dds i transition path = AsyncChangeState dds i transition path 0"

definition ChangeState_timeout ::
  "dds_topo \<Rightarrow> u64 \<Rightarrow> mq_transition \<Rightarrow> int \<Rightarrow> topo_event list \<Rightarrow> topology \<Rightarrow>
     topology \<times> (exn + error_code \<times> TopoState) option" where
  "ChangeState_timeout dds i transition timeout = tp_ChangeState dds i transition '''' timeout"

definition AsyncWaitForState_all ::
  "dds_topo \<Rightarrow> u64 \<Rightarrow> mq_state \<Rightarrow> mq_state \<Rightarrow> topology \<Rightarrow> topology \<times> exn option" where
  "AsyncWaitForState_all dds i targetLastState targetCurrentState =
     AsyncWaitForState dds i targetLastState targetCurrentState '''' 0"

definition AsyncWaitForState_current :: "dds_topo \<Rightarrow> u64 \<Rightarrow> mq_state \<Rightarrow> topology \<Rightarrow> topology \<times> exn option" where
  "AsyncWaitForState_current dds i targetCurrentState = AsyncWaitForState dds i Undefined targetCurrentState '''' 0"

definition WaitForState_current ::
  "dds_topo \<Rightarrow> u64 \<Rightarrow> mq_state \<Rightarrow> string \<Rightarrow> int \<Rightarrow> topo_event list \<Rightarrow> topology \<Rightarrow>
     topology \<times> (exn + error_code \<times> unit) option" where
  "WaitForState_current dds i targetCurrentState = tp_WaitForState dds i Undefined targetCurrentState"

definition AsyncGetProperties_all :: "dds_topo \<Rightarrow> u64 \<Rightarrow> string \<Rightarrow> topology \<Rightarrow> topology \<times> exn option" where
  "AsyncGetProperties_all dds i query = AsyncGetProperties dds i query '''' 0"

definition AsyncSetProperties_all :: "dds_topo \<Rightarrow> u64 \<Rightarrow> DeviceProperties \<Rightarrow> topology \<Rightarrow> topology \<times> exn option" where
  "AsyncSetProperties_all dds i props = AsyncSetProperties dds i props '''' 0"

definition GetHeartbeatInterval :: "topology \<Rightarrow> int" where
  "GetHeartbeatInterval tp = tp_heartbeatInterval tp"

definition SetHeartbeatInterval :: "int \<Rightarrow> topology \<Rightarrow> topology" where
  "SetHeartbeatInterval duration tp = tp\<lparr>tp_heartbeatInterval := duration\<rparr>"

text \<open>\<open>GetCurrentStateUnsafe\<close> is for a caller that holds the mutex; \<open>GetCurrentState\<close> takes it.\<close>

definition GetCurrentStateUnsafe :: "topology \<Rightarrow> TopoState" where
  "GetCurrentStateUnsafe tp = tp_stateData tp"

definition tp_AggregateState :: "topology \<Rightarrow> AggregatedState" where
  "tp_AggregateState tp = AggregateState (GetCurrentState tp)"

definition tp_StateEqualsTo :: "topology \<Rightarrow> mq_state \<Rightarrow> bool" where
  "tp_StateEqualsTo tp st = StateEqualsTo (GetCurrentState tp) st"

section \<open>Properties\<close>

text \<open>
  The overload without a path and a timeout starts an operation on every task of the topology that is not ignored, and the
  operation has no timer: only its devices or the destructor can end it.
\<close>

theorem AsyncChangeState_all_starts:
  assumes "topo_wf tp" "GetTasks dds '''' tp = Inr tasks" "map_of (tp_changeStateOps tp) i = None"
    and "gExpectedState tr \<noteq> None"
  shows "\<exists>tp' op. AsyncChangeState_all dds i tr tp = (tp', None) \<and>
    map_of (tp_changeStateOps tp') i = Some op \<and> \<not> cs_timer op \<and>
    map fId (cs_tasks op) =
      filter (\<lambda>t. \<not> ds_ignored (tp_device tp (the (map_of (tp_stateIndex tp) t)))) (map fst (rt_tasks dds)) \<and>
    tp_sent tp' = tp_sent tp @ [([ChangeState \<lparr>chs_transition = tr\<rparr>], '''')]"
proof -
  from assms(4) obtain op where op: "cs_new i tr tasks 0 = Inr op" "cs_tasks op = tasks" "\<not> cs_timer op"
    by (cases "gExpectedState tr") (auto simp: cs_new_def)
  from AsyncChangeState_starts [OF assms(1-3) op(1)] obtain tp' where
    tp': "AsyncChangeState dds i tr '''' 0 tp = (tp', None)" "tp_sent tp' = tp_sent tp @ [([ChangeState \<lparr>chs_transition = tr\<rparr>], '''')]"
    "map_of (tp_changeStateOps tp') i = Some (cs_start (tp_stateIndex tp) (tp_stateData tp) op)" by blast
  have "GetTasks_loop tp (rt_tasks dds) = Inr tasks" using assms(2) by (simp add: GetTasks_def bind_exn_def)
  from GetTasks_loop_spec [OF this] have ids: "map fId tasks =
      filter (\<lambda>t. \<not> ds_ignored (tp_device tp (the (map_of (tp_stateIndex tp) t)))) (map fst (rt_tasks dds))"
    by (auto simp: filter_map comp_def split_def)
  have loop: "cs_tasks (fst (cs_ResetCount_loop idx sd n x)) = cs_tasks x \<and>
      cs_timer (fst (cs_ResetCount_loop idx sd n x)) = cs_timer x" for idx sd n and x :: change_state_op
    by (induction idx sd n x rule: cs_ResetCount_loop.induct) (simp_all split: option.split)
  have "cs_tasks (cs_start (tp_stateIndex tp) (tp_stateData tp) op) = tasks"
    "\<not> cs_timer (cs_start (tp_stateIndex tp) (tp_stateData tp) op)"
    using op(2,3) loop
    by (simp_all add: cs_start_def cs_ResetCount_def cs_TryCompletion_def cs_Complete_def Let_def split: prod.split)
  with tp' ids show ?thesis unfolding AsyncChangeState_all_def by auto
qed

text \<open>The overload without a last state waits for the current state alone: every last state will do.\<close>

lemma Undefined_any_last:
  "ws_targetLastState op = Undefined \<Longrightarrow> ws_Update t l1 s x op = ws_Update t l2 s x op"
  by (simp add: ws_Update_def ws_matches_def ws_target_def)

end
