(* ===== verification/ODC_Session.thy ===== *)
theory ODC_Session
  imports Topology_Props
begin

text \<open>
  \<^verbatim>\<open>src/odc/Params.h\<close> and \<^verbatim>\<open>src/odc/Session.h\<close>: the parameters and results of the requests, and the state
  of one partition. The state of its DDS session is a type parameter \<open>'d\<close>: DDS is not part of the
  sources, and the controller only reaches it through the functions of its environment. The topology
  keeps a reference to the session's \<^verbatim>\<open>mCollections\<close>; \<open>use_topology\<close> keeps the two copies of the model
  equal.
\<close>

section \<open>Requests and results\<close>

datatype StatusCode = Status_unknown | Status_ok | Status_error

datatype DDSSessionStatus = DDS_unknown | DDS_running | DDS_stopped

record PartitionStatus =
  pst_partitionID :: string
  pst_ddsSessionID :: string
  pst_ddsSessionStatus :: DDSSessionStatus
  pst_aggregatedState :: AggregatedState

definition new_PartitionStatus :: PartitionStatus where
  "new_PartitionStatus = \<lparr>pst_partitionID = '''', pst_ddsSessionID = '''', pst_ddsSessionStatus = DDS_unknown,
     pst_aggregatedState = Agg Undefined\<rparr>"

record BaseRequestResult =
  rr_statusCode :: StatusCode
  rr_msg :: string
  rr_execTime :: int
  rr_error :: Error

record RequestResult = BaseRequestResult +
  rr_partitionID :: string
  rr_runNr :: u64
  rr_ddsSessionID :: string
  rr_topologyState :: TopologyState
  rr_hosts :: "string set"

record StatusRequestResult = BaseRequestResult +
  rr_partitions :: "PartitionStatus list"

text \<open>The timer that runs since the request arrived is read through the environment.\<close>

record CommonParams =
  cp_partitionID :: string
  cp_runNr :: u64
  cp_timeout :: u64

record InitializeParams =
  ip_ddsSessionID :: string

record SubmitParams =
  sp_plugin :: string
  sp_resources :: string

record ActivateParams =
  ap_topoFile :: string
  ap_topoContent :: string
  ap_topoScript :: string

record RunParams =
  rp_plugin :: string
  rp_resources :: string
  rp_topoFile :: string
  rp_topoContent :: string
  rp_topoScript :: string
  rp_extractTopoResources :: bool

record UpdateParams =
  up_topoFile :: string
  up_topoContent :: string
  up_topoScript :: string

record SetPropertiesParams =
  spp_path :: string
  spp_properties :: "(string \<times> string) list"

record DeviceParams =
  dp_path :: string
  dp_detailed :: bool

record StatusParams =
  stp_running :: bool

record ZoneConfig =
  zc_cfgPath :: string
  zc_envPath :: string

record ZoneGroup =
  zg_n :: int
  zg_nCores :: int
  zg_agentGroup :: string

section \<open>A DDS topology file\<close>

text \<open>
  What the controller reads of a \<^verbatim>\<open>CTopology\<close>: beyond what a running topology needs, the requirements of its
  tasks and collections, and the task at a path.
\<close>

datatype RequirementType = Req_GroupName | Req_HostName | Req_WnName | Req_MaxInstancesPerHost | Req_Custom | Req_Other

record requirement =
  req_name :: string
  req_type :: RequirementType
  req_value :: string

record topo_task =
  tt_name :: string
  tt_parentName :: string
  tt_totalCounter :: int
  tt_requirements :: "requirement list"

record topo_collection =
  tc_name :: string
  tc_parentName :: string
  tc_parentPath :: string
  tc_parentIsGroup :: bool
  tc_totalCounter :: int
  tc_nofTasks :: int
  tc_requirements :: "requirement list"

record ctopology = dds_topo +
  ct_runtimeTask :: "string \<Rightarrow> exn + task_id"
  ct_runtimeRequirements :: "(task_id \<times> requirement list) list"
  ct_tasks :: "topo_task list"
  ct_collections :: "topo_collection list"

section \<open>The session\<close>

record 'd session =
  s_ddsTopo :: "ctopology option"
  s_ddsSession :: 'd
  s_topology :: "topology option"
  s_partitionID :: string
  s_topoFilePath :: string
  s_nInfo :: "(string \<times> CollectionNInfo) list"
  s_zoneInfo :: "(string \<times> ZoneGroup list) list"
  s_agentGroupInfo :: "(string \<times> AgentGroupInfo) list"
  s_standaloneTasks :: "TaskInfo list"
  s_collections :: "(string \<times> CollectionInfo) list"
  s_expendableTasks :: "task_id set"
  s_totalSlots :: u64
  s_agentSlots :: "(u64 \<times> u32) list"
  s_runAttempted :: bool
  s_lastRunNr :: u64
  s_taskDetails :: "(task_id \<times> TaskDetails) list"
  s_collectionDetails :: "(collection_id \<times> CollectionDetails) list"
  s_agentDetails :: "(u64 \<times> AgentDetails) list"

definition new_session :: "'d \<Rightarrow> string \<Rightarrow> 'd session" where
  "new_session d partitionID =
     \<lparr>s_ddsTopo = None, s_ddsSession = d, s_topology = None, s_partitionID = partitionID, s_topoFilePath = '''',
      s_nInfo = [], s_zoneInfo = [], s_agentGroupInfo = [], s_standaloneTasks = [], s_collections = [],
      s_expendableTasks = {}, s_totalSlots = 0, s_agentSlots = [], s_runAttempted = False, s_lastRunNr = 0,
      s_taskDetails = [], s_collectionDetails = [], s_agentDetails = []\<rparr>"

definition addTaskDetails :: "TaskDetails \<Rightarrow> 'd session \<Rightarrow> 'd session" where
  "addTaskDetails t s = s\<lparr>s_taskDetails := umap_emplace (td_taskID t) t (s_taskDetails s)\<rparr>"

definition addCollectionDetails :: "CollectionDetails \<Rightarrow> 'd session \<Rightarrow> 'd session" where
  "addCollectionDetails c s = s\<lparr>s_collectionDetails := umap_emplace (cd_collectionID c) c (s_collectionDetails s)\<rparr>"

definition addAgentDetails :: "AgentDetails \<Rightarrow> 'd session \<Rightarrow> 'd session" where
  "addAgentDetails a s = s\<lparr>s_agentDetails := umap_emplace (ad_id a) a (s_agentDetails s)\<rparr>"

definition getTaskDetails :: "task_id \<Rightarrow> 'd session \<Rightarrow> exn + TaskDetails" where
  "getTaskDetails taskID s =
     (case map_of (s_taskDetails s) taskID of
        None \<Rightarrow> Inl (RuntimeError (''Failed to get additional task info for ID ('' @ string_of_nat (unat taskID) @ '')''))
      | Some t \<Rightarrow> Inr t)"

definition getCollectionDetails :: "collection_id \<Rightarrow> 'd session \<Rightarrow> exn + CollectionDetails" where
  "getCollectionDetails collectionID s =
     (case map_of (s_collectionDetails s) collectionID of
        None \<Rightarrow> Inl (RuntimeError
          (''Failed to get additional collection info for ID ('' @ string_of_nat (unat collectionID) @ '')''))
      | Some c \<Rightarrow> Inr c)"

definition fillDetailedState :: "TopoState \<Rightarrow> 'd session \<Rightarrow> DetailedState" where
  "fillDetailedState topoState s =
     map (\<lambda>ds. case map_of (s_taskDetails s) (ds_taskId ds) of
            Some t \<Rightarrow> \<lparr>dt_status = ds, dt_path = td_path t, dt_host = td_host t\<rparr>
          | None \<Rightarrow> \<lparr>dt_status = ds, dt_path = ''unknown'', dt_host = ''unknown''\<rparr>) topoState"

definition fillAgentDetails :: "(u64 \<times> AgentDetails) list \<Rightarrow> 'd session \<Rightarrow> 'd session" where
  "fillAgentDetails ads s = s\<lparr>s_agentDetails := ads\<rparr>"

definition numTasks :: "'d session \<Rightarrow> nat" where
  "numTasks s = length (s_taskDetails s)"

definition numCollections :: "'d session \<Rightarrow> nat" where
  "numCollections s = length (s_collectionDetails s)"

text \<open>A call on the topology, which shares \<^verbatim>\<open>mCollections\<close> with the session.\<close>

definition use_topology :: "(topology \<Rightarrow> topology \<times> 'r) \<Rightarrow> topology \<Rightarrow> 'd session \<Rightarrow> 'd session \<times> 'r" where
  "use_topology f tp s =
     (let (tp1, r) = f (tp\<lparr>tp_collectionInfo := s_collections s\<rparr>)
      in (s\<lparr>s_topology := Some tp1, s_collections := tp_collectionInfo tp1\<rparr>, r))"

lemma fillDetailedState_length [simp]: "length (fillDetailedState ts s) = length ts"
  by (simp add: fillDetailedState_def)

lemma fillDetailedState_status: "map dt_status (fillDetailedState ts s) = ts"
  by (simp add: fillDetailedState_def comp_def) (rule map_idI, auto split: option.split)

section \<open>Properties\<close>

text \<open>
  The detailed state has one entry per device, in the order of the state vector and with its status
  unchanged; path and host are those of the first description the session was given for the task.
\<close>

theorem fillDetailedState_spec:
  "map dt_status (fillDetailedState ts (fold addTaskDetails tds (new_session d p))) = ts \<and>
   (\<forall>k < length ts. case filter (\<lambda>t. td_taskID t = ds_taskId (ts ! k)) tds of
      [] \<Rightarrow> dt_path (fillDetailedState ts (fold addTaskDetails tds (new_session d p)) ! k) = ''unknown''
    | t # _ \<Rightarrow> dt_path (fillDetailedState ts (fold addTaskDetails tds (new_session d p)) ! k) = td_path t \<and>
        dt_host (fillDetailedState ts (fold addTaskDetails tds (new_session d p)) ! k) = td_host t)"
proof -
  have "map_of (s_taskDetails (fold addTaskDetails tds s)) i =
      (case map_of (s_taskDetails s) i of Some t \<Rightarrow> Some t
       | None \<Rightarrow> (case filter (\<lambda>t. td_taskID t = i) tds of [] \<Rightarrow> None | t # _ \<Rightarrow> Some t))" for i and s :: "'a session"
  proof (induction tds arbitrary: s)
    case (Cons t tds)
    have "map_of (s_taskDetails (addTaskDetails t s)) =
        (case map_of (s_taskDetails s) (td_taskID t) of None \<Rightarrow> (map_of (s_taskDetails s))(td_taskID t \<mapsto> t)
         | Some _ \<Rightarrow> map_of (s_taskDetails s))"
      by (simp add: addTaskDetails_def)
    then show ?case by (auto simp: Cons split: option.split)
  qed (simp split: option.split)
  then show ?thesis
    by (intro conjI fillDetailedState_status) (auto simp: fillDetailedState_def new_session_def split: list.split)
qed

theorem fillDetailedState_spec_witness:
  "map dt_path (fillDetailedState [new_DeviceStatus False 1 0, new_DeviceStatus False 2 0]
     (fold addTaskDetails [\<lparr>td_agentID = 0, td_slotID = 0, td_taskID = 2, td_collectionID = 0, td_path = ''p'',
        td_host = ''h'', td_wrkDir = ''''\<rparr>] (new_session () ''p''))) = [''unknown'', ''p'']"
proof -
  let ?t = "\<lparr>td_agentID = 0, td_slotID = 0, td_taskID = 2, td_collectionID = 0, td_path = ''p'', td_host = ''h'', td_wrkDir = ''''\<rparr>"
  let ?l = "fillDetailedState [new_DeviceStatus False 1 0, new_DeviceStatus False 2 0] (fold addTaskDetails [?t] (new_session () ''p''))"
  have "dt_path (?l ! 0) = ''unknown''" "dt_path (?l ! 1) = ''p''"
    using fillDetailedState_spec [of "[new_DeviceStatus False 1 0, new_DeviceStatus False 2 0]" "[?t]" "()" "''p''"]
    by (auto simp: new_DeviceStatus_def dest: spec [of _ 0] spec [of _ 1])
  moreover have "length ?l = 2" by simp
  ultimately show ?thesis by (cases ?l; cases "tl ?l") auto
qed

end
