(* ===== verification/Requirements.thy ===== *)
theory Requirements
  imports ODC_Session Misc_Utils
begin

text \<open>
  \<^verbatim>\<open>Controller::extractRequirements\<close> of \<^verbatim>\<open>src/odc/Controller.cpp\<close>: what a session learns from its topology
  file about expendable tasks, standalone tasks, collections, agent groups and zones. Reading the file
  is a parameter (\<open>load\<close>, which may throw). A call
  that throws leaves the session as far as it was filled.
\<close>

section \<open>Expendable and standalone tasks\<close>

fun expendable_requirements :: "task_id \<Rightarrow> requirement list \<Rightarrow> task_id set \<Rightarrow> task_id set" where
  "expendable_requirements i [] X = X"
| "expendable_requirements i (r # rs) X =
     expendable_requirements i rs
       (if req_type r = Req_Custom \<and> strStartsWith (req_name r) ''odc_expendable_'' \<and> req_value r = ''true''
        then insert i X else X)"

definition extract_expendable :: "(task_id \<times> requirement list) list \<Rightarrow> task_id set \<Rightarrow> task_id set" where
  "extract_expendable ts X = fold (\<lambda>(i, rs). expendable_requirements i rs) ts X"

fun task_requirements :: "requirement list \<Rightarrow> string \<times> string \<Rightarrow> string \<times> string" where
  "task_requirements [] (zone, agentGroup) = (zone, agentGroup)"
| "task_requirements (r # rs) (zone, agentGroup) =
     task_requirements rs
       (if req_type r = Req_GroupName then (zone, req_value r)
        else if req_type r = Req_Custom \<and> strStartsWith (req_name r) ''odc_zone_'' then (req_value r, agentGroup)
        else (zone, agentGroup))"

definition extract_task :: "topo_task \<Rightarrow> TaskInfo list \<Rightarrow> TaskInfo list" where
  "extract_task t l =
     (if tt_parentName t = ''main'' then l
      else let (zone, agentGroup) = task_requirements (tt_requirements t) ('''', '''')
           in l @ [\<lparr>ti_name = tt_name t, ti_zone = zone, ti_agentGroup = agentGroup,
                    ti_topoParent = tt_parentName t, ti_n = tt_totalCounter t\<rparr>])"

section \<open>Collections\<close>

record col_reqs =
  cr_zone :: string
  cr_agentGroup :: string
  cr_nCores :: int
  cr_nmin :: int

definition no_col_reqs :: col_reqs where
  "no_col_reqs = \<lparr>cr_zone = '''', cr_agentGroup = '''', cr_nCores = 0, cr_nmin = 0\<rparr>"

fun collection_requirements :: "topo_collection \<Rightarrow> requirement list \<Rightarrow> col_reqs \<Rightarrow> exn + col_reqs" where
  "collection_requirements c [] a = Inr a"
| "collection_requirements c (r # rs) a =
     (if req_type r = Req_GroupName then collection_requirements c rs (a\<lparr>cr_agentGroup := req_value r\<rparr>)
      else if req_type r = Req_Custom then
        (if strStartsWith (req_name r) ''odc_ncores_''
         then bind_exn (stoi (req_value r)) (\<lambda>v. collection_requirements c rs (a\<lparr>cr_nCores := v\<rparr>))
         else if strStartsWith (req_name r) ''odc_zone_''
         then collection_requirements c rs (a\<lparr>cr_zone := req_value r\<rparr>)
         else if strStartsWith (req_name r) ''odc_nmin_''
         then (if tc_parentIsGroup c \<and> tc_parentName c \<noteq> ''main''
               then bind_exn (stoll (req_value r)) (\<lambda>v. collection_requirements c rs (a\<lparr>cr_nmin := to_int32 v\<rparr>))
               else collection_requirements c rs a)
         else collection_requirements c rs a)
      else collection_requirements c rs a)"

text \<open>The requirements of one collection; a missing zone defaults to the agent group.\<close>

definition parse_collection :: "topo_collection \<Rightarrow> exn + col_reqs" where
  "parse_collection c =
     bind_exn (collection_requirements c (tc_requirements c) no_col_reqs)
       (\<lambda>r. Inr (if cr_zone r = [] then r\<lparr>cr_zone := cr_agentGroup r\<rparr> else r))"

definition add_agent_group ::
  "topo_collection \<Rightarrow> col_reqs \<Rightarrow> (string \<times> AgentGroupInfo) list \<Rightarrow> (string \<times> AgentGroupInfo) list" where
  "add_agent_group c r m =
     (case map_of m (cr_agentGroup r) of
        None \<Rightarrow> umap_emplace (cr_agentGroup r)
          \<lparr>ag_name = cr_agentGroup r, ag_zone = cr_zone r, ag_numAgents = tc_totalCounter c, ag_minAgents = cr_nmin r,
           ag_numSlots = tc_nofTasks c, ag_numCores = cr_nCores r\<rparr> m
      | Some a \<Rightarrow> AList.update (cr_agentGroup r)
          (a\<lparr>ag_numAgents := ag_numAgents a + tc_totalCounter c, ag_numSlots := ag_numSlots a + tc_nofTasks c,
             ag_zone := cr_zone r, ag_minAgents := cr_nmin r, ag_numCores := cr_nCores r\<rparr>) m)"

definition add_collection :: "topo_collection \<Rightarrow> col_reqs \<Rightarrow> 'd session \<Rightarrow> 'd session" where
  "add_collection c r s =
     (let n = tc_totalCounter c;
          s1 = s\<lparr>s_collections := smap_set (tc_name c)
                  \<lparr>ci_name = tc_name c, ci_zone = cr_zone r, ci_agentGroup = cr_agentGroup r,
                   ci_topoParent = tc_parentName c, ci_topoPath = tc_parentPath c, ci_nOriginal = n, ci_nCurrent = n,
                   ci_nMin = cr_nmin r, ci_nCores = cr_nCores r, ci_numTasks = tc_nofTasks c,
                   ci_totalTasks = tc_nofTasks c * n\<rparr> (s_collections s)\<rparr>;
          s2 = s1\<lparr>s_agentGroupInfo := add_agent_group c r (s_agentGroupInfo s1)\<rparr>;
          s3 = (if cr_agentGroup r \<noteq> []
                then s2\<lparr>s_nInfo := smap_emplace (tc_name c)
                       \<lparr>ni_nOriginal = n, ni_nCurrent = n, ni_nMin = cr_nmin r, ni_agentGroup = cr_agentGroup r\<rparr> (s_nInfo s2)\<rparr>
                else s2)
      in if cr_agentGroup r \<noteq> [] \<and> cr_zone r \<noteq> []
         then (let zg = \<lparr>zg_n = n, zg_nCores = cr_nCores r, zg_agentGroup = cr_agentGroup r\<rparr> in
               s3\<lparr>s_zoneInfo := smap_set (cr_zone r)
                   (case map_of (s_zoneInfo s3) (cr_zone r) of None \<Rightarrow> [zg] | Some l \<Rightarrow> l @ [zg]) (s_zoneInfo s3)\<rparr>)
         else s3)"

fun extract_collections :: "topo_collection list \<Rightarrow> 'd session \<Rightarrow> 'd session \<times> exn option" where
  "extract_collections [] s = (s, None)"
| "extract_collections (c # cs) s =
     (case parse_collection c of
        Inl e \<Rightarrow> (s, Some e)
      | Inr r \<Rightarrow> extract_collections cs (add_collection c r s))"

section \<open>The whole extraction\<close>

definition clear_requirements :: "'d session \<Rightarrow> 'd session" where
  "clear_requirements s =
     s\<lparr>s_nInfo := [], s_zoneInfo := [], s_standaloneTasks := [], s_collections := [], s_agentGroupInfo := []\<rparr>"

definition extractRequirements :: "(string \<Rightarrow> exn + ctopology) \<Rightarrow> 'd session \<Rightarrow> 'd session \<times> exn option" where
  "extractRequirements load s =
     (case load (s_topoFilePath s) of
        Inl e \<Rightarrow> (s, Some e)
      | Inr ct \<Rightarrow>
         let s1 = clear_requirements s;
             s2 = s1\<lparr>s_expendableTasks := extract_expendable (ct_runtimeRequirements ct) (s_expendableTasks s1)\<rparr>;
             s3 = s2\<lparr>s_standaloneTasks := fold extract_task (ct_tasks ct) (s_standaloneTasks s2)\<rparr>
         in extract_collections (ct_collections ct) s3)"

section \<open>Facts about the extraction\<close>

lemma extract_collections_ok:
  "extract_collections cs s = (s', None) \<longleftrightarrow>
     (\<exists>rs. map parse_collection cs = map Inr rs \<and> s' = fold (\<lambda>(c, r). add_collection c r) (zip cs rs) s)"
proof (induction cs arbitrary: s)
  case (Cons c cs)
  show ?case
  proof (cases "parse_collection c")
    case (Inr r)
    have "(\<exists>rs. map parse_collection (c # cs) = map Inr rs \<and>
        s' = fold (\<lambda>(c, r). add_collection c r) (zip (c # cs) rs) s) \<longleftrightarrow>
      (\<exists>rs. map parse_collection cs = map Inr rs \<and>
        s' = fold (\<lambda>(c, r). add_collection c r) (zip cs rs) (add_collection c r s))"
    proof
      assume "\<exists>rs. map parse_collection (c # cs) = map Inr rs \<and>
        s' = fold (\<lambda>(c, r). add_collection c r) (zip (c # cs) rs) s"
      then obtain r' rs where "map parse_collection (c # cs) = map Inr (r' # rs)"
        "s' = fold (\<lambda>(c, r). add_collection c r) (zip (c # cs) (r' # rs)) s" by (auto simp: Cons_eq_map_conv)
      then show "\<exists>rs. map parse_collection cs = map Inr rs \<and>
        s' = fold (\<lambda>(c, r). add_collection c r) (zip cs rs) (add_collection c r s)" using Inr by auto
    next
      assume "\<exists>rs. map parse_collection cs = map Inr rs \<and>
        s' = fold (\<lambda>(c, r). add_collection c r) (zip cs rs) (add_collection c r s)"
      then obtain rs where "map parse_collection cs = map Inr rs"
        "s' = fold (\<lambda>(c, r). add_collection c r) (zip cs rs) (add_collection c r s)" by blast
      then show "\<exists>rs. map parse_collection (c # cs) = map Inr rs \<and>
        s' = fold (\<lambda>(c, r). add_collection c r) (zip (c # cs) rs) s" using Inr by (intro exI [of _ "r # rs"]) simp
    qed
    then show ?thesis using Inr Cons.IH by simp
  qed (auto simp: Cons_eq_map_conv)
qed auto

lemma map_of_add_agent_group:
  "map_of (add_agent_group c r m) g =
     (if g \<noteq> cr_agentGroup r then map_of m g
      else Some (case map_of m g of
         None \<Rightarrow> \<lparr>ag_name = g, ag_zone = cr_zone r, ag_numAgents = tc_totalCounter c, ag_minAgents = cr_nmin r,
           ag_numSlots = tc_nofTasks c, ag_numCores = cr_nCores r\<rparr>
       | Some a \<Rightarrow> a\<lparr>ag_numAgents := ag_numAgents a + tc_totalCounter c, ag_numSlots := ag_numSlots a + tc_nofTasks c,
             ag_zone := cr_zone r, ag_minAgents := cr_nmin r, ag_numCores := cr_nCores r\<rparr>))"
  by (auto simp: add_agent_group_def update_conv' split: option.split)

lemma add_collection_fields [simp]:
  "s_agentGroupInfo (add_collection c r s) = add_agent_group c r (s_agentGroupInfo s)"
  "s_expendableTasks (add_collection c r s) = s_expendableTasks s"
  "s_standaloneTasks (add_collection c r s) = s_standaloneTasks s"
  "s_topology (add_collection c r s) = s_topology s"
  "s_ddsSession (add_collection c r s) = s_ddsSession s"
  "s_partitionID (add_collection c r s) = s_partitionID s"
  "s_nInfo (add_collection c r s) = (if cr_agentGroup r \<noteq> [] then smap_emplace (tc_name c)
     \<lparr>ni_nOriginal = tc_totalCounter c, ni_nCurrent = tc_totalCounter c, ni_nMin = cr_nmin r,
      ni_agentGroup = cr_agentGroup r\<rparr> (s_nInfo s) else s_nInfo s)"
  by (simp_all add: add_collection_def Let_def)

lemma agent_group_sums:
  "map_option (\<lambda>a. (ag_numAgents a, ag_numSlots a))
     (map_of (s_agentGroupInfo (fold (\<lambda>(c, r). add_collection c r) crs s)) g) =
   (let sel = filter (\<lambda>(c, r). cr_agentGroup r = g) crs;
        agents = sum_list (map (\<lambda>(c, r). tc_totalCounter c) sel);
        slots = sum_list (map (\<lambda>(c, r). tc_nofTasks c) sel)
    in case map_of (s_agentGroupInfo s) g of
         None \<Rightarrow> if sel = [] then None else Some (agents, slots)
       | Some a \<Rightarrow> Some (ag_numAgents a + agents, ag_numSlots a + slots))"
proof (induction crs arbitrary: s)
  case Nil
  then show ?case by (simp split: option.split)
next
  case (Cons cr crs)
  obtain c r where cr: "cr = (c, r)" by (cases cr)
  show ?case
    using Cons [of "add_collection c r s"]
    by (auto simp: cr Let_def map_of_add_agent_group split: option.splits)
qed

lemma expendable_requirements_spec:
  "expendable_requirements i rs X = X \<union> (if \<exists>r \<in> set rs. req_type r = Req_Custom \<and>
     strStartsWith (req_name r) ''odc_expendable_'' \<and> req_value r = ''true'' then {i} else {})"
  by (induction rs arbitrary: X) auto

lemma extract_expendable_spec:
  "extract_expendable ts X = X \<union> {i. \<exists>rs. (i, rs) \<in> set ts \<and> (\<exists>r \<in> set rs. req_type r = Req_Custom \<and>
     strStartsWith (req_name r) ''odc_expendable_'' \<and> req_value r = ''true'')}"
proof (induction ts arbitrary: X)
  case (Cons t ts)
  obtain i rs where t: "t = (i, rs)" by (cases t)
  have "extract_expendable (t # ts) X = extract_expendable ts (expendable_requirements i rs X)"
    by (simp add: extract_expendable_def t)
  then show ?case unfolding Cons expendable_requirements_spec t by auto
qed (simp add: extract_expendable_def)

lemma fold_add_collection_expendable [simp]:
  "s_expendableTasks (fold (\<lambda>(c, r). add_collection c r) crs s) = s_expendableTasks s"
  by (induction crs arbitrary: s) auto

lemma nInfo_first:
  "map_of (s_nInfo (fold (\<lambda>(c, r). add_collection c r) crs s)) name =
   (case map_of (s_nInfo s) name of
      Some i \<Rightarrow> Some i
    | None \<Rightarrow> (case filter (\<lambda>(c, r). tc_name c = name \<and> cr_agentGroup r \<noteq> []) crs of
        [] \<Rightarrow> None
      | (c, r) # _ \<Rightarrow> Some \<lparr>ni_nOriginal = tc_totalCounter c, ni_nCurrent = tc_totalCounter c,
          ni_nMin = cr_nmin r, ni_agentGroup = cr_agentGroup r\<rparr>))"
proof (induction crs arbitrary: s)
  case Nil
  then show ?case by (simp split: option.split)
next
  case (Cons cr crs)
  obtain c r where cr: "cr = (c, r)" by (cases cr)
  show ?case
    using Cons [of "add_collection c r s"] by (auto simp: cr split: option.splits)
qed

section \<open>Properties\<close>

text \<open>
  C34: after a successful extraction there is an agent group for exactly the groups some collection asks for;
  it has as many agents as its collections have instances together and as many slots as they have tasks
  together.
\<close>

theorem extractRequirements_agent_groups:
  assumes "extractRequirements load s = (s', None)"
  shows "\<exists>ct rs. load (s_topoFilePath s) = Inr ct \<and> map parse_collection (ct_collections ct) = map Inr rs \<and>
    (\<forall>g. map_option (\<lambda>a. (ag_numAgents a, ag_numSlots a)) (map_of (s_agentGroupInfo s') g) =
      (let sel = filter (\<lambda>(c, r). cr_agentGroup r = g) (zip (ct_collections ct) rs) in
       if sel = [] then None
       else Some (sum_list (map (\<lambda>(c, r). tc_totalCounter c) sel), sum_list (map (\<lambda>(c, r). tc_nofTasks c) sel))))"
proof -
  from assms obtain ct where ct: "load (s_topoFilePath s) = Inr ct"
    by (auto simp: extractRequirements_def split: sum.splits)
  from assms obtain rs s3 where rs: "map parse_collection (ct_collections ct) = map Inr rs"
    and s': "s' = fold (\<lambda>(c, r). add_collection c r) (zip (ct_collections ct) rs) s3" "s_agentGroupInfo s3 = []"
    unfolding extractRequirements_def
    by (auto simp: ct Let_def extract_collections_ok clear_requirements_def)
  have "map_option (\<lambda>a. (ag_numAgents a, ag_numSlots a)) (map_of (s_agentGroupInfo s') g) =
      (let sel = filter (\<lambda>(c, r). cr_agentGroup r = g) (zip (ct_collections ct) rs) in
       if sel = [] then None
       else Some (sum_list (map (\<lambda>(c, r). tc_totalCounter c) sel), sum_list (map (\<lambda>(c, r). tc_nofTasks c) sel)))" for g
    using agent_group_sums [of "zip (ct_collections ct) rs" s3 g] by (simp add: s' Let_def)
  with ct rs show ?thesis by blast
qed

text \<open>
  The collection table has an entry for a collection exactly when one of that name asks for an
  agent group, and the first of them decides it.
\<close>

theorem extractRequirements_nInfo:
  assumes "extractRequirements load s = (s', None)"
  shows "\<exists>ct rs. load (s_topoFilePath s) = Inr ct \<and> map parse_collection (ct_collections ct) = map Inr rs \<and>
    (\<forall>name. map_of (s_nInfo s') name =
      (case filter (\<lambda>(c, r). tc_name c = name \<and> cr_agentGroup r \<noteq> []) (zip (ct_collections ct) rs) of
         [] \<Rightarrow> None
       | (c, r) # _ \<Rightarrow> Some \<lparr>ni_nOriginal = tc_totalCounter c, ni_nCurrent = tc_totalCounter c,
           ni_nMin = cr_nmin r, ni_agentGroup = cr_agentGroup r\<rparr>))"
proof -
  from assms obtain ct where ct: "load (s_topoFilePath s) = Inr ct"
    by (auto simp: extractRequirements_def split: sum.splits)
  from assms obtain rs s3 where "map parse_collection (ct_collections ct) = map Inr rs"
    "s' = fold (\<lambda>(c, r). add_collection c r) (zip (ct_collections ct) rs) s3" "s_nInfo s3 = []"
    unfolding extractRequirements_def
    by (auto simp: ct Let_def extract_collections_ok clear_requirements_def)
  with ct show ?thesis by (auto simp: nInfo_first)
qed

text \<open>
  An extraction only adds expendable tasks: those of the topology before stay expendable, whatever the
  new topology says about them.
\<close>

theorem extractRequirements_keeps_expendable:
  assumes "extractRequirements load s = (s', None)" and "load (s_topoFilePath s) = Inr ct"
  shows "s_expendableTasks s' = s_expendableTasks s \<union>
    {i. \<exists>rs. (i, rs) \<in> set (ct_runtimeRequirements ct) \<and> (\<exists>r \<in> set rs. req_type r = Req_Custom \<and>
       strStartsWith (req_name r) ''odc_expendable_'' \<and> req_value r = ''true'')}"
  using assms
  by (auto simp: extractRequirements_def Let_def extract_collections_ok extract_expendable_spec clear_requirements_def)

text \<open>One collection of three instances with two tasks each, of which at least two must survive.\<close>

definition sample_collection :: topo_collection where
  "sample_collection = \<lparr>tc_name = ''c'', tc_parentName = ''g'', tc_parentPath = ''main/g'', tc_parentIsGroup = True,
     tc_totalCounter = 3, tc_nofTasks = 2, tc_requirements =
       [\<lparr>req_name = ''r'', req_type = Req_GroupName, req_value = ''online''\<rparr>,
        \<lparr>req_name = ''odc_nmin_c'', req_type = Req_Custom, req_value = '' 2''\<rparr>]\<rparr>"

definition sample_ct :: ctopology where
  "sample_ct = \<lparr>rt_tasks = [(1, 7)], rt_matching = (\<lambda>_. Inr []), rt_collectionName = (\<lambda>_. Inr ''c''),
     ct_runtimeTask = (\<lambda>_. Inr 1), ct_runtimeRequirements = [(1, [])], ct_tasks = [],
     ct_collections = [sample_collection]\<rparr>"

lemma sample_collection_parse:
  "parse_collection sample_collection =
     Inr \<lparr>cr_zone = ''online'', cr_agentGroup = ''online'', cr_nCores = 0, cr_nmin = 2\<rparr>"
  by (simp add: sample_collection_def parse_collection_def no_col_reqs_def strStartsWith_def stoll_def parse_bounded_def
      parse_decimal_def is_space_def is_digit_def digits_value_def to_int32_def)

lemma sample_collection_fields:
  "tc_name sample_collection = ''c''" "tc_totalCounter sample_collection = 3" "tc_nofTasks sample_collection = 2"
  by (simp_all add: sample_collection_def)

lemma sample_ct_collections: "ct_collections sample_ct = [sample_collection]"
  by (simp add: sample_ct_def)

lemma sample_ct_parse:
  "map parse_collection (ct_collections sample_ct) =
     [Inr \<lparr>cr_zone = ''online'', cr_agentGroup = ''online'', cr_nCores = 0, cr_nmin = 2\<rparr>]"
  by (simp add: sample_ct_collections sample_collection_parse)

lemma sample_extract:
  "\<exists>s'. extractRequirements (\<lambda>_. Inr sample_ct) (new_session () ''p'') = (s', None)"
proof -
  have "\<exists>s'. extract_collections (ct_collections sample_ct) s = (s', None)" for s :: "unit session"
    using sample_ct_parse by (auto simp: extract_collections_ok intro: exI [of _ "[_]"])
  then show ?thesis by (simp add: extractRequirements_def Let_def)
qed

theorem extractRequirements_agent_groups_witness:
  "\<exists>s' :: unit session. extractRequirements (\<lambda>_. Inr sample_ct) (new_session () ''p'') = (s', None) \<and>
     map_option (\<lambda>a. (ag_numAgents a, ag_numSlots a)) (map_of (s_agentGroupInfo s') ''online'') = Some (3, 2)"
proof -
  obtain s' :: "unit session" where s': "extractRequirements (\<lambda>_. Inr sample_ct) (new_session () ''p'') = (s', None)"
    using sample_extract by blast
  from extractRequirements_agent_groups [OF this] obtain ct rs where "ct = sample_ct"
    "map parse_collection (ct_collections ct) = map Inr rs"
    "map_option (\<lambda>a. (ag_numAgents a, ag_numSlots a)) (map_of (s_agentGroupInfo s') ''online'') =
      (let sel = filter (\<lambda>(c, r). cr_agentGroup r = ''online'') (zip (ct_collections ct) rs) in
       if sel = [] then None
       else Some (sum_list (map (\<lambda>(c, r). tc_totalCounter c) sel), sum_list (map (\<lambda>(c, r). tc_nofTasks c) sel)))"
    by (auto dest: sym)
  with s' show ?thesis using sample_ct_parse by (auto simp: Cons_eq_map_conv sample_ct_collections sample_collection_fields)
qed

theorem extractRequirements_nInfo_witness:
  "\<exists>s' :: unit session. extractRequirements (\<lambda>_. Inr sample_ct) (new_session () ''p'') = (s', None) \<and>
     map_of (s_nInfo s') ''c'' = Some \<lparr>ni_nOriginal = 3, ni_nCurrent = 3, ni_nMin = 2, ni_agentGroup = ''online''\<rparr>"
proof -
  obtain s' :: "unit session" where s': "extractRequirements (\<lambda>_. Inr sample_ct) (new_session () ''p'') = (s', None)"
    using sample_extract by blast
  from extractRequirements_nInfo [OF this] obtain ct rs where "ct = sample_ct"
    "map parse_collection (ct_collections ct) = map Inr rs"
    "map_of (s_nInfo s') ''c'' =
      (case filter (\<lambda>(c, r). tc_name c = ''c'' \<and> cr_agentGroup r \<noteq> []) (zip (ct_collections ct) rs) of
         [] \<Rightarrow> None
       | (c, r) # _ \<Rightarrow> Some \<lparr>ni_nOriginal = tc_totalCounter c, ni_nCurrent = tc_totalCounter c,
           ni_nMin = cr_nmin r, ni_agentGroup = cr_agentGroup r\<rparr>)"
    by (auto dest: sym)
  with s' show ?thesis using sample_ct_parse by (auto simp: Cons_eq_map_conv sample_ct_collections sample_collection_fields)
qed

theorem extractRequirements_keeps_expendable_witness:
  "\<exists>s' :: unit session. extractRequirements (\<lambda>_. Inr sample_ct) ((new_session () ''p'')\<lparr>s_expendableTasks := {1}\<rparr>) = (s', None) \<and>
     s_expendableTasks s' = {1}"
proof -
  let ?s = "(new_session () ''p'')\<lparr>s_expendableTasks := {1}\<rparr>"
  have "\<exists>s'. extract_collections (ct_collections sample_ct) s = (s', None)" for s :: "unit session"
    using sample_ct_parse by (auto simp: extract_collections_ok intro: exI [of _ "[_]"])
  then obtain s' where s': "extractRequirements (\<lambda>_. Inr sample_ct) ?s = (s', None)"
    by (fastforce simp: extractRequirements_def Let_def)
  have "ct_runtimeRequirements sample_ct = [(1, [])]" by (simp add: sample_ct_def)
  then have "s_expendableTasks s' = {1}"
    using extractRequirements_keeps_expendable [OF s' refl] by simp
  with s' show ?thesis by blast
qed

end
