(* ===== verification/DDS_Submit.thy ===== *)
theory DDS_Submit
  imports Requirements
begin

text \<open>
  \<^verbatim>\<open>src/odc/PluginManager.h\<close> and \<^verbatim>\<open>src/odc/DDSSubmit.h\<close>: the registered resource plugins and how a submission
  is computed, from the agent groups of the topology or from the output of a plugin. Parameters: the
  property-tree library (\<open>ptree_api\<close>), running a command (\<open>run_command\<close>), and of Boost the splitting of a command
  line, the canonical form of a path and the first-occurrence replacement (\<open>path_api\<close>).
\<close>

section \<open>Plugins\<close>

record path_api =
  pa_split_unix :: "string \<Rightarrow> string list"
  pa_canonical :: "string \<Rightarrow> exn + string"
  pa_is_directory :: "string \<Rightarrow> bool"
  pa_replace_first :: "string \<Rightarrow> string \<Rightarrow> string \<Rightarrow> string"

type_synonym PluginMap = "(string \<times> string) list"

definition registerPlugin :: "path_api \<Rightarrow> string \<Rightarrow> string \<Rightarrow> PluginMap \<Rightarrow> exn + PluginMap" where
  "registerPlugin pa plugin cmd plugins =
     (if map_of plugins plugin \<noteq> None
      then Inl (RuntimeError (''Failed to register resource plugin '' @ quoted plugin @
             ''. A different plugin with the same name is already registered.''))
      else
        let args = pa_split_unix pa cmd; path = (if args = [] then '''' else hd args) in
        case pa_canonical pa path of
          Inl e \<Rightarrow> Inl (RuntimeError (''Failed to register resource plugin '' @ quoted plugin @ '': '' @ what e))
        | Inr pluginPath \<Rightarrow>
            if pa_is_directory pa pluginPath
            then Inl (RuntimeError (''Failed to register resource plugin '' @ quoted plugin @ '': '' @
                   ''Failed to register resource plugin '' @ quoted plugin @ ''. Specified path '' @
                   quoted pluginPath @ '' is a directory.''))
            else Inr (smap_emplace plugin (pa_replace_first pa cmd path pluginPath) plugins))"

text \<open>
  \<open>run_command cmd timeout\<close> gives standard output, standard error and exit code, or throws.
\<close>

type_synonym run_command = "string \<Rightarrow> int \<Rightarrow> exn + string \<times> string \<times> int"

definition execPlugin ::
  "run_command \<Rightarrow> PluginMap \<Rightarrow> string \<Rightarrow> string \<Rightarrow> string \<Rightarrow> int \<Rightarrow> exn + string" where
  "execPlugin run plugins plugin resources partitionID timeout =
     (case map_of plugins plugin of
        None \<Rightarrow> Inl (RuntimeError (''Failed to execute resource plugin '' @ quoted plugin @ ''. Plugin not found.''))
      | Some c \<Rightarrow>
          bind_exn (run (c @ '' --res '' @ quoted resources @ '' --id '' @ quoted partitionID) timeout)
            (\<lambda>(out, err, exitCode).
               if exitCode \<noteq> 0
               then Inl (RuntimeError (''Execution of plugin '' @ quoted plugin @ '' failed with exit code: '' @
                      string_of_int exitCode @ '', error: '' @ err))
               else Inr out))"

definition isPluginRegistered :: "string \<Rightarrow> PluginMap \<Rightarrow> bool" where
  "isPluginRegistered plugin plugins \<longleftrightarrow> map_of plugins plugin \<noteq> None"

section \<open>Submission parameters\<close>

record DDSSubmitParams =
  su_rms :: string
  su_zone :: string
  su_agentGroup :: string
  su_configFile :: string
  su_envFile :: string
  su_numAgents :: u32
  su_minAgents :: u32
  su_numSlots :: u32
  su_numCores :: u32

definition new_SubmitParams :: DDSSubmitParams where
  "new_SubmitParams = \<lparr>su_rms = '''', su_zone = '''', su_agentGroup = '''', su_configFile = '''', su_envFile = '''',
     su_numAgents = 0, su_minAgents = 0, su_numSlots = 0, su_numCores = 0\<rparr>"

text \<open>The plugin that comes with the service; that it cannot be registered is only logged.\<close>

definition registerDefaultPlugin :: "path_api \<Rightarrow> string \<Rightarrow> string \<Rightarrow> PluginMap \<Rightarrow> PluginMap" where
  "registerDefaultPlugin pa binDir name plugins =
     (case registerPlugin pa name (binDir @ ''/'' @ name) plugins of Inl _ \<Rightarrow> plugins | Inr plugins1 \<Rightarrow> plugins1)"

definition new_DDSSubmit :: "path_api \<Rightarrow> string \<Rightarrow> PluginMap" where
  "new_DDSSubmit pa binDir = registerDefaultPlugin pa binDir ''odc-rp-same'' []"

text \<open>
  The property tree: children in order, and \<^verbatim>\<open>get\<close> of a string or an unsigned value (\<open>None\<close> where the
  library falls back to the default).
\<close>

record 'p ptree_api =
  pt_read_xml :: "string \<Rightarrow> exn + 'p"
  pt_children :: "'p \<Rightarrow> (string \<times> 'p) list"
  pt_get_string :: "string \<Rightarrow> 'p \<Rightarrow> string option"
  pt_get_u32 :: "string \<Rightarrow> 'p \<Rightarrow> u32 option"

definition valid_tags :: "string list" where
  "valid_tags = [''rms'', ''configFile'', ''envFile'', ''agents'', ''slots'', ''zone'']"

definition get_or :: "'a \<Rightarrow> 'a option \<Rightarrow> 'a" where
  "get_or d x = (case x of None \<Rightarrow> d | Some v \<Rightarrow> v)"

definition SubmitParams_of_ptree :: "'p ptree_api \<Rightarrow> 'p \<Rightarrow> exn + DDSSubmitParams" where
  "SubmitParams_of_ptree api pt =
     (case filter (\<lambda>(k, _). k \<notin> set valid_tags) (pt_children api pt) of
        (k, _) # _ \<Rightarrow> Inl (RuntimeError (''Failed to init from property tree. Unknown key '' @ quoted k))
      | [] \<Rightarrow> Inr
         \<lparr>su_rms = get_or '''' (pt_get_string api ''rms'' pt), su_zone = get_or '''' (pt_get_string api ''zone'' pt),
          su_agentGroup = get_or '''' (pt_get_string api ''zone'' pt),
          su_configFile = get_or '''' (pt_get_string api ''configFile'' pt),
          su_envFile = get_or '''' (pt_get_string api ''envFile'' pt),
          su_numAgents = get_or 0 (pt_get_u32 api ''agents'' pt), su_minAgents = 0,
          su_numSlots = get_or 0 (pt_get_u32 api ''slots'' pt), su_numCores = 0\<rparr>)"

section \<open>Parameters from the topology\<close>

definition group_params :: "string \<Rightarrow> (string \<times> ZoneConfig) list \<Rightarrow> string \<times> AgentGroupInfo \<Rightarrow> DDSSubmitParams" where
  "group_params rms zoneCfgs = (\<lambda>(groupName, groupInfo).
     (let par = new_SubmitParams\<lparr>su_rms := rms, su_agentGroup := groupName, su_zone := ag_zone groupInfo\<rparr>;
          par1 = (case map_of zoneCfgs (ag_zone groupInfo) of
                    None \<Rightarrow> par
                  | Some z \<Rightarrow> par\<lparr>su_envFile := zc_envPath z, su_configFile := zc_cfgPath z\<rparr>)
      in par1\<lparr>su_numAgents := word_of_int (ag_numAgents groupInfo), su_minAgents := word_of_int (ag_minAgents groupInfo),
              su_numSlots := word_of_int (ag_numSlots groupInfo), su_numCores := word_of_int (ag_numCores groupInfo)\<rparr>))"

fun makeParams_topo ::
  "string \<Rightarrow> (string \<times> ZoneConfig) list \<Rightarrow> (string \<times> AgentGroupInfo) list \<Rightarrow> DDSSubmitParams list" where
  "makeParams_topo rms zoneCfgs [] = []"
| "makeParams_topo rms zoneCfgs ((g, gi) # gs) =
     (let par = group_params rms zoneCfgs (g, gi);
          pars = (if rms = ''localhost'' \<and> ag_numAgents gi > 1
                  then (let par1 = par\<lparr>su_numAgents := 1\<rparr>
                        in replicate (nat (ag_numAgents gi - 1)) par1 @ [par1])
                  else [par])
      in pars @ makeParams_topo rms zoneCfgs gs)"

section \<open>Parameters from a plugin\<close>

fun read_submit_tags :: "'p ptree_api \<Rightarrow> (string \<times> 'p) list \<Rightarrow> exn + DDSSubmitParams list" where
  "read_submit_tags api [] = Inr []"
| "read_submit_tags api ((name, element) # es) =
     (if name \<noteq> ''submit''
      then Inl (RuntimeError (''Failed to init from property tree. Unknown top level tag '' @ quoted name))
      else bind_exn (SubmitParams_of_ptree api element) (\<lambda>p.
           bind_exn (read_submit_tags api es) (\<lambda>ps. Inr (p # ps))))"

definition read_plugin_output :: "'p ptree_api \<Rightarrow> string \<Rightarrow> exn + DDSSubmitParams list" where
  "read_plugin_output api out =
     bind_exn (pt_read_xml api out) (\<lambda>pt.
       if list_ex (\<lambda>(name, _). name = ''submit'') (pt_children api pt)
       then read_submit_tags api (pt_children api pt)
       else bind_exn (SubmitParams_of_ptree api pt) (\<lambda>p. Inr [p]))"

text \<open>\<^verbatim>\<open>find_if\<close>: the index of the first match.\<close>

fun find_index :: "('a \<Rightarrow> bool) \<Rightarrow> 'a list \<Rightarrow> nat option" where
  "find_index P [] = None"
| "find_index P (x # xs) = (if P x then Some 0 else map_option Suc (find_index P xs))"

definition extend_zone ::
  "string \<times> ZoneGroup list \<Rightarrow> DDSSubmitParams list \<Rightarrow> exn + DDSSubmitParams list" where
  "extend_zone zone params =
     (case find_index (\<lambda>p. su_zone p = fst zone) params of
        None \<Rightarrow> Inl (RuntimeError (''Zone '' @ [CHR 0x27] @ fst zone @ [CHR 0x27] @
                 '' not found. Check --zones setting of the resource plugin.''))
      | Some i \<Rightarrow>
         (case snd zone of
            [] \<Rightarrow> Inl (OutOfRange ''vector::at'')
          | g # gs \<Rightarrow>
              let p = (params ! i)\<lparr>su_numCores := word_of_int (zg_nCores g), su_agentGroup := zg_agentGroup g\<rparr>;
                  p1 = (if su_numCores p \<noteq> 0 then p\<lparr>su_numAgents := 1\<rparr> else p)
              in Inr (params[i := p1] @
                   map (\<lambda>g. p1\<lparr>su_numCores := word_of_int (zg_nCores g), su_agentGroup := zg_agentGroup g\<rparr>) gs)))"

fun extend_zones :: "(string \<times> ZoneGroup list) list \<Rightarrow> DDSSubmitParams list \<Rightarrow> exn + DDSSubmitParams list" where
  "extend_zones [] params = Inr params"
| "extend_zones (z # zs) params = bind_exn (extend_zone z params) (extend_zones zs)"

definition extend_minAgents :: "(string \<times> CollectionNInfo) list \<Rightarrow> DDSSubmitParams \<Rightarrow> DDSSubmitParams" where
  "extend_minAgents nInfo p =
     (case filter (\<lambda>(_, i). ni_agentGroup i = su_agentGroup p) nInfo of
        [] \<Rightarrow> p
      | (_, i) # _ \<Rightarrow> p\<lparr>su_minAgents := word_of_int (ni_nMin i)\<rparr>)"

definition makeParams_plugin ::
  "run_command \<Rightarrow> 'p ptree_api \<Rightarrow> PluginMap \<Rightarrow> string \<Rightarrow> string \<Rightarrow> string \<Rightarrow> (string \<times> ZoneGroup list) list \<Rightarrow>
     (string \<times> CollectionNInfo) list \<Rightarrow> int \<Rightarrow> exn + DDSSubmitParams list" where
  "makeParams_plugin run api plugins plugin resources partitionID zoneInfo nInfo timeout =
     bind_exn (execPlugin run plugins plugin resources partitionID timeout) (\<lambda>out.
     bind_exn (read_plugin_output api out) (\<lambda>params.
     bind_exn (extend_zones zoneInfo params) (\<lambda>params1.
       let params2 = filter (\<lambda>p. su_numAgents p \<noteq> 0) params1
       in Inr (if nInfo = [] then params2 else map (extend_minAgents nInfo) params2))))"

section \<open>Facts\<close>

lemma find_index_Some:
  "find_index P xs = Some i \<Longrightarrow> i < length xs \<and> P (xs ! i)"
  by (induction xs arbitrary: i) (auto split: if_splits)

lemma unat_word_of_int_32: "0 \<le> i \<Longrightarrow> i < 2 ^ 32 \<Longrightarrow> unat (word_of_int i :: u32) = nat i"
  by (simp add: unat_eq_nat_uint uint_word_of_int)

lemma group_params_fields [simp]:
  "su_agentGroup (group_params rms zc (g, gi)) = g"
  "su_numAgents (group_params rms zc (g, gi)) = word_of_int (ag_numAgents gi)"
  "su_minAgents (group_params rms zc (g, gi)) = word_of_int (ag_minAgents gi)"
  "su_numSlots (group_params rms zc (g, gi)) = word_of_int (ag_numSlots gi)"
  "su_rms (group_params rms zc (g, gi)) = rms"
  by (simp_all add: group_params_def Let_def new_SubmitParams_def split: option.split)

text \<open>The submissions of one group.\<close>

definition split_group :: "bool \<Rightarrow> int \<Rightarrow> DDSSubmitParams \<Rightarrow> DDSSubmitParams list" where
  "split_group local n par =
     (if local \<and> n > 1 then replicate (nat (n - 1)) (par\<lparr>su_numAgents := 1\<rparr>) @ [par\<lparr>su_numAgents := 1\<rparr>] else [par])"

lemma split_group_fields:
  "p \<in> set (split_group local n par) \<Longrightarrow> su_agentGroup p = su_agentGroup par \<and> su_numSlots p = su_numSlots par \<and>
     su_minAgents p = su_minAgents par \<and> su_rms p = su_rms par"
  by (auto simp: split_group_def split: if_splits)

lemma split_group_agents:
  "su_numAgents par = word_of_int n \<Longrightarrow> 0 \<le> n \<Longrightarrow> n < 2 ^ 32 \<Longrightarrow>
     sum_list (map (\<lambda>p. unat (su_numAgents p)) (split_group local n par)) = nat n"
  by (auto simp: split_group_def sum_list_replicate unat_word_of_int_32 Suc_nat_eq_nat_zadd1)

lemma makeParams_topo_other_group:
  "g \<notin> fst ` set gs \<Longrightarrow> filter (\<lambda>p. su_agentGroup p = g) (makeParams_topo rms zc gs) = []"
proof -
  have "su_agentGroup p \<in> fst ` set gs" if "p \<in> set (makeParams_topo rms zc gs)" for p
    using that by (induction gs) (auto simp: Let_def split: if_splits)
  then show "g \<notin> fst ` set gs \<Longrightarrow> filter (\<lambda>p. su_agentGroup p = g) (makeParams_topo rms zc gs) = []"
    by (auto simp: filter_empty_conv)
qed

lemma extend_zone_zones:
  assumes "extend_zone z params = Inr params'"
  shows "\<forall>p \<in> set params. su_zone p \<noteq> fst z \<longrightarrow> p \<in> set params'"
    and "\<forall>g \<in> set (snd z). \<exists>p \<in> set params'. su_zone p = fst z \<and> su_agentGroup p = zg_agentGroup g \<and>
       su_numCores p = word_of_int (zg_nCores g) \<and>
       (word_of_int (zg_nCores (hd (snd z))) \<noteq> (0 :: u32) \<longrightarrow> su_numAgents p = 1)"
proof -
  from assms obtain i g gs where i: "find_index (\<lambda>p. su_zone p = fst z) params = Some i" and z: "snd z = g # gs"
    by (auto simp: extend_zone_def split: option.splits list.splits)
  let ?p = "(params ! i)\<lparr>su_numCores := word_of_int (zg_nCores g), su_agentGroup := zg_agentGroup g\<rparr>"
  let ?p1 = "if su_numCores ?p \<noteq> 0 then ?p\<lparr>su_numAgents := 1\<rparr> else ?p"
  have l: "i < length params" "su_zone (params ! i) = fst z" using find_index_Some [OF i] by simp_all
  have p': "params' = params[i := ?p1] @
      map (\<lambda>g. ?p1\<lparr>su_numCores := word_of_int (zg_nCores g), su_agentGroup := zg_agentGroup g\<rparr>) gs"
    using assms by (simp add: extend_zone_def i z Let_def)
  show "\<forall>p \<in> set params. su_zone p \<noteq> fst z \<longrightarrow> p \<in> set params'"
  proof (intro ballI impI)
    fix p assume p: "p \<in> set params" "su_zone p \<noteq> fst z"
    then obtain j where "j < length params" "params ! j = p" by (auto simp: in_set_conv_nth)
    with p l have "j \<noteq> i" by auto
    with \<open>j < length params\<close> \<open>params ! j = p\<close> have n: "params[i := ?p1] ! j = p" "j < length (params[i := ?p1])" by simp_all
    show "p \<in> set params'" unfolding p' set_append using nth_mem [OF n(2)] unfolding n(1) by (rule UnI1)
  qed
  have p1: "?p1 \<in> set params'" unfolding p' set_append by (rule UnI1) (rule set_update_memI [OF l(1)])
  show "\<forall>g \<in> set (snd z). \<exists>p \<in> set params'. su_zone p = fst z \<and> su_agentGroup p = zg_agentGroup g \<and>
       su_numCores p = word_of_int (zg_nCores g) \<and>
       (word_of_int (zg_nCores (hd (snd z))) \<noteq> (0 :: u32) \<longrightarrow> su_numAgents p = 1)"
  proof
    fix h assume "h \<in> set (snd z)"
    then consider "h = g" | "h \<in> set gs" using z by auto
    then show "\<exists>p \<in> set params'. su_zone p = fst z \<and> su_agentGroup p = zg_agentGroup h \<and>
       su_numCores p = word_of_int (zg_nCores h) \<and>
       (word_of_int (zg_nCores (hd (snd z))) \<noteq> (0 :: u32) \<longrightarrow> su_numAgents p = 1)"
    proof cases
      case 1
      then show ?thesis using l(2) z by (intro bexI [OF _ p1]) simp
    next
      case 2
      then have 3: "?p1\<lparr>su_numCores := word_of_int (zg_nCores h), su_agentGroup := zg_agentGroup h\<rparr> \<in> set params'"
        unfolding p' by simp
      show ?thesis
        by (rule bexI [OF _ 3], cases "word_of_int (zg_nCores g) = (0 :: u32)") (simp_all add: l z)
    qed
  qed
qed

lemma extend_zones_covers:
  assumes "extend_zones zs params = Inr params'" "distinct (map fst zs)" "z \<in> set zs" "g \<in> set (snd z)"
    and "word_of_int (zg_nCores (hd (snd z))) \<noteq> (0 :: u32)"
  shows "\<exists>p \<in> set params'. su_zone p = fst z \<and> su_agentGroup p = zg_agentGroup g \<and>
    su_numCores p = word_of_int (zg_nCores g) \<and> su_numAgents p = 1"
proof -
  have keep: "p \<in> set params'" if "extend_zones zs params = Inr params'" "p \<in> set params" "su_zone p \<notin> fst ` set zs" for zs params p
    using that
  proof (induction zs arbitrary: params)
    case (Cons y zs)
    then obtain ps where ps: "extend_zone y params = Inr ps" "extend_zones zs ps = Inr params'"
      by (auto simp: bind_exn_def split: sum.splits)
    with extend_zone_zones(1) [OF ps(1)] Cons.prems have "p \<in> set ps" by auto
    with Cons.IH [OF ps(2)] Cons.prems(3) show ?case by simp
  qed simp
  show ?thesis
    using assms
  proof (induction zs arbitrary: params)
    case (Cons y zs)
    then obtain ps where ps: "extend_zone y params = Inr ps" "extend_zones zs ps = Inr params'"
      by (auto simp: bind_exn_def split: sum.splits)
    show ?case
    proof (cases "z = y")
      case True
      with extend_zone_zones(2) [OF ps(1)] Cons.prems(4,5) obtain p where
        p: "p \<in> set ps" "su_zone p = fst y" "su_agentGroup p = zg_agentGroup g"
          "su_numCores p = word_of_int (zg_nCores g)" "su_numAgents p = 1" by auto
      have "fst y \<notin> fst ` set zs" using Cons.prems(2) by simp
      with keep [OF ps(2) p(1)] p True show ?thesis by auto
    next
      case False
      with Cons ps(2) show ?thesis by auto
    qed
  qed simp
qed

section \<open>Properties\<close>

text \<open>
  However the resource manager splits them, the submissions computed from the topology ask for as
  many agents of a group as the topology counts, and every one of them for the group's number of slots.
\<close>

theorem makeParams_topo_agents:
  assumes "distinct (map fst gs)" "(g, gi) \<in> set gs" "0 \<le> ag_numAgents gi" "ag_numAgents gi < 2 ^ 32"
  shows "sum_list (map (\<lambda>p. unat (su_numAgents p)) (filter (\<lambda>p. su_agentGroup p = g) (makeParams_topo rms zc gs)))
      = nat (ag_numAgents gi) \<and>
    (\<forall>p \<in> set (makeParams_topo rms zc gs). su_agentGroup p = g \<longrightarrow>
       su_numSlots p = word_of_int (ag_numSlots gi) \<and> su_minAgents p = word_of_int (ag_minAgents gi) \<and> su_rms p = rms)"
  using assms(1,2)
proof (induction gs)
  case (Cons e gs)
  obtain h hi where e: "e = (h, hi)" by (cases e)
  define pars where "pars = split_group (rms = ''localhost'') (ag_numAgents hi) (group_params rms zc (h, hi))"
  have m: "makeParams_topo rms zc (e # gs) = pars @ makeParams_topo rms zc gs"
    by (simp add: e Let_def pars_def split_group_def)
  have p: "su_agentGroup p = h \<and> su_numSlots p = word_of_int (ag_numSlots hi) \<and>
      su_minAgents p = word_of_int (ag_minAgents hi) \<and> su_rms p = rms" if "p \<in> set pars" for p
    using split_group_fields [OF that [unfolded pars_def]] by simp
  show ?case
  proof (cases "h = g")
    case True
    then have gi: "hi = gi" using Cons.prems by (auto simp: e image_iff)
    have none: "filter (\<lambda>p. su_agentGroup p = g) (makeParams_topo rms zc gs) = []"
      using Cons.prems(1) True by (intro makeParams_topo_other_group) (simp add: e)
    have all: "filter (\<lambda>p. su_agentGroup p = g) pars = pars" using p True by simp
    have s: "sum_list (map (\<lambda>p. unat (su_numAgents p)) pars) = nat (ag_numAgents gi)"
      unfolding pars_def gi by (rule split_group_agents) (use assms(3,4) in simp_all)
    from none have n: "\<forall>p \<in> set (makeParams_topo rms zc gs). su_agentGroup p \<noteq> g" by (simp add: filter_empty_conv)
    show ?thesis unfolding m filter_append map_append sum_list_append none all set_append ball_Un s
      using p n by (intro conjI) (simp, simp add: gi, blast)
  next
    case False
    then have "(g, gi) \<in> set gs" using Cons.prems(2) by (simp add: e)
    with Cons.IH Cons.prems(1) have ih: "sum_list (map (\<lambda>p. unat (su_numAgents p))
        (filter (\<lambda>p. su_agentGroup p = g) (makeParams_topo rms zc gs))) = nat (ag_numAgents gi)"
      "\<forall>p \<in> set (makeParams_topo rms zc gs). su_agentGroup p = g \<longrightarrow>
         su_numSlots p = word_of_int (ag_numSlots gi) \<and> su_minAgents p = word_of_int (ag_minAgents gi) \<and> su_rms p = rms"
      by auto
    have none: "filter (\<lambda>p. su_agentGroup p = g) pars = []" using False p by (auto simp: filter_empty_conv)
    show ?thesis unfolding m filter_append map_append set_append ball_Un none using ih p False
      by (intro conjI) (simp, blast, blast)
  qed
qed simp

text \<open>
  The submissions computed from a plugin's output never ask for zero agents, and every zone of the
  topology that schedules by cores is served: each of its agent groups has a submission in that zone for one agent
  with the cores the topology gives.
\<close>

theorem makeParams_plugin_covers:
  assumes "makeParams_plugin run api plugins plugin resources pid zoneInfo nInfo timeout = Inr params"
    and "distinct (map fst zoneInfo)" "z \<in> set zoneInfo" "g \<in> set (snd z)"
    and "word_of_int (zg_nCores (hd (snd z))) \<noteq> (0 :: u32)"
  shows "(\<exists>p \<in> set params. su_zone p = fst z \<and> su_agentGroup p = zg_agentGroup g \<and>
      su_numCores p = word_of_int (zg_nCores g) \<and> su_numAgents p = 1) \<and>
    (\<forall>p \<in> set params. su_numAgents p \<noteq> 0)"
proof -
  from assms(1) obtain ps0 ps where ps: "extend_zones zoneInfo ps0 = Inr ps"
    and params: "params = (let f = filter (\<lambda>p. su_numAgents p \<noteq> 0) ps in if nInfo = [] then f else map (extend_minAgents nInfo) f)"
    by (auto simp: makeParams_plugin_def bind_exn_def Let_def split: sum.splits)
  from extend_zones_covers [OF ps assms(2-5)] obtain p where p: "p \<in> set ps" "su_zone p = fst z"
    "su_agentGroup p = zg_agentGroup g" "su_numCores p = word_of_int (zg_nCores g)" "su_numAgents p = 1" by blast
  have f: "su_zone (extend_minAgents nInfo q) = su_zone q" "su_agentGroup (extend_minAgents nInfo q) = su_agentGroup q"
    "su_numCores (extend_minAgents nInfo q) = su_numCores q" "su_numAgents (extend_minAgents nInfo q) = su_numAgents q" for q
    by (auto simp: extend_minAgents_def split: list.split)
  show ?thesis
  proof (cases "nInfo = []")
    case True
    then show ?thesis using p by (auto simp: params)
  next
    case False
    have "extend_minAgents nInfo p \<in> set params" using False p by (simp add: params)
    moreover have "su_numAgents q \<noteq> 0" if "q \<in> set params" for q using False that by (auto simp: params f)
    ultimately show ?thesis using p by (metis f)
  qed
qed

text \<open>
  A plugin name can be registered only once, and what is executed for it later is the registered
  command with the requested resources and partition appended.
\<close>

theorem registerPlugin_execPlugin:
  assumes "registerPlugin pa plugin cmd plugins = Inr plugins'"
  shows "registerPlugin pa plugin cmd' plugins' = Inl (RuntimeError (''Failed to register resource plugin '' @
      quoted plugin @ ''. A different plugin with the same name is already registered.'')) \<and>
    (\<exists>path. pa_canonical pa (case pa_split_unix pa cmd of [] \<Rightarrow> '''' | a # _ \<Rightarrow> a) = Inr path \<and>
      (\<forall>out err. run (pa_replace_first pa cmd (case pa_split_unix pa cmd of [] \<Rightarrow> '''' | a # _ \<Rightarrow> a) path
          @ '' --res '' @ quoted resources @ '' --id '' @ quoted pid) timeout = Inr (out, err, 0) \<longrightarrow>
        execPlugin run plugins' plugin resources pid timeout = Inr out))"
proof -
  have hd: "(if xs = [] then '''' else hd xs) = (case xs of [] \<Rightarrow> '''' | a # _ \<Rightarrow> a)" for xs :: "string list"
    by (cases xs) simp_all
  show ?thesis
    using assms by (auto simp: registerPlugin_def execPlugin_def hd Let_def split: if_splits sum.splits)
qed

text \<open>Two agents on the local host; one zone with a core-scheduled group; a plugin that is there.\<close>

theorem makeParams_topo_agents_witness:
  "sum_list (map (\<lambda>p. unat (su_numAgents p)) (filter (\<lambda>p. su_agentGroup p = ''g'') (makeParams_topo ''localhost'' []
     [(''g'', \<lparr>ag_name = ''g'', ag_zone = ''z'', ag_numAgents = 2, ag_minAgents = 1, ag_numSlots = 4, ag_numCores = 0\<rparr>)]))) = 2"
  using makeParams_topo_agents [of "[(''g'', \<lparr>ag_name = ''g'', ag_zone = ''z'', ag_numAgents = 2, ag_minAgents = 1,
     ag_numSlots = 4, ag_numCores = 0\<rparr>)]" "''g''" "\<lparr>ag_name = ''g'', ag_zone = ''z'', ag_numAgents = 2, ag_minAgents = 1,
     ag_numSlots = 4, ag_numCores = 0\<rparr>" "''localhost''" "[]"]
  by simp

definition sample_pt :: "unit ptree_api" where
  "sample_pt = \<lparr>pt_read_xml = (\<lambda>_. Inr ()), pt_children = (\<lambda>_. [(''zone'', ())]),
     pt_get_string = (\<lambda>k _. if k = ''zone'' then Some ''z'' else None), pt_get_u32 = (\<lambda>_ _. None)\<rparr>"

theorem makeParams_plugin_covers_witness:
  "\<exists>params. makeParams_plugin (\<lambda>_ _. Inr (''x'', '''', 0)) sample_pt [(''p'', ''cmd'')] ''p'' '''' ''id''
      [(''z'', [\<lparr>zg_n = 1, zg_nCores = 8, zg_agentGroup = ''g''\<rparr>])] [] 30 = Inr params \<and>
     (\<exists>p \<in> set params. su_agentGroup p = ''g'' \<and> su_numCores p = 8)"
proof -
  let ?zi = "[(''z'', [\<lparr>zg_n = 1, zg_nCores = 8, zg_agentGroup = ''g''\<rparr>])]"
  let ?m = "makeParams_plugin (\<lambda>_ _. Inr (''x'', '''', 0)) sample_pt [(''p'', ''cmd'')] ''p'' '''' ''id'' ?zi [] 30"
  obtain params where m: "?m = Inr params"
    by (simp add: makeParams_plugin_def execPlugin_def read_plugin_output_def SubmitParams_of_ptree_def valid_tags_def
        sample_pt_def extend_zone_def get_or_def Let_def)
  from makeParams_plugin_covers [OF m, of "hd ?zi" "\<lparr>zg_n = 1, zg_nCores = 8, zg_agentGroup = ''g''\<rparr>"]
  have "\<exists>p \<in> set params. su_agentGroup p = ''g'' \<and> su_numCores p = 8" by auto
  with m show ?thesis by blast
qed

theorem registerPlugin_execPlugin_witness:
  "\<exists>plugins. registerPlugin \<lparr>pa_split_unix = (\<lambda>c. [c]), pa_canonical = (\<lambda>p. Inr (''/bin/'' @ p)), pa_is_directory = (\<lambda>_. False),
      pa_replace_first = (\<lambda>s w r. r)\<rparr> ''p'' ''c'' [] = Inr plugins \<and>
     execPlugin (\<lambda>_ _. Inr (''out'', '''', 0)) plugins ''p'' ''r'' ''id'' 30 = Inr ''out''"
proof -
  let ?pa = "\<lparr>pa_split_unix = (\<lambda>c. [c]), pa_canonical = (\<lambda>p. Inr (''/bin/'' @ p)), pa_is_directory = (\<lambda>_. False),
      pa_replace_first = (\<lambda>s w r. r)\<rparr>"
  obtain plugins where p: "registerPlugin ?pa ''p'' ''c'' [] = Inr plugins"
    by (simp add: registerPlugin_def Let_def)
  from registerPlugin_execPlugin [OF p, of "''d''" "\<lambda>_ _. Inr (''out'', '''', 0)" "''r''" "''id''" 30] p
  show ?thesis by auto
qed

end
