(* ===== verification/Controller_State.thy ===== *)
theory Controller_State
  imports DDS_Submit
begin

text \<open>
  \<^verbatim>\<open>src/odc/Controller.h\<close> and the parts of \<^verbatim>\<open>src/odc/Controller.cpp\<close> every request uses: the state of the
  controller, the timeout of a request, error reporting, the map of sessions, and the choice of the topology
  file. What is not in the sources is the record \<open>env\<close>: DDS with a session state \<open>'d\<close>, the
  clock, commands and files. The n-th contact of the controller with it is numbered \<open>n\<close>, so that it may
  answer differently each time. Logging is not modelled.
\<close>

section \<open>The environment\<close>

record SubmitRequest =
  sr_submissionTag :: string
  sr_rms :: string
  sr_instances :: u32
  sr_minInstances :: u32
  sr_slots :: u32
  sr_config :: string
  sr_envCfgFilePath :: string
  sr_groupName :: string
  sr_enable_overbooking :: bool
  sr_inlineConfig :: string

record AgentInfo =
  ai_agentID :: u64
  ai_groupName :: string
  ai_host :: string
  ai_nSlots :: u32

record TopologyResponse =
  re_activated :: bool
  re_agentID :: u64
  re_slotID :: u64
  re_taskID :: u64
  re_collectionID :: u64
  re_path :: string
  re_host :: string
  re_wrkDir :: string

datatype UpdateType = ACTIVATE | UPDATE

datatype activate_event = ActMessage bool string | ActResponse TopologyResponse

record creator_collection =
  tk_name :: string
  tk_parentName :: string
  tk_parentIsGroup :: bool

text \<open>
  Messages carry whether their severity is \<^verbatim>\<open>error\<close>. A request with callbacks gives what they were called
  with while the controller waited, and whether the wait ended with a timeout. \<open>en_during n\<close> is what
  reaches the topology while the n-th contact, a blocking call, waits.
\<close>

record ('d, 'p) env =
  en_elapsed :: "nat \<Rightarrow> int"
  en_uuidHash :: "nat \<Rightarrow> u64"
  en_during :: "nat \<Rightarrow> topo_event list"
  en_order :: "task_id set \<Rightarrow> task_id list"
  en_StateName :: "mq_state \<Rightarrow> string"
  en_TransitionName :: "mq_transition \<Rightarrow> string"
  dds_init :: 'd
  dds_IsRunning :: "'d \<Rightarrow> bool"
  dds_sessionID :: "'d \<Rightarrow> string"
  dds_create :: "nat \<Rightarrow> 'd \<Rightarrow> 'd \<times> exn option"
  dds_attach :: "nat \<Rightarrow> string \<Rightarrow> 'd \<Rightarrow> 'd \<times> exn option"
  dds_shutdown :: "nat \<Rightarrow> 'd \<Rightarrow> 'd \<times> exn option"
  dds_commanderInfo :: "nat \<Rightarrow> int \<Rightarrow> 'd \<Rightarrow> exn + string"
  dds_submit :: "nat \<Rightarrow> SubmitRequest \<Rightarrow> int \<Rightarrow> 'd \<Rightarrow> 'd \<times> (bool \<times> string) list \<times> bool"
  dds_waitForNumSlots :: "nat \<Rightarrow> u64 \<Rightarrow> int \<Rightarrow> 'd \<Rightarrow> 'd \<times> exn option"
  dds_agentInfo :: "nat \<Rightarrow> int \<Rightarrow> 'd \<Rightarrow> exn + AgentInfo list"
  dds_agentCount :: "nat \<Rightarrow> int \<Rightarrow> 'd \<Rightarrow> exn + u32"
  dds_activate :: "nat \<Rightarrow> string \<Rightarrow> UpdateType \<Rightarrow> int \<Rightarrow> 'd \<Rightarrow> 'd \<times> activate_event list \<times> bool"
  dds_topologyError :: "nat \<Rightarrow> 'd \<Rightarrow> exn option"
  en_loadTopology :: "string \<Rightarrow> exn + ctopology"
  en_creatorCollections :: "string \<Rightarrow> exn + creator_collection list"
  en_creatorSave :: "nat \<Rightarrow> string \<Rightarrow> exn option"
  en_execute :: "string \<Rightarrow> int \<Rightarrow> (string \<times> string) list \<Rightarrow> exn + string \<times> string \<times> int"
  en_tempDir :: "nat \<Rightarrow> exn + string"
  en_canOpen :: "string \<Rightarrow> bool"
  en_readRestore :: "string \<Rightarrow> string \<Rightarrow> (string \<times> string) list"
  en_ptree :: "'p ptree_api"

abbreviation nil_uuid :: string where
  "nil_uuid \<equiv> ''00000000-0000-0000-0000-000000000000''"

text \<open>What the controller writes.\<close>

datatype file_write =
    WroteTopology string string
  | WroteReducedTopology string "(nat \<times> int) list" string
  | WroteHistory string string string
  | WroteRestore string string "(string \<times> string) list"

section \<open>The controller\<close>

record config =
  c_timeout :: int
  c_plugins :: PluginMap
  c_restoreId :: string
  c_restoreDir :: string
  c_historyDir :: string
  c_zoneCfgs :: "(string \<times> ZoneConfig) list"
  c_rms :: string

record 'd controller = config +
  c_sessions :: "(string \<times> 'd session) list"

definition new_controller :: "PluginMap \<Rightarrow> 'd controller" where
  "new_controller plugins = \<lparr>c_timeout = 30, c_plugins = plugins, c_restoreId = '''', c_restoreDir = '''', c_historyDir = '''',
     c_zoneCfgs = [], c_rms = ''localhost'', c_sessions = []\<rparr>"

text \<open>
  A request works on its session, its \<^verbatim>\<open>Error\<close> and its \<^verbatim>\<open>TopologyState\<close>; \<open>rq_n\<close> counts the contacts with
  the environment. A step returns the \<^verbatim>\<open>bool\<close> of the C++ function, or \<open>None\<close> when it waits for ever.
\<close>

record 'd req =
  rq_session :: "'d session"
  rq_error :: ODC_Error.Error
  rq_topo :: TopologyState
  rq_n :: nat
  rq_writes :: "file_write list"

type_synonym 'd step = "'d req \<Rightarrow> (bool \<times> 'd req) option"

definition and_then :: "'d step \<Rightarrow> 'd step \<Rightarrow> 'd step" where
  "and_then f g rq =
     (case f rq of None \<Rightarrow> None | Some (ok, rq1) \<Rightarrow> if ok then g rq1 else Some (False, rq1))"

definition ok_so_far :: "'d req \<Rightarrow> bool" where
  "ok_so_far rq \<longleftrightarrow> mCode (rq_error rq) = None"

definition set_dds :: "'d \<Rightarrow> 'd req \<Rightarrow> 'd req" where
  "set_dds d rq = rq\<lparr>rq_session := (rq_session rq)\<lparr>s_ddsSession := d\<rparr>\<rparr>"

definition contact :: "'d req \<Rightarrow> 'd req" where
  "contact rq = rq\<lparr>rq_n := Suc (rq_n rq)\<rparr>"

definition fillAndLogError :: "ErrorCode \<Rightarrow> string \<Rightarrow> 'd req \<Rightarrow> 'd req" where
  "fillAndLogError errorCode msg rq = rq\<lparr>rq_error := \<lparr>mCode = MakeErrorCode errorCode, mDetails = msg\<rparr>\<rparr>"

definition fillAndLogFatalError :: "ErrorCode \<Rightarrow> string \<Rightarrow> 'd req \<Rightarrow> 'd req" where
  "fillAndLogFatalError errorCode msg rq = rq\<lparr>rq_error := \<lparr>mCode = MakeErrorCode errorCode, mDetails = msg\<rparr>\<rparr>"

text \<open>
  \<^verbatim>\<open>duration_cast\<close> from milliseconds to seconds truncates towards zero. The elapsed time is the one the
  timer shows at this contact.
\<close>

definition trunc_div :: "int \<Rightarrow> int \<Rightarrow> int" where
  "trunc_div a b = (if 0 \<le> a then a div b else - ((- a) div b))"

definition requestTimeout :: "('d, 'p) env \<Rightarrow> 'c config_scheme \<Rightarrow> CommonParams \<Rightarrow> nat \<Rightarrow> int" where
  "requestTimeout E c common n =
     (let configuredTimeoutS = (if cp_timeout common = 0 then c_timeout c else sint (cp_timeout common));
          realTimeoutMs = configuredTimeoutS * 1000 - en_elapsed E n
      in trunc_div realTimeoutMs 1000)"

section \<open>Sessions\<close>

definition acquireSession :: "('d, 'p) env \<Rightarrow> string \<Rightarrow> 'd controller \<Rightarrow> 'd session \<times> 'd controller" where
  "acquireSession E pid c =
     (case map_of (c_sessions c) pid of
        Some s \<Rightarrow> (s, c)
      | None \<Rightarrow>
          let s = new_session (dds_init E) pid
          in (s, c\<lparr>c_sessions := smap_emplace pid s (c_sessions c)\<rparr>))"

definition removeSession :: "string \<Rightarrow> 'd controller \<Rightarrow> 'd controller" where
  "removeSession pid c = c\<lparr>c_sessions := smap_erase pid (c_sessions c)\<rparr>"

definition put_session :: "string \<Rightarrow> 'd session \<Rightarrow> 'd controller \<Rightarrow> 'd controller" where
  "put_session pid s c = c\<lparr>c_sessions := smap_set pid s (c_sessions c)\<rparr>"

text \<open>The running sessions, written to the restore file when one is configured.\<close>

definition restore_entries :: "('d, 'p) env \<Rightarrow> 'd controller \<Rightarrow> (string \<times> string) list" where
  "restore_entries E c =
     map (\<lambda>(_, s). (s_partitionID s, dds_sessionID E (s_ddsSession s)))
       (filter (\<lambda>(_, s). dds_IsRunning E (s_ddsSession s)) (c_sessions c))"

definition updateRestore :: "('d, 'p) env \<Rightarrow> 'd controller \<Rightarrow> file_write list" where
  "updateRestore E c =
     (if c_restoreId c = [] then [] else [WroteRestore (c_restoreId c) (c_restoreDir c) (restore_entries E c)])"

definition updateHistory :: "'c config_scheme \<Rightarrow> string \<Rightarrow> string \<Rightarrow> file_write list" where
  "updateHistory c pid sessionId =
     (if c_historyDir c = [] then [] else [WroteHistory (c_historyDir c) pid sessionId])"

section \<open>Configuration\<close>

fun registerResourcePlugins ::
  "path_api \<Rightarrow> (string \<times> string) list \<Rightarrow> 'd controller \<Rightarrow> 'd controller \<times> exn option" where
  "registerResourcePlugins pa [] c = (c, None)"
| "registerResourcePlugins pa ((name, cmd) # ps) c =
     (case registerPlugin pa name cmd (c_plugins c) of
        Inl e \<Rightarrow> (c, Some e)
      | Inr plugins \<Rightarrow> registerResourcePlugins pa ps (c\<lparr>c_plugins := plugins\<rparr>))"

fun setZoneCfgs :: "string list \<Rightarrow> 'd controller \<Rightarrow> 'd controller \<times> exn option" where
  "setZoneCfgs [] c = (c, None)"
| "setZoneCfgs (z # zs) c =
     (case split_at (CHR '':'') z of
        [name, cfg, envf] \<Rightarrow>
          setZoneCfgs zs (c\<lparr>c_zoneCfgs := smap_set name \<lparr>zc_cfgPath = cfg, zc_envPath = envf\<rparr> (c_zoneCfgs c)\<rparr>)
      | _ \<Rightarrow> (c, Some (RuntimeError (''Provided zones configuration has incorrect format. Expected '' @
               ''<name>:<cfgFilePath>:<cfgFilePath>. Received: '' @ z))))"

section \<open>The topology file\<close>

definition write_topology :: "('d, 'p) env \<Rightarrow> string \<Rightarrow> 'd req \<Rightarrow> (exn + string) \<times> 'd req" where
  "write_topology E content rq =
     (case en_tempDir E (rq_n rq) of
        Inl e \<Rightarrow> (Inl e, contact rq)
      | Inr dir \<Rightarrow>
          let filepath = dir @ ''/topology.xml'' in
          if \<not> en_canOpen E filepath
          then (Inl (RuntimeError (''Failed to create temporary topology file '' @ quoted filepath)), contact rq)
          else (Inr filepath, (contact rq)\<lparr>rq_writes := rq_writes rq @ [WroteTopology filepath content]\<rparr>))"

definition topoFilepath ::
  "('d, 'p) env \<Rightarrow> 'c config_scheme \<Rightarrow> CommonParams \<Rightarrow> string \<Rightarrow> string \<Rightarrow> string \<Rightarrow> 'd req \<Rightarrow> (exn + string) \<times> 'd req" where
  "topoFilepath E c common topologyFile topologyContent topologyScript rq =
     (let count = (if topologyFile = [] then 0 else 1) + (if topologyContent = [] then 0 else 1) +
                  (if topologyScript = [] then 0 else 1 :: nat)
      in if count \<noteq> 1 then (Inl (RuntimeError ''Either topology filepath, content or script has to be set''), rq)
         else if topologyFile \<noteq> [] then (Inr topologyFile, rq)
         else if topologyScript \<noteq> []
         then (case en_execute E topologyScript (requestTimeout E c common (rq_n rq))
                      [(''ODC_TOPO_GEN_CMD'', topologyScript)] of
                 Inl e \<Rightarrow> (Inl e, contact rq)
               | Inr (out, err, exitCode) \<Rightarrow>
                   if exitCode \<noteq> 0
                   then (Inl (RuntimeError (''Topology generation script failed with exit code: '' @
                          string_of_int exitCode @ '', stderr: '' @ quoted err)), contact rq)
                   else write_topology E out (contact rq))
         else write_topology E topologyContent rq)"

section \<open>The state at a path\<close>

text \<open>A path that is a single task gives its state; otherwise the tasks that match it are aggregated.\<close>

definition states_for_path :: "ctopology \<Rightarrow> TopoState \<Rightarrow> string \<Rightarrow> exn + AggregatedState" where
  "states_for_path ct topoState path =
     bind_exn (rt_matching ct path) (\<lambda>ts.
       let taskIds = set (map fst ts) in
       if taskIds = {} then Inl (RuntimeError (''No tasks found matching the path '' @ path))
       else case find (\<lambda>v. ds_taskId v = Min taskIds) topoState of
              None \<Rightarrow> Inl (RuntimeError (''No states found for path '' @ path))
            | Some firstIt \<Rightarrow>
                Inr (if list_all (\<lambda>v. ds_taskId v \<in> taskIds \<longrightarrow> ds_state v = ds_state firstIt) topoState
                     then Agg (ds_state firstIt) else Mixed))"

definition aggregateStateForPath :: "ctopology option \<Rightarrow> TopoState \<Rightarrow> string \<Rightarrow> exn + AggregatedState" where
  "aggregateStateForPath ddsTopo topoState path =
     (if path = [] then Inr (AggregateState topoState)
      else case ddsTopo of
             None \<Rightarrow> Inl (RuntimeError ''DDS topology is not initialized'')
           | Some ct \<Rightarrow>
              (case ct_runtimeTask ct path of
                 Inl e \<Rightarrow> states_for_path ct topoState path
               | Inr i \<Rightarrow>
                  (case find (\<lambda>v. ds_taskId v = i) topoState of
                     Some v \<Rightarrow> Inr (Agg (ds_state v))
                   | None \<Rightarrow> states_for_path ct topoState path)))"

end
