(* ===== verification/Controller_DDS.thy ===== *)
theory Controller_DDS
  imports Controller_State
begin

text \<open>
  \<^verbatim>\<open>src/odc/Controller.cpp\<close>, the steps of a request that talk to DDS: the session, the submission of
  agents with its recovery, the activation of a topology and the creation of the topology objects.
\<close>

section \<open>The DDS session\<close>

definition createDDSSession :: "('d, 'p) env \<Rightarrow> 'c config_scheme \<Rightarrow> CommonParams \<Rightarrow> 'd step" where
  "createDDSSession E c common rq =
     (let (d, e) = dds_create E (rq_n rq) (s_ddsSession (rq_session rq));
          rq1 = contact (set_dds d rq)
      in case e of
           Some e \<Rightarrow> Some (False, fillAndLogError DDSCreateSessionFailed (''Failed to create a DDS session: '' @ what e) rq1)
         | None \<Rightarrow> Some (True, rq1\<lparr>rq_writes := rq_writes rq1 @
                      updateHistory c (cp_partitionID common) (dds_sessionID E d)\<rparr>))"

definition attachToDDSSession :: "('d, 'p) env \<Rightarrow> string \<Rightarrow> 'd step" where
  "attachToDDSSession E sessionID rq =
     (let (d, e) = dds_attach E (rq_n rq) sessionID (s_ddsSession (rq_session rq));
          rq1 = contact (set_dds d rq)
      in case e of
           Some e \<Rightarrow> Some (False, fillAndLogError DDSAttachToSessionFailed (''Failed to attach to a DDS session: '' @ what e) rq1)
         | None \<Rightarrow> Some (True, rq1))"

definition clear_session :: "'d session \<Rightarrow> 'd session" where
  "clear_session s =
     s\<lparr>s_topology := None, s_ddsTopo := None, s_nInfo := [], s_zoneInfo := [], s_standaloneTasks := [],
       s_collections := [], s_agentGroupInfo := [], s_topoFilePath := [], s_expendableTasks := {}\<rparr>"

definition shutdownDDSSession :: "('d, 'p) env \<Rightarrow> 'd step" where
  "shutdownDDSSession E rq =
     (let rq1 = rq\<lparr>rq_session := clear_session (rq_session rq)\<rparr>;
          d = s_ddsSession (rq_session rq1)
      in if dds_sessionID E d \<noteq> nil_uuid
         then (let (d1, e) = dds_shutdown E (rq_n rq1) d; rq2 = contact (set_dds d1 rq1)
               in case e of
                    Some e \<Rightarrow> Some (False, fillAndLogError DDSShutdownSessionFailed (''Shutdown failed: '' @ what e) rq2)
                  | None \<Rightarrow>
                      if dds_sessionID E d1 = nil_uuid then Some (True, rq2)
                      else Some (False, fillAndLogError DDSShutdownSessionFailed ''Failed to shut down DDS session'' rq2))
         else Some (True, rq1))"

text \<open>The path of the active topology, empty when there is none or the request fails.\<close>

definition getActiveDDSTopology ::
  "('d, 'p) env \<Rightarrow> 'c config_scheme \<Rightarrow> CommonParams \<Rightarrow> 'd req \<Rightarrow> string \<times> 'd req" where
  "getActiveDDSTopology E c common rq =
     (case dds_commanderInfo E (rq_n rq) (requestTimeout E c common (rq_n rq)) (s_ddsSession (rq_session rq)) of
        Inl e \<Rightarrow> ('''', fillAndLogError DDSCommanderInfoFailed (''Error getting DDS commander info: '' @ what e) (contact rq))
      | Inr path \<Rightarrow> (path, contact rq))"

section \<open>Submission\<close>

definition submit_request :: "CommonParams \<Rightarrow> DDSSubmitParams \<Rightarrow> SubmitRequest" where
  "submit_request common p =
     (let cores = su_rms p = ''slurm'' \<and> su_numCores p > 0 in
      \<lparr>sr_submissionTag = cp_partitionID common, sr_rms = su_rms p, sr_instances = su_numAgents p,
       sr_minInstances = su_minAgents p, sr_slots = su_numSlots p, sr_config = su_configFile p,
       sr_envCfgFilePath = su_envFile p, sr_groupName = su_agentGroup p, sr_enable_overbooking = cores,
       sr_inlineConfig = (if cores then ''#SBATCH --cpus-per-task='' @ string_of_nat (unat (su_numCores p)) else '''')\<rparr>)"

text \<open>The message callback: an error message makes the call fail and is the error of the request.\<close>

fun submit_messages :: "(bool \<times> string) list \<Rightarrow> bool \<times> 'd req \<Rightarrow> bool \<times> 'd req" where
  "submit_messages [] (success, rq) = (success, rq)"
| "submit_messages ((is_error, msg) # ms) (success, rq) =
     submit_messages ms
       (if is_error then (False, fillAndLogError DDSSubmitAgentsFailed (''Submit error: '' @ msg) rq) else (success, rq))"

definition submitDDSAgents ::
  "('d, 'p) env \<Rightarrow> 'c config_scheme \<Rightarrow> CommonParams \<Rightarrow> DDSSubmitParams \<Rightarrow> 'd req \<Rightarrow> bool \<times> 'd req" where
  "submitDDSAgents E c common params rq =
     (let (d, msgs, timed_out) = dds_submit E (rq_n rq) (submit_request common params)
                                   (requestTimeout E c common (rq_n rq)) (s_ddsSession (rq_session rq));
          (success, rq1) = submit_messages msgs (True, contact (set_dds d rq))
      in if timed_out
         then (False, fillAndLogError ODC_Error.RequestTimeout ''Timed out waiting for agent submission'' rq1)
         else (success, rq1))"

definition waitForNumActiveSlots ::
  "('d, 'p) env \<Rightarrow> 'c config_scheme \<Rightarrow> CommonParams \<Rightarrow> u64 \<Rightarrow> 'd req \<Rightarrow> bool \<times> 'd req" where
  "waitForNumActiveSlots E c common numSlots rq =
     (let (d, e) = dds_waitForNumSlots E (rq_n rq) numSlots (requestTimeout E c common (rq_n rq)) (s_ddsSession (rq_session rq));
          rq1 = contact (set_dds d rq)
      in case e of
           Some e \<Rightarrow> (False, fillAndLogError ODC_Error.RequestTimeout (''Timeout waiting for DDS slots: '' @ what e) rq1)
         | None \<Rightarrow> (True, rq1))"

text \<open>The submission loop; the product of two 32-bit numbers is taken before it is widened.\<close>

fun submit_all ::
  "('d, 'p) env \<Rightarrow> 'c config_scheme \<Rightarrow> CommonParams \<Rightarrow> DDSSubmitParams list \<Rightarrow> u64 \<Rightarrow> 'd req \<Rightarrow> u64 \<times> 'd req" where
  "submit_all E c common [] expected rq = (expected, rq)"
| "submit_all E c common (p # ps) expected rq =
     (case submitDDSAgents E c common p rq of
        (True, rq1) \<Rightarrow> submit_all E c common ps (expected + ucast (su_numAgents p * su_numSlots p)) rq1
      | (False, rq1) \<Rightarrow> (expected, rq1))"

fun agent_loop :: "AgentInfo list \<Rightarrow> (string \<times> u32) list \<times> 'd session \<Rightarrow> (string \<times> u32) list \<times> 'd session" where
  "agent_loop [] (counts, s) = (counts, s)"
| "agent_loop (a # as) (counts, s) =
     agent_loop as
       (smap_set (ai_groupName a) (get_or 0 (map_of counts (ai_groupName a)) + 1) counts,
        s\<lparr>s_agentSlots := AList.update (ai_agentID a) (ai_nSlots a) (s_agentSlots s)\<rparr>)"

subsection \<open>Recovery\<close>

text \<open>The verdict on the numbers of agents: an exception, a message of refusal, or nothing.\<close>

fun recovery_check :: "(string \<times> u32) list \<Rightarrow> DDSSubmitParams list \<Rightarrow> exn + string option" where
  "recovery_check counts [] = Inr None"
| "recovery_check counts (p # ps) =
     (case map_of counts (su_agentGroup p) of
        None \<Rightarrow> Inl (OutOfRange ''map::at'')
      | Some actualCount \<Rightarrow>
          let msg = ''Number of agents ('' @ string_of_nat (unat actualCount) @ '') for group '' @ su_agentGroup p @
                '' is less than requested ('' @ string_of_nat (unat (su_numAgents p)) @ ''), and '' in
          if su_numAgents p \<noteq> actualCount
          then (if su_minAgents p = 0 then Inr (Some (msg @ ''no nMin is defined''))
                else if actualCount < su_minAgents p
                then Inr (Some (msg @ ''nMin ('' @ string_of_nat (unat (su_minAgents p)) @ '') is not satisfied''))
                else recovery_check counts ps)
          else recovery_check counts ps)"

definition current_counts ::
  "(string \<times> u32) list \<Rightarrow> (string \<times> CollectionNInfo) list \<Rightarrow> (string \<times> CollectionNInfo) list" where
  "current_counts counts =
     map_vals (\<lambda>ni. case map_of counts (ni_agentGroup ni) of None \<Rightarrow> ni | Some n \<Rightarrow> ni\<lparr>ni_nCurrent := sint n\<rparr>)"

text \<open>The new multiplicities: one for each listed collection that stands in a group of its own.\<close>

fun group_updates :: "(string \<times> CollectionNInfo) list \<Rightarrow> nat \<Rightarrow> creator_collection list \<Rightarrow> (nat \<times> int) list" where
  "group_updates nInfo i [] = []"
| "group_updates nInfo i (col # cols) =
     (case map_of nInfo (tk_name col) of
        None \<Rightarrow> group_updates nInfo (Suc i) cols
      | Some ni \<Rightarrow>
          if tk_parentIsGroup col \<and> tk_parentName col \<noteq> ''main''
          then (i, ni_nCurrent ni) # group_updates nInfo (Suc i) cols
          else group_updates nInfo (Suc i) cols)"

definition updateTopology :: "('d, 'p) env \<Rightarrow> CommonParams \<Rightarrow> 'd req \<Rightarrow> exn option \<times> 'd req" where
  "updateTopology E common rq =
     (let s = rq_session rq; rq1 = contact rq in
      case en_creatorCollections E (s_topoFilePath s) of
        Inl e \<Rightarrow> (Some e, rq1)
      | Inr cols \<Rightarrow>
         (case en_tempDir E (rq_n rq) of
            Inl e \<Rightarrow> (Some e, rq1)
          | Inr dir \<Rightarrow>
              let filepath = dir @ ''/topo_'' @ cp_partitionID common @ ''_reduced.xml'' in
              case en_creatorSave E (rq_n rq) filepath of
                Some e \<Rightarrow> (Some e, rq1)
              | None \<Rightarrow> (None, rq1\<lparr>rq_session := s\<lparr>s_topoFilePath := filepath\<rparr>,
                    rq_writes := rq_writes rq1 @
                      [WroteReducedTopology (s_topoFilePath s) (group_updates (s_nInfo s) 0 cols) filepath]\<rparr>)))"

definition attemptSubmitRecovery ::
  "('d, 'p) env \<Rightarrow> 'c config_scheme \<Rightarrow> CommonParams \<Rightarrow> DDSSubmitParams list \<Rightarrow> (string \<times> u32) list \<Rightarrow> 'd req \<Rightarrow> 'd req" where
  "attemptSubmitRecovery E c common ddsParams agentCounts rq =
     (let rq0 = rq\<lparr>rq_error := no_error\<rparr> in
      case recovery_check agentCounts ddsParams of
        Inl e \<Rightarrow> fillAndLogError DDSSubmitAgentsFailed (''Recovery failed: '' @ what e) rq0
      | Inr (Some msg) \<Rightarrow> fillAndLogError DDSSubmitAgentsFailed msg rq0
      | Inr None \<Rightarrow>
         (case dds_agentCount E (rq_n rq0) (requestTimeout E c common (rq_n rq0)) (s_ddsSession (rq_session rq0)) of
            Inl e \<Rightarrow> fillAndLogError DDSCreateTopologyFailed (''Failed updating topology: '' @ what e) (contact rq0)
          | Inr n \<Rightarrow>
              let s = rq_session rq0;
                  rq1 = (contact rq0)\<lparr>rq_session := s\<lparr>s_totalSlots := ucast n, s_nInfo := current_counts agentCounts (s_nInfo s)\<rparr>\<rparr>
              in case updateTopology E common rq1 of
                   (Some e, rq2) \<Rightarrow> fillAndLogError DDSCreateTopologyFailed (''Failed updating topology: '' @ what e) rq2
                 | (None, rq2) \<Rightarrow> rq2))"

subsection \<open>The whole submission\<close>

definition submit_params ::
  "('d, 'p) env \<Rightarrow> 'c config_scheme \<Rightarrow> CommonParams \<Rightarrow> string \<Rightarrow> string \<Rightarrow> bool \<Rightarrow> 'd req \<Rightarrow> exn + DDSSubmitParams list" where
  "submit_params E c common plugin res extractResources rq =
     (if extractResources then Inr (makeParams_topo (c_rms c) (c_zoneCfgs c) (s_agentGroupInfo (rq_session rq)))
      else makeParams_plugin (\<lambda>cmd t. en_execute E cmd t []) (en_ptree E) (c_plugins c) plugin res (cp_partitionID common)
             (s_zoneInfo (rq_session rq)) (s_nInfo (rq_session rq)) (requestTimeout E c common (rq_n rq)))"

definition submit_agents ::
  "('d, 'p) env \<Rightarrow> 'c config_scheme \<Rightarrow> CommonParams \<Rightarrow> DDSSubmitParams list \<Rightarrow> 'd req \<Rightarrow> 'd req" where
  "submit_agents E c common ddsParams rq =
     (if ok_so_far rq
      then (let (expected, rq1) = submit_all E c common ddsParams (s_totalSlots (rq_session rq)) rq in
            if ok_so_far rq1
            then (case waitForNumActiveSlots E c common expected rq1 of
                    (True, rq2) \<Rightarrow> rq2\<lparr>rq_session := (rq_session rq2)\<lparr>s_totalSlots := expected\<rparr>\<rparr>
                  | (False, rq2) \<Rightarrow> rq2)
            else rq1)
      else rq)"

definition submit_report ::
  "('d, 'p) env \<Rightarrow> 'c config_scheme \<Rightarrow> CommonParams \<Rightarrow> DDSSubmitParams list \<Rightarrow> 'd req \<Rightarrow> string set \<times> 'd req" where
  "submit_report E c common ddsParams rq =
     (if dds_IsRunning E (s_ddsSession (rq_session rq))
      then (let zero = fold (\<lambda>p. smap_set (su_agentGroup p) 0) ddsParams [];
                (hosts, counts, rq1) =
                  (case dds_agentInfo E (rq_n rq) (requestTimeout E c common (rq_n rq)) (s_ddsSession (rq_session rq)) of
                     Inl e \<Rightarrow> ({}, zero, fillAndLogError DDSCommanderInfoFailed (''Failed getting agent info: '' @ what e) (contact rq))
                   | Inr agents \<Rightarrow>
                       (let (counts, s) = agent_loop agents (zero, rq_session rq)
                        in (set (map ai_host agents), counts, (contact rq)\<lparr>rq_session := s\<rparr>)))
            in (hosts, if ok_so_far rq1 then rq1 else attemptSubmitRecovery E c common ddsParams counts rq1))
      else ({}, rq))"

definition submit ::
  "('d, 'p) env \<Rightarrow> 'c config_scheme \<Rightarrow> CommonParams \<Rightarrow> string \<Rightarrow> string \<Rightarrow> bool \<Rightarrow> 'd req \<Rightarrow> string set \<times> 'd req" where
  "submit E c common plugin res extractResources rq =
     (if \<not> dds_IsRunning E (s_ddsSession (rq_session rq))
      then ({}, fillAndLogError DDSSubmitAgentsFailed
                  ''DDS session is not running. Use Init or Run to start the session.'' rq)
      else case (if ok_so_far rq then submit_params E c common plugin res extractResources rq else Inr []) of
             Inl e \<Rightarrow> ({}, fillAndLogError ResourcePluginFailed (''Resource plugin failed: '' @ what e) (contact rq))
           | Inr ddsParams \<Rightarrow>
               submit_report E c common ddsParams (submit_agents E c common ddsParams (contact rq)))"

section \<open>Activation\<close>

text \<open>\<^verbatim>\<open>rfind\<close> of the slash and \<^verbatim>\<open>erase\<close> from there on.\<close>

definition erase_last_component :: "string \<Rightarrow> string" where
  "erase_last_component s =
     (if CHR ''/'' \<in> set s then rev (tl (dropWhile (\<lambda>c. c \<noteq> CHR ''/'') (rev s))) else s)"

definition activate_response :: "TopologyResponse \<Rightarrow> 'd session \<Rightarrow> 'd session" where
  "activate_response res s =
     (if re_activated res
      then (let s1 = addTaskDetails \<lparr>td_agentID = re_agentID res, td_slotID = re_slotID res, td_taskID = re_taskID res,
                       td_collectionID = re_collectionID res, td_path = re_path res, td_host = re_host res,
                       td_wrkDir = re_wrkDir res\<rparr> s
            in if re_collectionID res > 0
               then addCollectionDetails \<lparr>cd_agentID = re_agentID res, cd_slotID = re_slotID res,
                      cd_collectionID = re_collectionID res, cd_path = erase_last_component (re_path res),
                      cd_host = re_host res, cd_wrkDir = re_wrkDir res\<rparr> s1
               else s1)
      else s)"

fun activate_events :: "activate_event list \<Rightarrow> bool \<times> 'd req \<Rightarrow> bool \<times> 'd req" where
  "activate_events [] (success, rq) = (success, rq)"
| "activate_events (ActMessage is_error msg # es) (success, rq) =
     activate_events es
       (if is_error then (False, fillAndLogError DDSActivateTopologyFailed (''DDS Activate error: '' @ msg) rq)
        else (success, rq))"
| "activate_events (ActResponse res # es) (success, rq) =
     activate_events es (success, rq\<lparr>rq_session := activate_response res (rq_session rq)\<rparr>)"

definition activateDDSTopology ::
  "('d, 'p) env \<Rightarrow> 'c config_scheme \<Rightarrow> CommonParams \<Rightarrow> UpdateType \<Rightarrow> 'd step" where
  "activateDDSTopology E c common updateType rq =
     (let (d, es, timed_out) = dds_activate E (rq_n rq) (s_topoFilePath (rq_session rq)) updateType
                                 (requestTimeout E c common (rq_n rq)) (s_ddsSession (rq_session rq));
          (success, rq1) = activate_events es (True, contact (set_dds d rq))
      in if timed_out
         then Some (False, fillAndLogError ODC_Error.RequestTimeout ''Timed out waiting for topology activation'' rq1)
         else Some (success, rq1))"

definition createDDSTopology :: "('d, 'p) env \<Rightarrow> 'd step" where
  "createDDSTopology E rq =
     (case en_loadTopology E (s_topoFilePath (rq_session rq)) of
        Inl e \<Rightarrow> Some (False, fillAndLogError DDSCreateTopologyFailed (''Failed to initialize DDS topology: '' @ what e) rq)
      | Inr ct \<Rightarrow> Some (True, rq\<lparr>rq_session := (rq_session rq)\<lparr>s_ddsTopo := Some ct\<rparr>\<rparr>))"

definition resetTopology :: "'d step" where
  "resetTopology rq = Some (True, rq\<lparr>rq_session := (rq_session rq)\<lparr>s_topology := None\<rparr>\<rparr>)"

text \<open>
  \<^verbatim>\<open>*session.mDDSTopo\<close> is dereferenced; there is no result when it is null. Every caller has just created it.
\<close>

definition createTopology :: "('d, 'p) env \<Rightarrow> 'd step" where
  "createTopology E rq =
     (let s = rq_session rq; rq1 = contact rq in
      case s_ddsTopo s of
        None \<Rightarrow> None
      | Some ct \<Rightarrow>
         (case dds_topologyError E (rq_n rq) (s_ddsSession s) of
            Some e \<Rightarrow> Some (False, fillAndLogError FairMQCreateTopologyFailed (''Failed to initialize FairMQ topology: '' @ what e)
                        (rq1\<lparr>rq_session := s\<lparr>s_topology := None\<rparr>\<rparr>))
          | None \<Rightarrow> Some (True, rq1\<lparr>rq_session := s\<lparr>s_topology :=
                      Some (tp_new (dds_topo.truncate ct) (s_expendableTasks s) (s_collections s))\<rparr>\<rparr>)))"

end
