(* ===== verification/Controller_Requests.thy ===== *)
theory Controller_Requests
  imports Controller_DDS
begin

text \<open>
  \<^verbatim>\<open>src/odc/Controller.cpp\<close>, the steps of a request that act on the devices and the requests themselves. A
  request runs on the session of its partition; the service admits one request of a partition at a time,
  so a request is one step on the map of sessions. Its value is \<open>None\<close> when a blocking call never returns.
\<close>

section \<open>Acting on the devices\<close>

text \<open>A blocking call on the topology: the rest of the session is not touched while it waits.\<close>

definition call_topology ::
  "('d, 'p) env \<Rightarrow> 'c config_scheme \<Rightarrow> CommonParams \<Rightarrow>
     (u64 \<Rightarrow> int \<Rightarrow> topo_event list \<Rightarrow> topology \<Rightarrow> topology \<times> (exn + 'r) option) \<Rightarrow> topology \<Rightarrow> 'd req \<Rightarrow>
     ((exn + 'r) \<times> 'd req) option" where
  "call_topology E c common f tp rq =
     (let n = rq_n rq;
          (s, r) = use_topology (f (en_uuidHash E n) (requestTimeout E c common n) (en_during E n)) tp (rq_session rq)
      in map_option (\<lambda>r. (r, (contact rq)\<lparr>rq_session := s\<rparr>)) r)"

definition session_dds :: "'d session \<Rightarrow> dds_topo" where
  "session_dds s = (case s_ddsTopo s of Some ct \<Rightarrow> dds_topo.truncate ct
     | None \<Rightarrow> \<lparr>rt_tasks = [], rt_matching = (\<lambda>_. Inl (RuntimeError '''')), rt_collectionName = (\<lambda>_. Inl (RuntimeError ''''))\<rparr>)"

definition fill_detailed :: "TopoState \<Rightarrow> 'd session \<Rightarrow> TopologyState \<Rightarrow> TopologyState" where
  "fill_detailed topoState s ts = ts\<lparr>detailed := map_option (\<lambda>_. fillDetailedState topoState s) (detailed ts)\<rparr>"

definition changeState_failed :: "('d, 'p) env \<Rightarrow> mq_transition \<Rightarrow> ErrorCode \<Rightarrow> 'd req \<Rightarrow> 'd req" where
  "changeState_failed E transition ec rq =
     (if ec = OperationTimeout
      then fillAndLogFatalError ODC_Error.RequestTimeout
             (''Timed out waiting for '' @ en_TransitionName E transition @ '' transition'') rq
      else fillAndLogFatalError FairMQChangeStateFailed (''Change state failed: '' @ ErrorCode_message ec) rq)"

definition changeState ::
  "('d, 'p) env \<Rightarrow> 'c config_scheme \<Rightarrow> CommonParams \<Rightarrow> string \<Rightarrow> mq_transition \<Rightarrow> 'd step" where
  "changeState E c common path transition rq =
     (case s_topology (rq_session rq) of
        None \<Rightarrow> Some (False, fillAndLogError FairMQChangeStateFailed ''FairMQ topology is not initialized'' rq)
      | Some tp \<Rightarrow>
         if gExpectedState transition = None
         then Some (False, fillAndLogError FairMQChangeStateFailed
                (''Unexpected FairMQ transition '' @ en_TransitionName E transition) rq)
         else
          (case call_topology E c common
                  (\<lambda>i timeout. tp_ChangeState (session_dds (rq_session rq)) i transition path timeout) tp rq of
             None \<Rightarrow> None
           | Some (Inl e, rq1) \<Rightarrow>
               Some (False, fillAndLogFatalError FairMQChangeStateFailed (''Change state failed: '' @ what e) rq1)
           | Some (Inr (errorCode, topoState), rq1) \<Rightarrow>
               let rq2 = (case errorCode of None \<Rightarrow> rq1 | Some ec \<Rightarrow> changeState_failed E transition ec rq1);
                   ts = fill_detailed topoState (rq_session rq2) (rq_topo rq2)
               in Some (errorCode = None, rq2\<lparr>rq_topo := ts\<lparr>aggregated := AggregateState topoState\<rparr>\<rparr>)))"

definition waitForState ::
  "('d, 'p) env \<Rightarrow> 'c config_scheme \<Rightarrow> CommonParams \<Rightarrow> string \<Rightarrow> mq_state \<Rightarrow> 'd step" where
  "waitForState E c common path expState rq =
     (case s_topology (rq_session rq) of
        None \<Rightarrow> Some (False, fillAndLogError FairMQWaitForStateFailed ''FairMQ topology is not initialized'' rq)
      | Some tp \<Rightarrow>
         (case call_topology E c common
                 (\<lambda>i timeout. tp_WaitForState (session_dds (rq_session rq)) i Undefined expState path timeout) tp rq of
            None \<Rightarrow> None
          | Some (Inl e, rq1) \<Rightarrow>
              Some (False, fillAndLogError FairMQChangeStateFailed (''Wait for state failed: '' @ what e) rq1)
          | Some (Inr (None, _), rq1) \<Rightarrow> Some (True, rq1)
          | Some (Inr (Some ec, _), rq1) \<Rightarrow>
              Some (False,
                if ec = OperationTimeout
                then fillAndLogError ODC_Error.RequestTimeout
                       (''Timed out waiting for '' @ en_StateName E expState @ '' state'') rq1
                else fillAndLogError FairMQWaitForStateFailed
                       (''Failed waiting for '' @ en_StateName E expState @ '' state: '' @ ErrorCode_message ec) rq1)))"

definition changeStateConfigure where
  "changeStateConfigure E c common path =
     and_then (changeState E c common path InitDevice)
    (and_then (changeState E c common path CompleteInit)
    (and_then (changeState E c common path Bind)
    (and_then (changeState E c common path Connect)
              (changeState E c common path InitTask))))"

definition changeStateReset where
  "changeStateReset E c common path =
     and_then (changeState E c common path ResetTask) (changeState E c common path ResetDevice)"

definition getState :: "string \<Rightarrow> 'd req \<Rightarrow> bool \<times> 'd req" where
  "getState path rq =
     (case s_topology (rq_session rq) of
        None \<Rightarrow> (False, fillAndLogError FairMQGetStateFailed ''FairMQ topology is not initialized'' rq)
      | Some tp \<Rightarrow>
         let topoState = GetCurrentState tp;
             (success, rq1) =
               (case aggregateStateForPath (s_ddsTopo (rq_session rq)) topoState path of
                  Inl e \<Rightarrow> (False, fillAndLogError FairMQGetStateFailed (''Get state failed: '' @ what e) rq)
                | Inr st \<Rightarrow> (True, rq\<lparr>rq_topo := (rq_topo rq)\<lparr>aggregated := st\<rparr>\<rparr>))
         in (success, rq1\<lparr>rq_topo := fill_detailed topoState (rq_session rq1) (rq_topo rq1)\<rparr>))"

text \<open>The failed devices are looked up before the error is set; the first unknown one throws.\<close>

fun report_failed :: "'d session \<Rightarrow> task_id list \<Rightarrow> exn option" where
  "report_failed s [] = None"
| "report_failed s (i # is) = (case getTaskDetails i s of Inl e \<Rightarrow> Some e | Inr _ \<Rightarrow> report_failed s is)"

definition setProperties ::
  "('d, 'p) env \<Rightarrow> 'c config_scheme \<Rightarrow> CommonParams \<Rightarrow> string \<Rightarrow> DeviceProperties \<Rightarrow> 'd step" where
  "setProperties E c common path props rq =
     (case s_topology (rq_session rq) of
        None \<Rightarrow> Some (False, fillAndLogError FairMQSetPropertiesFailed ''FairMQ topology is not initialized'' rq)
      | Some tp \<Rightarrow>
         (case call_topology E c common
                 (\<lambda>i timeout. tp_SetProperties (session_dds (rq_session rq)) i props path timeout) tp rq of
            None \<Rightarrow> None
          | Some (Inl e, rq1) \<Rightarrow>
              Some (False, fillAndLogError FairMQSetPropertiesFailed (''Set properties failed: '' @ what e) rq1)
          | Some (Inr (errorCode, failedDevices), rq1) \<Rightarrow>
             (case (if errorCode = None then None else report_failed (rq_session rq1) (en_order E failedDevices)) of
                Some e \<Rightarrow> Some (False, fillAndLogError FairMQSetPropertiesFailed (''Set properties failed: '' @ what e) rq1)
              | None \<Rightarrow>
                 let rq2 = (case errorCode of
                        None \<Rightarrow> rq1
                      | Some ec \<Rightarrow>
                          if ec = OperationTimeout
                          then fillAndLogError ODC_Error.RequestTimeout
                                 (''Timed out waiting for set property: '' @ ErrorCode_message ec) rq1
                          else fillAndLogError FairMQSetPropertiesFailed
                                 (''Set property error message: '' @ ErrorCode_message ec) rq1);
                     sd = (case s_topology (rq_session rq2) of None \<Rightarrow> [] | Some tp \<Rightarrow> GetCurrentState tp);
                     rq3 = rq2\<lparr>rq_topo := (rq_topo rq2)\<lparr>aggregated := AggregateState sd\<rparr>\<rparr>
                 in Some (ok_so_far rq3, rq3))))"

definition activate :: "('d, 'p) env \<Rightarrow> 'c config_scheme \<Rightarrow> CommonParams \<Rightarrow> 'd step" where
  "activate E c common =
     and_then (activateDDSTopology E c common ACTIVATE)
    (and_then (createDDSTopology E)
    (and_then (createTopology E) (waitForState E c common '''' Idle)))"

section \<open>Requests\<close>

text \<open>The controller with the number of its contacts so far and all it has written.\<close>

record 'd world =
  w_ctl :: "'d controller"
  w_n :: nat
  w_writes :: "file_write list"

definition begin_request :: "('d, 'p) env \<Rightarrow> string \<Rightarrow> TopologyState \<Rightarrow> 'd world \<Rightarrow> 'd req" where
  "begin_request E pid ts w =
     \<lparr>rq_session = fst (acquireSession E pid (w_ctl w)), rq_error = no_error, rq_topo = ts, rq_n = w_n w,
      rq_writes = w_writes w\<rparr>"

definition end_request :: "string \<Rightarrow> 'd req \<Rightarrow> 'd world \<Rightarrow> 'd world" where
  "end_request pid rq w =
     w\<lparr>w_ctl := put_session pid (rq_session rq) (w_ctl w), w_n := rq_n rq, w_writes := rq_writes rq\<rparr>"

definition status_of :: "ODC_Error.Error \<Rightarrow> StatusCode" where
  "status_of error = (if mCode error \<noteq> None then Status_error else Status_ok)"

definition createRequestResult ::
  "('d, 'p) env \<Rightarrow> CommonParams \<Rightarrow> string \<Rightarrow> TopologyState \<Rightarrow> string set \<Rightarrow> 'd req \<Rightarrow> RequestResult" where
  "createRequestResult E common msg ts hosts rq =
     \<lparr>rr_statusCode = status_of (rq_error rq), rr_msg = msg, rr_execTime = en_elapsed E (rq_n rq), rr_error = rq_error rq,
      rr_partitionID = cp_partitionID common, rr_runNr = cp_runNr common,
      rr_ddsSessionID = dds_sessionID E (s_ddsSession (rq_session rq)), rr_topologyState = ts, rr_hosts = hosts\<rparr>"

definition finish ::
  "('d, 'p) env \<Rightarrow> CommonParams \<Rightarrow> string \<Rightarrow> 'd world \<Rightarrow> (bool \<times> 'd req) option \<Rightarrow> (RequestResult \<times> 'd world) option" where
  "finish E common msg w r =
     map_option (\<lambda>(_, rq). (createRequestResult E common msg (rq_topo rq) {} rq, end_request (cp_partitionID common) rq w)) r"

text \<open>\<^verbatim>\<open>updateRestore\<close> sees the session of the request as it is now.\<close>

definition restore_now :: "('d, 'p) env \<Rightarrow> string \<Rightarrow> 'd world \<Rightarrow> 'd req \<Rightarrow> 'd req" where
  "restore_now E pid w rq = rq\<lparr>rq_writes := rq_writes rq @ updateRestore E (put_session pid (rq_session rq) (w_ctl w))\<rparr>"

definition state_result :: "'d req \<Rightarrow> TopologyState" where
  "state_result rq = \<lparr>aggregated = Agg (if ok_so_far rq then Idle else Undefined), detailed = None\<rparr>"

definition detailed_request :: "bool \<Rightarrow> TopologyState" where
  "detailed_request d = \<lparr>aggregated = Agg Undefined, detailed = (if d then Some [] else None)\<rparr>"

text \<open>The steps of \<^verbatim>\<open>execInitialize\<close> before the restore file is written.\<close>

definition initialize_steps ::
  "('d, 'p) env \<Rightarrow> 'c config_scheme \<Rightarrow> CommonParams \<Rightarrow> InitializeParams \<Rightarrow> 'd step" where
  "initialize_steps E c common params rq =
     (if ip_ddsSessionID params = []
      then and_then (shutdownDDSSession E) (createDDSSession E c common) rq
      else case attachToDDSSession E (ip_ddsSessionID params) rq of
             None \<Rightarrow> None
           | Some (False, rq1) \<Rightarrow> Some (False, rq1)
           | Some (True, rq1) \<Rightarrow>
               let (path, rq2) = getActiveDDSTopology E c common rq1;
                   rq3 = rq2\<lparr>rq_session := (rq_session rq2)\<lparr>s_topoFilePath := path\<rparr>\<rparr>
               in if path \<noteq> [] then and_then (createDDSTopology E) (createTopology E) rq3
                  else Some (ok_so_far rq3, rq3))"

definition execInitialize ::
  "('d, 'p) env \<Rightarrow> CommonParams \<Rightarrow> InitializeParams \<Rightarrow> 'd world \<Rightarrow> (RequestResult \<times> 'd world) option" where
  "execInitialize E common params w =
     (let pid = cp_partitionID common in
      finish E common ''Initialize done'' w
        (map_option (\<lambda>(ok, rq). (ok, restore_now E pid w rq))
          (initialize_steps E (w_ctl w) common params (begin_request E pid default_TopologyState w))))"

definition execSubmit ::
  "('d, 'p) env \<Rightarrow> CommonParams \<Rightarrow> SubmitParams \<Rightarrow> 'd world \<Rightarrow> RequestResult \<times> 'd world" where
  "execSubmit E common params w =
     (let pid = cp_partitionID common;
          (hosts, rq) = submit E (w_ctl w) common (sp_plugin params) (sp_resources params) False
                          (begin_request E pid default_TopologyState w)
      in (createRequestResult E common ''Submit done'' (\<lparr>aggregated = Agg Undefined, detailed = None\<rparr>) hosts rq,
          end_request pid rq w))"

text \<open>Finding the topology file and reading its requirements; what is thrown is caught by the caller.\<close>

definition load_topology ::
  "('d, 'p) env \<Rightarrow> 'c config_scheme \<Rightarrow> CommonParams \<Rightarrow> string \<Rightarrow> string \<Rightarrow> string \<Rightarrow> string \<Rightarrow> 'd req \<Rightarrow> 'd req" where
  "load_topology E c common prefix topoFile topoContent topoScript rq =
     (case topoFilepath E c common topoFile topoContent topoScript rq of
        (Inl e, rq1) \<Rightarrow> fillAndLogFatalError TopologyFailed (prefix @ what e) rq1
      | (Inr path, rq1) \<Rightarrow>
         (case extractRequirements (en_loadTopology E) ((rq_session rq1)\<lparr>s_topoFilePath := path\<rparr>) of
            (s, Some e) \<Rightarrow> fillAndLogFatalError TopologyFailed (prefix @ what e) (rq1\<lparr>rq_session := s\<rparr>)
          | (s, None) \<Rightarrow> rq1\<lparr>rq_session := s\<rparr>))"

definition require_running :: "('d, 'p) env \<Rightarrow> ErrorCode \<Rightarrow> 'd req \<Rightarrow> 'd req" where
  "require_running E ec rq =
     (if dds_IsRunning E (s_ddsSession (rq_session rq)) then rq
      else fillAndLogError ec ''DDS session is not running. Use Init or Run to start the session.'' rq)"

definition execActivate ::
  "('d, 'p) env \<Rightarrow> CommonParams \<Rightarrow> ActivateParams \<Rightarrow> 'd world \<Rightarrow> (RequestResult \<times> 'd world) option" where
  "execActivate E common params w =
     (let pid = cp_partitionID common; c = w_ctl w;
          rq = load_topology E c common '''' (ap_topoFile params) (ap_topoContent params) (ap_topoScript params)
                 (require_running E DDSActivateTopologyFailed (begin_request E pid default_TopologyState w))
      in finish E common ''Activate done'' w
           (map_option (\<lambda>(ok, rq). (ok, rq\<lparr>rq_topo := state_result rq\<rparr>))
             (if ok_so_far rq then activate E c common rq else Some (False, rq))))"

text \<open>What \<^verbatim>\<open>execRun\<close> does once the session has been created: the hosts and the request.\<close>

definition run_steps ::
  "('d, 'p) env \<Rightarrow> 'c config_scheme \<Rightarrow> CommonParams \<Rightarrow> RunParams \<Rightarrow> 'd req \<Rightarrow> (string set \<times> 'd req) option" where
  "run_steps E c common params rq =
     (let rq1 = load_topology E c common ''Incorrect topology provided: '' (rp_topoFile params) (rp_topoContent params)
                  (rp_topoScript params) rq
      in if ok_so_far rq1
         then (let (hosts, rq2) = submit E c common (rp_plugin params) (rp_resources params) (rp_extractTopoResources params)
                                    (require_running E DDSSubmitAgentsFailed rq1);
                   rq3 = require_running E DDSActivateTopologyFailed rq2
               in if ok_so_far rq3 then map_option (\<lambda>(_, rq4). (hosts, rq4)) (activate E c common rq3)
                  else Some (hosts, rq3))
         else Some ({}, rq1))"

definition execRun ::
  "('d, 'p) env \<Rightarrow> CommonParams \<Rightarrow> RunParams \<Rightarrow> 'd world \<Rightarrow> (RequestResult \<times> 'd world) option" where
  "execRun E common params w =
     (let pid = cp_partitionID common; c = w_ctl w; rq = begin_request E pid default_TopologyState w;
          result = (\<lambda>(hosts, rq). (createRequestResult E common ''Run done'' (state_result rq) hosts rq, end_request pid rq w))
      in if s_runAttempted (rq_session rq)
         then Some (result ({}, rq\<lparr>rq_error := \<lparr>mCode = MakeErrorCode RequestNotSupported,
                mDetails = ''Repeated Run request is not supported. Shutdown this partition to retry.''\<rparr>\<rparr>))
         else
          (case and_then (shutdownDDSSession E) (createDDSSession E c common)
                  (rq\<lparr>rq_session := (rq_session rq)\<lparr>s_runAttempted := True\<rparr>\<rparr>) of
             None \<Rightarrow> None
           | Some (_, rq1) \<Rightarrow>
               let rq2 = restore_now E pid w rq1
               in map_option result (if ok_so_far rq2 then run_steps E c common params rq2 else Some ({}, rq2))))"

definition update_steps where
  "update_steps E c common =
     and_then (changeStateReset E c common '''')
    (and_then resetTopology
    (and_then (activateDDSTopology E c common UPDATE)
    (and_then (createDDSTopology E)
    (and_then (createTopology E)
    (and_then (waitForState E c common '''' Idle)
              (changeStateConfigure E c common ''''))))))"

definition execUpdate ::
  "('d, 'p) env \<Rightarrow> CommonParams \<Rightarrow> UpdateParams \<Rightarrow> 'd world \<Rightarrow> (RequestResult \<times> 'd world) option" where
  "execUpdate E common params w =
     (let pid = cp_partitionID common; c = w_ctl w;
          rq = load_topology E c common ''Incorrect topology provided: '' (up_topoFile params) (up_topoContent params)
                 (up_topoScript params) (begin_request E pid default_TopologyState w)
      in finish E common ''Update done'' w (if ok_so_far rq then update_steps E c common rq else Some (False, rq)))"

text \<open>The session is removed and the restore file written whatever became of the shutdown.\<close>

definition execShutdown :: "('d, 'p) env \<Rightarrow> CommonParams \<Rightarrow> 'd world \<Rightarrow> (RequestResult \<times> 'd world) option" where
  "execShutdown E common w =
     (let pid = cp_partitionID common; rq = begin_request E pid default_TopologyState w;
          ddsSessionId = dds_sessionID E (s_ddsSession (rq_session rq))
      in map_option (\<lambda>(_, rq1).
           let w1 = end_request pid rq1 w; c1 = removeSession pid (w_ctl w1)
           in ((createRequestResult E common ''Shutdown done'' default_TopologyState {} rq1)\<lparr>rr_ddsSessionID := ddsSessionId\<rparr>,
               w1\<lparr>w_ctl := c1, w_writes := w_writes w1 @ updateRestore E c1\<rparr>))
         (shutdownDDSSession E rq))"

definition execSetProperties ::
  "('d, 'p) env \<Rightarrow> CommonParams \<Rightarrow> SetPropertiesParams \<Rightarrow> 'd world \<Rightarrow> (RequestResult \<times> 'd world) option" where
  "execSetProperties E common params w =
     finish E common ''SetProperties done'' w
       (setProperties E (w_ctl w) common (spp_path params) (spp_properties params)
         (begin_request E (cp_partitionID common) default_TopologyState w))"

definition execGetState ::
  "('d, 'p) env \<Rightarrow> CommonParams \<Rightarrow> DeviceParams \<Rightarrow> 'd world \<Rightarrow> (RequestResult \<times> 'd world) option" where
  "execGetState E common params w =
     finish E common ''GetState done'' w
       (Some (getState (dp_path params) (begin_request E (cp_partitionID common) (detailed_request (dp_detailed params)) w)))"

definition execConfigure ::
  "('d, 'p) env \<Rightarrow> CommonParams \<Rightarrow> DeviceParams \<Rightarrow> 'd world \<Rightarrow> (RequestResult \<times> 'd world) option" where
  "execConfigure E common params w =
     finish E common ''Configure done'' w
       (changeStateConfigure E (w_ctl w) common (dp_path params)
         (begin_request E (cp_partitionID common) (detailed_request (dp_detailed params)) w))"

definition set_runNr :: "u64 \<Rightarrow> 'd req \<Rightarrow> 'd req" where
  "set_runNr r rq = rq\<lparr>rq_session := (rq_session rq)\<lparr>s_lastRunNr := r\<rparr>\<rparr>"

definition execStart ::
  "('d, 'p) env \<Rightarrow> CommonParams \<Rightarrow> DeviceParams \<Rightarrow> 'd world \<Rightarrow> (RequestResult \<times> 'd world) option" where
  "execStart E common params w =
     finish E common ''Start done'' w
       (changeState E (w_ctl w) common (dp_path params) Run
         (set_runNr (cp_runNr common)
           (begin_request E (cp_partitionID common) (detailed_request (dp_detailed params)) w)))"

definition execStop ::
  "('d, 'p) env \<Rightarrow> CommonParams \<Rightarrow> DeviceParams \<Rightarrow> 'd world \<Rightarrow> (RequestResult \<times> 'd world) option" where
  "execStop E common params w =
     finish E common ''Stop done'' w
       (map_option (\<lambda>(ok, rq). (ok, set_runNr 0 rq))
         (changeState E (w_ctl w) common (dp_path params) Stop
           (begin_request E (cp_partitionID common) (detailed_request (dp_detailed params)) w)))"

definition execReset ::
  "('d, 'p) env \<Rightarrow> CommonParams \<Rightarrow> DeviceParams \<Rightarrow> 'd world \<Rightarrow> (RequestResult \<times> 'd world) option" where
  "execReset E common params w =
     finish E common ''Reset done'' w
       (changeStateReset E (w_ctl w) common (dp_path params)
         (begin_request E (cp_partitionID common) (detailed_request (dp_detailed params)) w))"

definition execTerminate ::
  "('d, 'p) env \<Rightarrow> CommonParams \<Rightarrow> DeviceParams \<Rightarrow> 'd world \<Rightarrow> (RequestResult \<times> 'd world) option" where
  "execTerminate E common params w =
     finish E common ''Terminate done'' w
       (changeState E (w_ctl w) common (dp_path params) End
         (begin_request E (cp_partitionID common) (detailed_request (dp_detailed params)) w))"

text \<open>The requests as data, for statements about all of them.\<close>

datatype request =
    ReqInitialize InitializeParams | ReqSubmit SubmitParams | ReqActivate ActivateParams | ReqRun RunParams
  | ReqUpdate UpdateParams | ReqShutdown | ReqSetProperties SetPropertiesParams | ReqGetState DeviceParams
  | ReqConfigure DeviceParams | ReqStart DeviceParams | ReqStop DeviceParams | ReqReset DeviceParams
  | ReqTerminate DeviceParams

fun exec :: "('d, 'p) env \<Rightarrow> CommonParams \<Rightarrow> request \<Rightarrow> 'd world \<Rightarrow> (RequestResult \<times> 'd world) option" where
  "exec E common (ReqInitialize p) w = execInitialize E common p w"
| "exec E common (ReqSubmit p) w = Some (execSubmit E common p w)"
| "exec E common (ReqActivate p) w = execActivate E common p w"
| "exec E common (ReqRun p) w = execRun E common p w"
| "exec E common (ReqUpdate p) w = execUpdate E common p w"
| "exec E common ReqShutdown w = execShutdown E common w"
| "exec E common (ReqSetProperties p) w = execSetProperties E common p w"
| "exec E common (ReqGetState p) w = execGetState E common p w"
| "exec E common (ReqConfigure p) w = execConfigure E common p w"
| "exec E common (ReqStart p) w = execStart E common p w"
| "exec E common (ReqStop p) w = execStop E common p w"
| "exec E common (ReqReset p) w = execReset E common p w"
| "exec E common (ReqTerminate p) w = execTerminate E common p w"

text \<open>A sequence of requests, each of which returns.\<close>

fun exec_all :: "('d, 'p) env \<Rightarrow> (CommonParams \<times> request) list \<Rightarrow> 'd world \<Rightarrow> 'd world option" where
  "exec_all E [] w = Some w"
| "exec_all E ((common, r) # rs) w =
     (case exec E common r w of None \<Rightarrow> None | Some (_, w1) \<Rightarrow> exec_all E rs w1)"

definition partition_status :: "('d, 'p) env \<Rightarrow> 'd session \<Rightarrow> PartitionStatus" where
  "partition_status E s =
     \<lparr>pst_partitionID = s_partitionID s, pst_ddsSessionID = dds_sessionID E (s_ddsSession s),
      pst_ddsSessionStatus = (if dds_IsRunning E (s_ddsSession s) then DDS_running else DDS_stopped),
      pst_aggregatedState =
        (case (s_topology s, s_ddsTopo s) of
           (Some tp, Some ct) \<Rightarrow>
             (case aggregateStateForPath (Some ct) (GetCurrentState tp) '''' of Inr st \<Rightarrow> st | Inl _ \<Rightarrow> Agg Undefined)
         | _ \<Rightarrow> Agg Undefined)\<rparr>"

definition execStatus :: "('d, 'p) env \<Rightarrow> StatusParams \<Rightarrow> 'd world \<Rightarrow> StatusRequestResult" where
  "execStatus E params w =
     \<lparr>rr_statusCode = Status_ok, rr_msg = ''Status done'', rr_execTime = en_elapsed E (w_n w), rr_error = no_error,
      rr_partitions = filter (\<lambda>st. stp_running params \<longrightarrow> pst_ddsSessionStatus st = DDS_running)
         (map (partition_status E) (map snd (c_sessions (w_ctl w))))\<rparr>"

fun restore_loop :: "('d, 'p) env \<Rightarrow> (string \<times> string) list \<Rightarrow> 'd world \<Rightarrow> 'd world option" where
  "restore_loop E [] w = Some w"
| "restore_loop E ((pid, sid) # ps) w =
     (case execInitialize E \<lparr>cp_partitionID = pid, cp_runNr = 0, cp_timeout = 0\<rparr> \<lparr>ip_ddsSessionID = sid\<rparr> w of
        None \<Rightarrow> None
      | Some (_, w1) \<Rightarrow> restore_loop E ps w1)"

definition restore :: "('d, 'p) env \<Rightarrow> string \<Rightarrow> string \<Rightarrow> 'd world \<Rightarrow> 'd world option" where
  "restore E i dir w =
     restore_loop E (en_readRestore E i dir) (w\<lparr>w_ctl := (w_ctl w)\<lparr>c_restoreId := i, c_restoreDir := dir\<rparr>\<rparr>)"

end
