(* ===== verification/Controller_Contract.thy ===== *)
theory Controller_Contract
  imports Controller_Requests
begin

text \<open>
  What the steps of a request owe to it, as the locale \<open>request_step\<close>: a step returns \<^verbatim>\<open>true\<close> exactly when
  the request has no error, and it keeps the identity of the session, its \<^verbatim>\<open>mRunAttempted\<close> flag and its
  consistency. Every step of the controller is an instance, and so is a chain of steps.
\<close>

section \<open>Consistency of a session\<close>

text \<open>
  Of the environment it is needed that the tasks of a DDS topology have distinct ids and that there are less
  than \<open>2 ^ 32\<close> of them.
\<close>

definition ct_ok :: "ctopology \<Rightarrow> bool" where
  "ct_ok ct \<longleftrightarrow> distinct (map fst (rt_tasks ct)) \<and> length (rt_tasks ct) < 2 ^ 32"

definition env_ok :: "('d, 'p) env \<Rightarrow> bool" where
  "env_ok E \<longleftrightarrow> (\<forall>path ct. en_loadTopology E path = Inr ct \<longrightarrow> ct_ok ct)"

definition topology_of :: "ctopology \<Rightarrow> topology \<Rightarrow> bool" where
  "topology_of ct tp \<longleftrightarrow> topo_wf tp \<and> map ds_taskId (tp_stateData tp) = map fst (rt_tasks ct)"

text \<open>A session with a topology has the DDS topology it was made from.\<close>

definition session_ok :: "'d session \<Rightarrow> bool" where
  "session_ok s \<longleftrightarrow> (\<forall>ct. s_ddsTopo s = Some ct \<longrightarrow> ct_ok ct) \<and>
     (\<forall>tp. s_topology s = Some tp \<longrightarrow> (\<exists>ct. s_ddsTopo s = Some ct \<and> topology_of ct tp))"

definition session_keeps :: "('d, 'p) env \<Rightarrow> 'd session \<Rightarrow> 'd session \<Rightarrow> bool" where
  "session_keeps E s s' \<longleftrightarrow> s_partitionID s' = s_partitionID s \<and> s_runAttempted s' = s_runAttempted s \<and>
     (env_ok E \<longrightarrow> session_ok s \<longrightarrow> session_ok s')"

abbreviation req_keeps :: "('d, 'p) env \<Rightarrow> 'd req \<Rightarrow> 'd req \<Rightarrow> bool" where
  "req_keeps E rq rq' \<equiv> session_keeps E (rq_session rq) (rq_session rq')"

lemma session_keeps_refl [simp, intro]: "session_keeps E s s"
  by (simp add: session_keeps_def)

lemma session_keeps_trans [trans]: "session_keeps E a b \<Longrightarrow> session_keeps E b c \<Longrightarrow> session_keeps E a c"
  by (simp add: session_keeps_def)

lemma session_keeps_fields:
  "s_partitionID s' = s_partitionID s \<Longrightarrow> s_runAttempted s' = s_runAttempted s \<Longrightarrow> s_ddsTopo s' = s_ddsTopo s \<Longrightarrow>
     s_topology s' = s_topology s \<Longrightarrow> session_keeps E s s'"
  by (simp add: session_keeps_def session_ok_def)

lemma session_keeps_no_topology:
  "s_partitionID s' = s_partitionID s \<Longrightarrow> s_runAttempted s' = s_runAttempted s \<Longrightarrow>
     s_ddsTopo s' = s_ddsTopo s \<or> s_ddsTopo s' = None \<Longrightarrow> s_topology s' = None \<Longrightarrow> session_keeps E s s'"
  by (auto simp: session_keeps_def session_ok_def)

section \<open>The contract of a step\<close>

locale request_step =
  fixes E :: "('d, 'p) env" and step :: "'d step"
  assumes reports: "ok_so_far rq \<Longrightarrow> step rq = Some (ok, rq') \<Longrightarrow> ok \<longleftrightarrow> ok_so_far rq'"
    and keeps: "step rq = Some (ok, rq') \<Longrightarrow> req_keeps E rq rq'"
begin

lemma true_no_error: "ok_so_far rq \<Longrightarrow> step rq = Some (True, rq') \<Longrightarrow> ok_so_far rq'"
  using reports by blast

lemma false_error: "ok_so_far rq \<Longrightarrow> step rq = Some (False, rq') \<Longrightarrow> mCode (rq_error rq') \<noteq> None"
  using reports by (fastforce simp: ok_so_far_def)

lemma keeps_run: "step rq = Some (ok, rq') \<Longrightarrow> s_runAttempted (rq_session rq') = s_runAttempted (rq_session rq)"
  using keeps by (auto simp: session_keeps_def)

end

lemma and_then_Some:
  "and_then f g rq = Some (ok, rq') \<Longrightarrow>
     (\<exists>rq1. f rq = Some (True, rq1) \<and> g rq1 = Some (ok, rq')) \<or> f rq = Some (False, rq') \<and> \<not> ok"
  by (auto simp: and_then_def split: option.splits prod.splits if_splits)

lemma and_then_assoc: "and_then (and_then f g) h = and_then f (and_then g h)"
  by (auto simp: and_then_def fun_eq_iff split: option.splits)

lemma request_step_and_then:
  assumes "request_step E f" "request_step E g"
  shows "request_step E (and_then f g)"
proof -
  note f = request_step.reports [OF assms(1)] request_step.keeps [OF assms(1)]
  note g = request_step.reports [OF assms(2)] request_step.keeps [OF assms(2)]
  show ?thesis
  proof
    show "ok \<longleftrightarrow> ok_so_far rq'" if "ok_so_far rq" "and_then f g rq = Some (ok, rq')" for rq ok rq'
      using and_then_Some [OF that(2)] f(1) [OF that(1)] g(1) by blast
    show "req_keeps E rq rq'" if "and_then f g rq = Some (ok, rq')" for rq ok rq'
      using and_then_Some [OF that] f(2) g(2) by (blast intro: session_keeps_trans)
  qed
qed

text \<open>What the helpers do to the session and the error.\<close>

lemma ok_fill [simp]: "\<not> ok_so_far (fillAndLogError ec msg rq)" "\<not> ok_so_far (fillAndLogFatalError ec msg rq)"
  by (simp_all add: ok_so_far_def fillAndLogError_def fillAndLogFatalError_def MakeErrorCode_def)

lemma session_fill [simp]:
  "rq_session (fillAndLogError ec msg rq) = rq_session rq" "rq_session (fillAndLogFatalError ec msg rq) = rq_session rq"
  "rq_session (contact rq) = rq_session rq" "rq_session (set_dds d rq) = (rq_session rq)\<lparr>s_ddsSession := d\<rparr>"
  by (simp_all add: fillAndLogError_def fillAndLogFatalError_def contact_def set_dds_def)

lemma topo_fill [simp]:
  "rq_topo (fillAndLogError ec msg rq) = rq_topo rq" "rq_topo (fillAndLogFatalError ec msg rq) = rq_topo rq"
  "rq_topo (contact rq) = rq_topo rq" "rq_topo (set_dds d rq) = rq_topo rq"
  by (simp_all add: fillAndLogError_def fillAndLogFatalError_def contact_def set_dds_def)

lemma error_other [simp]:
  "rq_error (contact rq) = rq_error rq" "rq_error (set_dds d rq) = rq_error rq"
  by (simp_all add: contact_def set_dds_def)

lemma ok_other [simp]:
  "ok_so_far (contact rq) = ok_so_far rq" "ok_so_far (set_dds d rq) = ok_so_far rq"
  "ok_so_far (rq\<lparr>rq_session := s\<rparr>) = ok_so_far rq" "ok_so_far (rq\<lparr>rq_topo := ts\<rparr>) = ok_so_far rq"
  "ok_so_far (rq\<lparr>rq_writes := ws\<rparr>) = ok_so_far rq" "ok_so_far (rq\<lparr>rq_n := n\<rparr>) = ok_so_far rq"
  by (simp_all add: ok_so_far_def contact_def set_dds_def)

lemma session_keeps_dds [simp]: "session_keeps E s (s\<lparr>s_ddsSession := d\<rparr>)"
  by (rule session_keeps_fields) simp_all

section \<open>The steps that talk to DDS\<close>

lemma request_step_intro:
  assumes "\<And>rq ok rq'. step rq = Some (ok, rq') \<Longrightarrow> (ok_so_far rq \<longrightarrow> (ok \<longleftrightarrow> ok_so_far rq')) \<and> req_keeps E rq rq'"
  shows "request_step E step"
  using assms by unfold_locales blast+

lemma createDDSSession_step: "request_step E (createDDSSession E c common)"
  by (rule request_step_intro)
    (auto simp: createDDSSession_def Let_def split: prod.splits option.splits)

lemma attachToDDSSession_step: "request_step E (attachToDDSSession E sessionID)"
  by (rule request_step_intro)
    (auto simp: attachToDDSSession_def Let_def split: prod.splits option.splits)

lemma session_keeps_clear: "session_keeps E s (clear_session s)"
  by (rule session_keeps_no_topology) (simp_all add: clear_session_def)

lemma shutdownDDSSession_step: "request_step E (shutdownDDSSession E)"
proof (rule request_step_intro)
  fix rq ok rq' assume "shutdownDDSSession E rq = Some (ok, rq')"
  moreover have "session_keeps E (rq_session rq) ((clear_session (rq_session rq))\<lparr>s_ddsSession := d\<rparr>)" for d
    by (rule session_keeps_trans [OF session_keeps_clear session_keeps_dds])
  ultimately show "(ok_so_far rq \<longrightarrow> (ok \<longleftrightarrow> ok_so_far rq')) \<and> req_keeps E rq rq'"
    by (auto simp: shutdownDDSSession_def Let_def session_keeps_clear split: prod.splits option.splits if_splits)
qed

lemma activate_response_keeps: "session_keeps E s (activate_response res s)"
  by (rule session_keeps_fields)
    (auto simp: activate_response_def addTaskDetails_def addCollectionDetails_def Let_def)

lemma activate_events_spec:
  "activate_events es (b, rq) = (b', rq') \<Longrightarrow>
     (ok_so_far rq = b \<longrightarrow> ok_so_far rq' = b') \<and> req_keeps E rq rq'"
proof (induction es arbitrary: b rq)
  case (Cons e es)
  show ?case
  proof (cases e)
    case (ActMessage is_error msg)
    define rq1 where "rq1 = (if is_error then fillAndLogError DDSActivateTopologyFailed (''DDS Activate error: '' @ msg) rq else rq)"
    have "activate_events es (b \<and> \<not> is_error, rq1) = (b', rq')"
      using Cons.prems ActMessage by (cases is_error) (simp_all add: rq1_def)
    from Cons.IH [OF this] show ?thesis by (cases is_error) (auto simp: rq1_def)
  next
    case (ActResponse res)
    with Cons.prems have "activate_events es (b, rq\<lparr>rq_session := activate_response res (rq_session rq)\<rparr>) = (b', rq')" by simp
    from Cons.IH [OF this] show ?thesis
      using activate_response_keeps [of E "rq_session rq" res] by (auto intro: session_keeps_trans)
  qed
qed simp

lemma activateDDSTopology_step: "request_step E (activateDDSTopology E c common updateType)"
proof (rule request_step_intro)
  fix rq ok rq' assume a: "activateDDSTopology E c common updateType rq = Some (ok, rq')"
  obtain d es timed_out where d: "dds_activate E (rq_n rq) (s_topoFilePath (rq_session rq)) updateType
      (requestTimeout E c common (rq_n rq)) (s_ddsSession (rq_session rq)) = (d, es, timed_out)" by (metis prod_cases3)
  obtain b rq1 where b: "activate_events es (True, contact (set_dds d rq)) = (b, rq1)" by fastforce
  have "req_keeps E rq rq1"
    using activate_events_spec [OF b, of E] session_keeps_trans [OF session_keeps_dds [of E "rq_session rq" d]] by simp
  moreover have "ok_so_far rq \<longrightarrow> ok_so_far rq1 = b" using activate_events_spec [OF b, of E] by simp
  ultimately show "(ok_so_far rq \<longrightarrow> (ok \<longleftrightarrow> ok_so_far rq')) \<and> req_keeps E rq rq'"
    using a by (auto simp: activateDDSTopology_def d b split: if_splits)
qed


text \<open>The two steps that replace the topology are consistent together only.\<close>

lemma tp_new_tasks:
  assumes "ct_ok ct"
  shows "topology_of ct (tp_new (dds_topo.truncate ct) X ci)"
proof -
  have t: "rt_tasks (dds_topo.truncate ct) = rt_tasks ct" by (simp add: dds_topo.truncate_def)
  have "init_devices X (rt_tasks ct) 0 ([], []) =
      (map (\<lambda>(i, c). new_DeviceStatus (i \<in> X) i c) (rt_tasks ct), zip (map fst (rt_tasks ct)) [0..<length (rt_tasks ct)])"
    using assms init_devices_spec [of "rt_tasks ct" "[]" X 0 "[]"] by (simp add: ct_ok_def)
  then have "map ds_taskId (tp_stateData (tp_new (dds_topo.truncate ct) X ci)) = map fst (rt_tasks ct)"
    by (simp add: tp_new_def t SubscribeToStateChanges_def tp_send_def new_DeviceStatus_def comp_def split_def)
  moreover have "topo_wf (tp_new (dds_topo.truncate ct) X ci)"
    using assms by (intro tp_new_wf) (simp_all add: t ct_ok_def)
  ultimately show ?thesis by (simp add: topology_of_def)
qed

lemma createTopologies_step: "request_step E (and_then (createDDSTopology E) (createTopology E))"
proof (rule request_step_intro)
  fix rq ok rq' assume a: "and_then (createDDSTopology E) (createTopology E) rq = Some (ok, rq')"
  let ?s = "rq_session rq"
  show "(ok_so_far rq \<longrightarrow> (ok \<longleftrightarrow> ok_so_far rq')) \<and> req_keeps E rq rq'"
  proof (cases "en_loadTopology E (s_topoFilePath ?s)")
    case (Inl e)
    then show ?thesis using a by (auto simp: and_then_def createDDSTopology_def)
  next
    case (Inr ct)
    let ?rq1 = "rq\<lparr>rq_session := ?s\<lparr>s_ddsTopo := Some ct\<rparr>\<rparr>"
    from a Inr have c: "createTopology E ?rq1 = Some (ok, rq')" by (simp add: and_then_def createDDSTopology_def)
    have ct: "ct_ok ct" if "env_ok E" using that Inr by (auto simp: env_ok_def)
    show ?thesis
    proof (cases "dds_topologyError E (rq_n rq) (s_ddsSession ?s)")
      case None
      with c have "ok" "ok_so_far rq' = ok_so_far rq" "rq_session rq' = ?s\<lparr>s_ddsTopo := Some ct,
          s_topology := Some (tp_new (dds_topo.truncate ct) (s_expendableTasks ?s) (s_collections ?s))\<rparr>"
        by (auto simp: createTopology_def Let_def)
      with ct tp_new_tasks show ?thesis by (auto simp: session_keeps_def session_ok_def)
    next
      case (Some e)
      with c have "\<not> ok" "\<not> ok_so_far rq'" "rq_session rq' = ?s\<lparr>s_ddsTopo := Some ct, s_topology := None\<rparr>"
        by (auto simp: createTopology_def Let_def)
      with ct show ?thesis by (auto simp: session_keeps_def session_ok_def)
    qed
  qed
qed

lemma resetTopology_step: "request_step E resetTopology"
  by (rule request_step_intro) (auto simp: resetTopology_def intro: session_keeps_no_topology)

section \<open>The steps that act on the devices\<close>

lemma await_ok: "topo_step_ok tp (fst (await dds watch es tp))"
proof (induction es arbitrary: tp)
  case Nil
  then show ?case by (cases "watch tp") (simp_all add: await_step)
next
  case (Cons e es)
  show ?case
  proof (cases "watch tp")
    case None
    have "topo_step_ok tp (fst (await dds watch es (fst (topo_step dds e tp))))"
      using topo_step_step_ok Cons by (rule topo_step_ok_trans)
    with None show ?thesis by (simp add: await_step)
  qed (simp add: await_step)
qed

lemma block_on_ok: "topo_step_ok tp (fst st) \<Longrightarrow> topo_step_ok tp (fst (block_on dds watch es st))"
proof (cases st)
  case (Pair tp' e)
  assume "topo_step_ok tp (fst st)"
  then have "topo_step_ok tp (fst (await dds watch es tp'))"
    by (intro topo_step_ok_trans [OF _ await_ok]) (simp add: Pair)
  with \<open>topo_step_ok tp (fst st)\<close> show ?thesis
    by (auto simp: block_on_def Pair split: option.split prod.split)
qed

lemma tp_calls_ok:
  "topo_step_ok tp (fst (tp_ChangeState dds i tr path timeout es tp))"
  "topo_step_ok tp (fst (tp_WaitForState dds i l s path timeout es tp))"
  "topo_step_ok tp (fst (tp_SetProperties dds i props path timeout es tp))"
  unfolding tp_ChangeState_def tp_WaitForState_def tp_SetProperties_def by (intro block_on_ok topo_ok)+

lemma topology_of_step:
  assumes "topo_step_ok tp tp'" "topology_of ct tp"
  shows "topology_of ct tp'"
proof -
  from assms have wf: "topo_wf tp'" and l: "list_all2 dev_evolves (tp_stateData tp) (tp_stateData tp')"
    by (auto simp: topo_step_ok_def topology_of_def evolves_def)
  from l have "map ds_taskId (tp_stateData tp') = map ds_taskId (tp_stateData tp)"
    by (auto simp: list_all2_conv_all_nth dev_evolves_def intro!: nth_equalityI)
  with wf assms(2) show ?thesis by (simp add: topology_of_def)
qed

lemma call_topology_keeps:
  assumes "\<And>i t es tp0. topo_step_ok tp0 (fst (f i t es tp0))" "s_topology (rq_session rq) = Some tp"
    and "call_topology E c common f tp rq = Some (r, rq')"
  shows "req_keeps E rq rq'" "rq_error rq' = rq_error rq" "rq_topo rq' = rq_topo rq" "s_topology (rq_session rq') \<noteq> None"
proof -
  let ?s = "rq_session rq"
  obtain tp1 r1 where f: "f (en_uuidHash E (rq_n rq)) (requestTimeout E c common (rq_n rq)) (en_during E (rq_n rq))
      (tp\<lparr>tp_collectionInfo := s_collections ?s\<rparr>) = (tp1, r1)" by fastforce
  have rq': "rq' = (contact rq)\<lparr>rq_session := ?s\<lparr>s_topology := Some tp1, s_collections := tp_collectionInfo tp1\<rparr>\<rparr>"
    using assms(3) by (auto simp: call_topology_def use_topology_def Let_def f)
  have "topo_step_ok tp tp1"
    using topo_step_ok_trans [OF topo_step_ok_other(4) assms(1)] f by (metis fst_conv)
  then have "topology_of ct tp \<Longrightarrow> topology_of ct tp1" for ct by (rule topology_of_step)
  with assms(2) show "req_keeps E rq rq'" by (auto simp: rq' session_keeps_def session_ok_def)
  show "rq_error rq' = rq_error rq" "rq_topo rq' = rq_topo rq" "s_topology (rq_session rq') \<noteq> None"
    by (simp_all add: rq' contact_def)
qed

lemma changeState_failed_simps [simp]:
  "\<not> ok_so_far (changeState_failed E tr ec rq)" "rq_session (changeState_failed E tr ec rq) = rq_session rq"
  "rq_topo (changeState_failed E tr ec rq) = rq_topo rq"
  by (simp_all add: changeState_failed_def)

lemma ok_so_far_error: "rq_error rq' = rq_error rq \<Longrightarrow> ok_so_far rq' = ok_so_far rq"
  by (simp add: ok_so_far_def)

lemma changeState_step: "request_step E (changeState E c common path tr)"
proof (rule request_step_intro)
  fix rq ok rq' assume a: "changeState E c common path tr rq = Some (ok, rq')"
  let ?f = "\<lambda>i timeout. tp_ChangeState (session_dds (rq_session rq)) i tr path timeout"
  show "(ok_so_far rq \<longrightarrow> (ok \<longleftrightarrow> ok_so_far rq')) \<and> req_keeps E rq rq'"
  proof (cases "s_topology (rq_session rq) = None \<or> gExpectedState tr = None")
    case True
    with a show ?thesis by (auto simp: changeState_def split: option.splits)
  next
    case False
    then obtain tp where tp: "s_topology (rq_session rq) = Some tp" by auto
    with a False obtain r rq1 where r: "call_topology E c common ?f tp rq = Some (r, rq1)"
      by (auto simp: changeState_def split: option.splits)
    note k = call_topology_keeps [OF _ tp r] tp_calls_ok(1)
    show ?thesis
      using a False tp r k ok_so_far_error [of rq1 rq]
      by (cases r) (auto simp: changeState_def Let_def split: option.splits)
  qed
qed

lemma waitForState_step: "request_step E (waitForState E c common path st)"
proof (rule request_step_intro)
  fix rq ok rq' assume a: "waitForState E c common path st rq = Some (ok, rq')"
  let ?f = "\<lambda>i timeout. tp_WaitForState (session_dds (rq_session rq)) i Undefined st path timeout"
  show "(ok_so_far rq \<longrightarrow> (ok \<longleftrightarrow> ok_so_far rq')) \<and> req_keeps E rq rq'"
  proof (cases "s_topology (rq_session rq)")
    case None
    with a show ?thesis by (auto simp: waitForState_def)
  next
    case (Some tp)
    with a obtain r rq1 where r: "call_topology E c common ?f tp rq = Some (r, rq1)"
      by (auto simp: waitForState_def split: option.splits)
    note k = call_topology_keeps [OF _ Some r] tp_calls_ok(2)
    show ?thesis
      using a Some r k ok_so_far_error [of rq1 rq]
      by (auto simp: waitForState_def split: option.splits sum.splits if_splits)
  qed
qed

lemma setProperties_step: "request_step E (setProperties E c common path props)"
proof (rule request_step_intro)
  fix rq ok rq' assume a: "setProperties E c common path props rq = Some (ok, rq')"
  let ?f = "\<lambda>i timeout. tp_SetProperties (session_dds (rq_session rq)) i props path timeout"
  show "(ok_so_far rq \<longrightarrow> (ok \<longleftrightarrow> ok_so_far rq')) \<and> req_keeps E rq rq'"
  proof (cases "s_topology (rq_session rq)")
    case None
    with a show ?thesis by (auto simp: setProperties_def)
  next
    case (Some tp)
    with a obtain r rq1 where r: "call_topology E c common ?f tp rq = Some (r, rq1)"
      by (auto simp: setProperties_def split: option.splits)
    note k = call_topology_keeps [OF _ Some r] tp_calls_ok(3)
    show ?thesis
      using a Some r k
      by (auto simp: setProperties_def Let_def split: option.splits sum.splits if_splits)
  qed
qed

interpretation create_session: request_step E "createDDSSession E c common" for E c common
  by (rule createDDSSession_step)
interpretation shutdown_session: request_step E "shutdownDDSSession E" for E
  by (rule shutdownDDSSession_step)
interpretation activation: request_step E "activateDDSTopology E c common updateType" for E c common updateType
  by (rule activateDDSTopology_step)
interpretation change_state: request_step E "changeState E c common path tr" for E c common path tr
  by (rule changeState_step)
interpretation wait_for_state: request_step E "waitForState E c common path st" for E c common path st
  by (rule waitForState_step)
interpretation set_properties: request_step E "setProperties E c common path props" for E c common path props
  by (rule setProperties_step)

text \<open>The chains of the requests.\<close>

interpretation restart: request_step E "and_then (shutdownDDSSession E) (createDDSSession E c common)" for E c common
  by (intro request_step_and_then shutdownDDSSession_step createDDSSession_step)
interpretation configure: request_step E "changeStateConfigure E c common path" for E c common path
  unfolding changeStateConfigure_def by (intro request_step_and_then changeState_step)
interpretation reset: request_step E "changeStateReset E c common path" for E c common path
  unfolding changeStateReset_def by (intro request_step_and_then changeState_step)

lemma activate_step: "request_step E (activate E c common)"
  unfolding activate_def and_then_assoc [symmetric, of "createDDSTopology E"]
  by (intro request_step_and_then activateDDSTopology_step createTopologies_step waitForState_step)

interpretation activate: request_step E "activate E c common" for E c common
  by (rule activate_step)

lemma update_step: "request_step E (update_steps E c common)"
  unfolding update_steps_def and_then_assoc [symmetric, of "createDDSTopology E"]
  by (intro request_step_and_then reset.request_step_axioms resetTopology_step activateDDSTopology_step
      createTopologies_step waitForState_step configure.request_step_axioms)

interpretation update: request_step E "update_steps E c common" for E c common
  by (rule update_step)

section \<open>Submission and loading\<close>

lemma submit_messages_spec:
  "submit_messages ms (b, rq) = (b', rq') \<Longrightarrow>
     rq_session rq' = rq_session rq \<and> (ok_so_far rq = b \<longrightarrow> ok_so_far rq' = b')"
proof (induction ms arbitrary: b rq)
  case (Cons m ms)
  obtain is_error msg where m: "m = (is_error, msg)" by (cases m)
  show ?case using Cons by (cases is_error) (auto simp: m)
qed simp

lemma submitDDSAgents_spec:
  assumes "submitDDSAgents E c common p rq = (b, rq')"
  shows "req_keeps E rq rq'" "ok_so_far rq \<Longrightarrow> ok_so_far rq' = b" "s_totalSlots (rq_session rq') = s_totalSlots (rq_session rq)"
proof -
  obtain d msgs timed_out where d: "dds_submit E (rq_n rq) (submit_request common p)
      (requestTimeout E c common (rq_n rq)) (s_ddsSession (rq_session rq)) = (d, msgs, timed_out)" by (metis prod_cases3)
  obtain b1 rq1 where b: "submit_messages msgs (True, contact (set_dds d rq)) = (b1, rq1)" by fastforce
  note s = submit_messages_spec [OF b]
  show "req_keeps E rq rq'" "ok_so_far rq \<Longrightarrow> ok_so_far rq' = b" "s_totalSlots (rq_session rq') = s_totalSlots (rq_session rq)"
    using assms s by (auto simp: submitDDSAgents_def d b split: if_splits)
qed

lemma submit_all_keeps: "submit_all E c common ps n rq = (n', rq') \<Longrightarrow> req_keeps E rq rq'"
proof (induction ps arbitrary: n rq)
  case (Cons p ps)
  obtain b rq1 where b: "submitDDSAgents E c common p rq = (b, rq1)" by fastforce
  show ?case
    using Cons b submitDDSAgents_spec(1) [OF b, of] by (cases b) (auto intro: session_keeps_trans)
qed simp

lemma waitForNumActiveSlots_spec:
  assumes "waitForNumActiveSlots E c common n rq = (b, rq')"
  shows "req_keeps E rq rq'" "ok_so_far rq \<Longrightarrow> ok_so_far rq' = b"
  using assms by (auto simp: waitForNumActiveSlots_def Let_def split: prod.splits option.splits)

lemma session_keeps_slots: "session_keeps E s (s\<lparr>s_totalSlots := n\<rparr>)"
  by (rule session_keeps_fields) simp_all

lemma submit_agents_keeps: "req_keeps E rq (submit_agents E c common ps rq)"
proof (cases "ok_so_far rq")
  case True
  obtain n rq1 where a: "submit_all E c common ps (s_totalSlots (rq_session rq)) rq = (n, rq1)" by fastforce
  obtain b rq2 where b: "waitForNumActiveSlots E c common n rq1 = (b, rq2)" by fastforce
  note 1 = submit_all_keeps [OF a, of]
  note 2 = session_keeps_trans [OF 1 waitForNumActiveSlots_spec(1) [OF b]]
  note 3 = session_keeps_trans [OF 2 session_keeps_slots]
  show ?thesis using 1 2 3 True by (cases b) (simp_all add: submit_agents_def a b)
qed (simp add: submit_agents_def)

lemma agent_loop_keeps: "agent_loop as (counts, s) = (counts', s') \<Longrightarrow> session_keeps E s s'"
proof (induction as arbitrary: counts s)
  case (Cons a as)
  then have "session_keeps E (s\<lparr>s_agentSlots := AList.update (ai_agentID a) (ai_nSlots a) (s_agentSlots s)\<rparr>) s'" by auto
  show ?case by (rule session_keeps_trans [OF session_keeps_fields \<open>session_keeps E _ s'\<close>]) simp_all
qed simp

lemma updateTopology_keeps: "updateTopology E common rq = (e, rq') \<Longrightarrow> req_keeps E rq rq'"
  by (auto simp: updateTopology_def Let_def split: sum.splits option.splits intro: session_keeps_fields)

lemma attemptSubmitRecovery_keeps: "req_keeps E rq (attemptSubmitRecovery E c common ps counts rq)"
proof -
  let ?s = "rq_session rq"
  let ?rq1 = "\<lambda>n. (contact (rq\<lparr>rq_error := no_error\<rparr>))\<lparr>rq_session :=
      ?s\<lparr>s_totalSlots := ucast n, s_nInfo := current_counts counts (s_nInfo ?s)\<rparr>\<rparr>"
  have 1: "req_keeps E rq (?rq1 n)" for n :: u32 by (rule session_keeps_fields) simp_all
  have "req_keeps E rq rq2" if "updateTopology E common (?rq1 n) = (e, rq2)" for n :: u32 and e rq2
    using 1 [of n] updateTopology_keeps [OF that] by (rule session_keeps_trans)
  then show ?thesis
    by (auto simp: attemptSubmitRecovery_def Let_def split: sum.split option.split prod.split)
qed

lemma submit_report_keeps:
  assumes "submit_report E c common ps rq = (hosts, rq')"
  shows "req_keeps E rq rq'"
proof (cases "dds_IsRunning E (s_ddsSession (rq_session rq))")
  case True
  let ?zero = "fold (\<lambda>p. smap_set (su_agentGroup p) 0) ps []"
  have r: "req_keeps E rq (if ok_so_far rq1 then rq1 else attemptSubmitRecovery E c common ps counts rq1)"
    if "req_keeps E rq rq1" for rq1 counts
    using session_keeps_trans [OF that attemptSubmitRecovery_keeps [of E rq1 c common ps counts]] that by simp
  show ?thesis
  proof (cases "dds_agentInfo E (rq_n rq) (requestTimeout E c common (rq_n rq)) (s_ddsSession (rq_session rq))")
    case (Inl e)
    show ?thesis
      using assms True r [of "fillAndLogError DDSCommanderInfoFailed (''Failed getting agent info: '' @ what e) (contact rq)" ?zero]
      by (simp add: submit_report_def Inl)
  next
    case (Inr agents)
    obtain counts s where a: "agent_loop agents (?zero, rq_session rq) = (counts, s)" by fastforce
    show ?thesis
      using assms True r [of "(contact rq)\<lparr>rq_session := s\<rparr>" counts] agent_loop_keeps [OF a, of E]
      by (simp add: submit_report_def Inr a)
  qed
qed (use assms in \<open>simp add: submit_report_def\<close>)

lemma submit_keeps: "submit E c common plugin res x rq = (hosts, rq') \<Longrightarrow> req_keeps E rq rq'"
  using submit_agents_keeps [of E "contact rq" c common]
  by (auto simp: submit_def split: if_splits sum.splits dest!: submit_report_keeps intro: session_keeps_trans)


lemma write_topology_keeps: "write_topology E content rq = (r, rq') \<Longrightarrow> rq_session rq' = rq_session rq \<and> rq_error rq' = rq_error rq"
  by (auto simp: write_topology_def Let_def contact_def split: sum.splits if_splits)

lemma topoFilepath_keeps:
  "topoFilepath E c common f t sc rq = (r, rq') \<Longrightarrow> rq_session rq' = rq_session rq \<and> rq_error rq' = rq_error rq"
  by (auto simp: topoFilepath_def Let_def contact_def split: if_splits sum.splits prod.splits dest!: write_topology_keeps)

lemma extract_collections_fields:
  "extract_collections cs s = (s', e) \<Longrightarrow> s_partitionID s' = s_partitionID s \<and> s_runAttempted s' = s_runAttempted s \<and>
     s_ddsTopo s' = s_ddsTopo s \<and> s_topology s' = s_topology s"
proof (induction cs arbitrary: s)
  case (Cons c cs)
  have "s_partitionID (add_collection c r s) = s_partitionID s \<and> s_runAttempted (add_collection c r s) = s_runAttempted s \<and>
     s_ddsTopo (add_collection c r s) = s_ddsTopo s \<and> s_topology (add_collection c r s) = s_topology s" for r
    by (simp add: add_collection_def Let_def)
  with Cons show ?case by (fastforce split: sum.splits)
qed simp

lemma extractRequirements_keeps: "extractRequirements load s = (s', e) \<Longrightarrow> session_keeps E s s'"
  by (rule session_keeps_fields)
    (auto simp: extractRequirements_def clear_requirements_def Let_def split: sum.splits dest!: extract_collections_fields)

lemma load_topology_keeps: "req_keeps E rq (load_topology E c common prefix f t sc rq)"
proof -
  obtain r rq1 where r: "topoFilepath E c common f t sc rq = (r, rq1)" by fastforce
  note k = topoFilepath_keeps [OF r]
  have "session_keeps E (rq_session rq) s'"
    if "extractRequirements (en_loadTopology E) ((rq_session rq1)\<lparr>s_topoFilePath := path\<rparr>) = (s', e)" for path s' e
    by (rule session_keeps_trans [OF session_keeps_fields extractRequirements_keeps [OF that]]) (simp_all add: k)
  with k show ?thesis by (auto simp: load_topology_def r split: sum.split prod.split option.split)
qed

lemma require_running_keeps [simp]: "rq_session (require_running E ec rq) = rq_session rq"
  by (simp add: require_running_def)

lemma initialize_step: "request_step E (initialize_steps E c common params)"
proof (rule request_step_intro)
  fix rq ok rq' assume a: "initialize_steps E c common params rq = Some (ok, rq')"
  have mid: "session_keeps E (rq_session rq1) ((rq_session rq2)\<lparr>s_topoFilePath := path\<rparr>)"
    if "getActiveDDSTopology E c common rq1 = (path, rq2)" for rq1 rq2 path
    using that by (intro session_keeps_fields) (auto simp: getActiveDDSTopology_def split: sum.splits)
  have err: "ok_so_far rq2 = ok_so_far rq1"
    if "getActiveDDSTopology E c common rq1 = (path, rq2)" "path \<noteq> []" for rq1 rq2 path
    using that by (auto simp: getActiveDDSTopology_def split: sum.splits)
  show "(ok_so_far rq \<longrightarrow> (ok \<longleftrightarrow> ok_so_far rq')) \<and> req_keeps E rq rq'"
  proof (cases "ip_ddsSessionID params = []")
    case True
    with a have "and_then (shutdownDDSSession E) (createDDSSession E c common) rq = Some (ok, rq')"
      by (simp add: initialize_steps_def)
    from restart.reports [OF _ this] restart.keeps [OF this] show ?thesis by blast
  next
    case False
    obtain b rq1 where at: "attachToDDSSession E (ip_ddsSessionID params) rq = Some (b, rq1)"
      using a False by (auto simp: initialize_steps_def split: option.splits)
    note at' = request_step.reports [OF attachToDDSSession_step _ at] request_step.keeps [OF attachToDDSSession_step at]
    obtain path rq2 where g: "getActiveDDSTopology E c common rq1 = (path, rq2)" by fastforce
    let ?rq3 = "rq2\<lparr>rq_session := (rq_session rq2)\<lparr>s_topoFilePath := path\<rparr>\<rparr>"
    have k3: "req_keeps E rq ?rq3" using session_keeps_trans [OF at'(2) mid [OF g]] by simp
    show ?thesis
    proof (cases "b \<and> path \<noteq> []")
      case True
      with a False at g have c: "and_then (createDDSTopology E) (createTopology E) ?rq3 = Some (ok, rq')"
        by (simp add: initialize_steps_def)
      note c' = request_step.reports [OF createTopologies_step _ c] request_step.keeps [OF createTopologies_step c]
      show ?thesis using session_keeps_trans [OF k3 c'(2)] c'(1) at'(1) err [OF g] True by simp
    next
      case nb: False
      with a False at g at' k3 show ?thesis by (cases b) (auto simp: initialize_steps_def)
    qed
  qed
qed


section \<open>Requests\<close>

text \<open>The session a request starts from.\<close>

definition session_of :: "('d, 'p) env \<Rightarrow> string \<Rightarrow> 'd world \<Rightarrow> 'd session" where
  "session_of E pid w =
     (case map_of (c_sessions (w_ctl w)) pid of Some s \<Rightarrow> s | None \<Rightarrow> new_session (dds_init E) pid)"

lemma begin_session [simp]: "rq_session (begin_request E pid ts w) = session_of E pid w"
  by (simp add: begin_request_def acquireSession_def session_of_def Let_def split: option.split)

lemma begin_ok [simp]: "ok_so_far (begin_request E pid ts w)"
  by (simp add: begin_request_def ok_so_far_def)

lemma end_ctl [simp]: "w_ctl (end_request pid rq w) = put_session pid (rq_session rq) (w_ctl w)"
  by (simp add: end_request_def)

lemma finish_ctl:
  "finish E common msg w r = Some (res, w') \<Longrightarrow>
     \<exists>ok rq. r = Some (ok, rq) \<and> w_ctl w' = put_session (cp_partitionID common) (rq_session rq) (w_ctl w)"
  by (auto simp: finish_def)

lemma restore_now_session [simp]: "rq_session (restore_now E pid w rq) = rq_session rq" "ok_so_far (restore_now E pid w rq) = ok_so_far rq"
  by (simp_all add: restore_now_def)

lemma remove_put: "removeSession pid (put_session pid s c) = removeSession pid c"
proof -
  have "smap_erase pid (smap_set pid s m) = smap_erase pid m" for m
    by (induction pid s m rule: smap_set.induct) (auto simp: smap_erase_def)
  then show ?thesis by (simp add: removeSession_def put_session_def)
qed

lemma getState_session: "getState path rq = (b, rq') \<Longrightarrow> rq_session rq' = rq_session rq"
  by (auto simp: getState_def Let_def split: option.splits sum.splits prod.splits)

lemma set_runNr_keeps [simp]: "session_keeps E s (s\<lparr>s_lastRunNr := r\<rparr>)"
  by (rule session_keeps_fields) simp_all

lemma run_steps_keeps:
  assumes "run_steps E c common params rq = Some (hosts, rq')"
  shows "req_keeps E rq rq'"
proof -
  define rq1 where "rq1 = load_topology E c common ''Incorrect topology provided: '' (rp_topoFile params)
      (rp_topoContent params) (rp_topoScript params) rq"
  have 1: "req_keeps E rq rq1" unfolding rq1_def by (rule load_topology_keeps)
  obtain h rq2 where s: "submit E c common (rp_plugin params) (rp_resources params) (rp_extractTopoResources params)
      (require_running E DDSSubmitAgentsFailed rq1) = (h, rq2)" by fastforce
  have "req_keeps E rq1 rq2" using submit_keeps [OF s] by simp
  with 1 have 2: "req_keeps E rq rq2" by (rule session_keeps_trans)
  have "req_keeps E rq rq3" if "activate E c common (require_running E DDSActivateTopologyFailed rq2) = Some (ok, rq3)" for ok rq3
    using session_keeps_trans [OF 2, of "rq_session rq3"] activate.keeps [OF that] by simp
  with 1 2 assms show ?thesis
    by (auto simp: run_steps_def Let_def rq1_def [symmetric] s split: if_splits)
qed

text \<open>Every request replaces the session of its partition, or removes it, and touches nothing else.\<close>

definition request_effect :: "('d, 'p) env \<Rightarrow> request \<Rightarrow> 'd session \<Rightarrow> 'd session \<Rightarrow> bool" where
  "request_effect E r s s' \<longleftrightarrow>
     (case r of ReqRun _ \<Rightarrow> session_keeps E (s\<lparr>s_runAttempted := True\<rparr>) s' | _ \<Rightarrow> session_keeps E s s')"

lemma execRun_effect:
  assumes "execRun E common p w = Some (res, w')"
  shows "\<exists>s'. session_keeps E ((session_of E (cp_partitionID common) w)\<lparr>s_runAttempted := True\<rparr>) s' \<and>
    w_ctl w' = put_session (cp_partitionID common) s' (w_ctl w)"
proof -
  let ?s = "session_of E (cp_partitionID common) w"
  let ?rq = "begin_request E (cp_partitionID common) default_TopologyState w"
  let ?rq0 = "?rq\<lparr>rq_session := (rq_session ?rq)\<lparr>s_runAttempted := True\<rparr>\<rparr>"
  show ?thesis
  proof (cases "s_runAttempted ?s")
    case True
    then have "session_keeps E (?s\<lparr>s_runAttempted := True\<rparr>) ?s" by (intro session_keeps_fields) simp_all
    with True assms show ?thesis by (auto simp: execRun_def Let_def)
  next
    case False
    then obtain ok rq1 where r: "and_then (shutdownDDSSession E) (createDDSSession E (w_ctl w) common) ?rq0 = Some (ok, rq1)"
      using assms by (auto simp: execRun_def Let_def split: option.splits)
    note 1 = restart.keeps [OF r]
    have "session_keeps E (rq_session ?rq0) (rq_session rq2)"
      if "run_steps E (w_ctl w) common p (restore_now E (cp_partitionID common) w rq1) = Some (h, rq2)" for h rq2
      using session_keeps_trans [OF 1, of "rq_session rq2"] run_steps_keeps [OF that] by simp
    with False assms r 1 show ?thesis by (auto simp: execRun_def Let_def split: if_splits)
  qed
qed

lemma exec_effect:
  assumes "exec E common r w = Some (res, w')"
  shows "if r = ReqShutdown then w_ctl w' = removeSession (cp_partitionID common) (w_ctl w)
    else \<exists>s'. request_effect E r (session_of E (cp_partitionID common) w) s' \<and>
      w_ctl w' = put_session (cp_partitionID common) s' (w_ctl w)"
proof (cases r)
  case (ReqRun p)
  with assms execRun_effect show ?thesis by (force simp: request_effect_def)
next
  case ReqShutdown
  with assms show ?thesis by (auto simp: execShutdown_def Let_def remove_put)
next
  case (ReqInitialize p)
  with assms show ?thesis
    by (auto simp: request_effect_def execInitialize_def Let_def dest!: finish_ctl request_step.keeps [OF initialize_step])
next
  case (ReqSubmit p)
  with assms show ?thesis
    by (auto simp: request_effect_def execSubmit_def Let_def split: prod.splits dest!: submit_keeps)
next
  case (ReqActivate p)
  let ?rq = "load_topology E (w_ctl w) common '''' (ap_topoFile p) (ap_topoContent p) (ap_topoScript p)
     (require_running E DDSActivateTopologyFailed (begin_request E (cp_partitionID common) default_TopologyState w))"
  have "session_keeps E (session_of E (cp_partitionID common) w) (rq_session ?rq)"
    using load_topology_keeps [of E "require_running E DDSActivateTopologyFailed
      (begin_request E (cp_partitionID common) default_TopologyState w)"] by simp
  then show ?thesis using assms ReqActivate
    by (auto simp: request_effect_def execActivate_def Let_def split: if_splits dest!: finish_ctl activate.keeps
        intro: session_keeps_trans)
next
  case (ReqUpdate p)
  let ?rq = "load_topology E (w_ctl w) common ''Incorrect topology provided: '' (up_topoFile p) (up_topoContent p) (up_topoScript p)
     (begin_request E (cp_partitionID common) default_TopologyState w)"
  have "session_keeps E (session_of E (cp_partitionID common) w) (rq_session ?rq)"
    using load_topology_keeps [of E "begin_request E (cp_partitionID common) default_TopologyState w"] by simp
  then show ?thesis using assms ReqUpdate
    by (auto simp: request_effect_def execUpdate_def Let_def split: if_splits dest!: finish_ctl update.keeps
        intro: session_keeps_trans)
next
  case (ReqSetProperties p)
  with assms show ?thesis
    by (auto simp: request_effect_def execSetProperties_def dest!: finish_ctl set_properties.keeps)
next
  case (ReqGetState p)
  with assms show ?thesis
    by (auto simp: request_effect_def execGetState_def dest!: finish_ctl getState_session)
next
  case (ReqConfigure p)
  with assms show ?thesis
    by (auto simp: request_effect_def execConfigure_def dest!: finish_ctl configure.keeps)
next
  case (ReqStart p)
  with assms show ?thesis
    by (auto simp: request_effect_def execStart_def set_runNr_def
        dest!: finish_ctl change_state.keeps session_keeps_trans [OF set_runNr_keeps])
next
  case (ReqStop p)
  with assms show ?thesis
    by (auto simp: request_effect_def execStop_def set_runNr_def
        dest!: finish_ctl session_keeps_trans [OF change_state.keeps set_runNr_keeps [where r = 0]])
next
  case (ReqReset p)
  with assms show ?thesis
    by (auto simp: request_effect_def execReset_def dest!: finish_ctl reset.keeps)
next
  case (ReqTerminate p)
  with assms show ?thesis
    by (auto simp: request_effect_def execTerminate_def dest!: finish_ctl change_state.keeps)
qed

end
