(* ===== verification/Controller_Samples.thy ===== *)
theory Controller_Samples
  imports Controller_Contract
begin

text \<open>
  A concrete environment for the witnesses of the controller's properties: the state of the DDS session is
  its id, every topology has one task, and while the controller waits the task reports all the states
  of a configuration.
\<close>

definition sample_topology :: ctopology where
  "sample_topology = \<lparr>rt_tasks = [(1, 0)], rt_matching = (\<lambda>_. Inr [(1, 0)]),
     rt_collectionName = (\<lambda>_. Inl (RuntimeError ''none'')), ct_runtimeTask = (\<lambda>_. Inr 1),
     ct_runtimeRequirements = [], ct_tasks = [], ct_collections = []\<rparr>"

definition sample_reports :: "topo_event list" where
  "sample_reports = map (\<lambda>st. EvCommands [StateChange
     \<lparr>sc_deviceId = [], sc_taskId = 1, sc_lastState = Undefined, sc_currentState = st\<rparr>])
     [Idle, InitializingDevice, Initialized, Bound, DeviceReady, Ready]"

definition sample_env :: "(string, unit) env" where
  "sample_env = \<lparr>en_elapsed = (\<lambda>_. 0), en_uuidHash = of_nat, en_during = (\<lambda>_. sample_reports), en_order = (\<lambda>_. []),
     en_StateName = (\<lambda>_. ''state''), en_TransitionName = (\<lambda>_. ''transition''), dds_init = nil_uuid,
     dds_IsRunning = (\<lambda>d. d \<noteq> nil_uuid), dds_sessionID = (\<lambda>d. d), dds_create = (\<lambda>_ _. (''session'', None)),
     dds_attach = (\<lambda>_ s _. (s, None)), dds_shutdown = (\<lambda>_ _. (nil_uuid, None)),
     dds_commanderInfo = (\<lambda>_ _ _. Inr ''topo.xml''), dds_submit = (\<lambda>_ _ _ d. (d, [], False)),
     dds_waitForNumSlots = (\<lambda>_ _ _ d. (d, None)), dds_agentInfo = (\<lambda>_ _ _. Inr []),
     dds_agentCount = (\<lambda>_ _ _. Inr 4), dds_activate = (\<lambda>_ _ _ _ d. (d, [], False)),
     dds_topologyError = (\<lambda>_ _. None), en_loadTopology = (\<lambda>_. Inr sample_topology),
     en_creatorCollections = (\<lambda>_. Inr []), en_creatorSave = (\<lambda>_ _. None), en_execute = (\<lambda>_ _ _. Inr ([], [], 0)),
     en_tempDir = (\<lambda>_. Inr ''/tmp''), en_canOpen = (\<lambda>_. True), en_readRestore = (\<lambda>_ _. []),
     en_ptree = \<lparr>pt_read_xml = (\<lambda>_. Inr ()), pt_children = (\<lambda>_. []), pt_get_string = (\<lambda>_ _. None),
       pt_get_u32 = (\<lambda>_ _. None)\<rparr>\<rparr>"

definition sample_session :: "string session" where
  "sample_session = (new_session ''session'' ''p'')\<lparr>s_ddsTopo := Some sample_topology,
     s_topology := Some (tp_new (dds_topo.truncate sample_topology) {} [])\<rparr>"

definition sample_world :: "string world" where
  "sample_world = \<lparr>w_ctl = (new_controller [])\<lparr>c_restoreId := ''r'', c_sessions := [(''p'', sample_session)]\<rparr>, w_n = 0,
     w_writes = []\<rparr>"

definition sample_common :: CommonParams where
  "sample_common = \<lparr>cp_partitionID = ''p'', cp_runNr = 7, cp_timeout = 0\<rparr>"

lemma sample_env_ok: "env_ok sample_env"
  by (simp add: env_ok_def sample_env_def sample_topology_def ct_ok_def)

lemma sample_configure:
  "map_option (\<lambda>(res, w). rr_statusCode res) (execConfigure sample_env sample_common \<lparr>dp_path = [], dp_detailed = False\<rparr> sample_world)
     = Some Status_ok"
  by code_simp

lemma sample_session_ok: "session_ok sample_session" "s_partitionID sample_session = ''p''"
proof -
  have ct: "ct_ok sample_topology" by (simp add: ct_ok_def sample_topology_def)
  from ct tp_new_tasks [OF ct] show "session_ok sample_session"
    by (auto simp: session_ok_def sample_session_def new_session_def)
  show "s_partitionID sample_session = ''p''" by (simp add: sample_session_def new_session_def)
qed

definition sample_run_params :: RunParams where
  "sample_run_params = \<lparr>rp_plugin = [], rp_resources = [], rp_topoFile = ''topo.xml'', rp_topoContent = [],
     rp_topoScript = [], rp_extractTopoResources = True\<rparr>"

definition sample_requests :: "(CommonParams \<times> request) list" where
  "sample_requests = [(sample_common, ReqConfigure \<lparr>dp_path = [], dp_detailed = False\<rparr>),
     (sample_common\<lparr>cp_partitionID := ''q''\<rparr>, ReqShutdown)]"

lemma sample_run:
  "map_option (\<lambda>(res, w). rr_statusCode res) (execRun sample_env sample_common sample_run_params sample_world) = Some Status_ok"
  by code_simp

lemma sample_run_then:
  "Option.bind (execRun sample_env sample_common sample_run_params sample_world)
     (\<lambda>(res, w). map_option (\<lambda>_. ()) (exec_all sample_env sample_requests w)) = Some ()"
  by code_simp

lemma sample_shutdown:
  "map_option (\<lambda>(res, w). rr_statusCode res) (execShutdown sample_env sample_common sample_world) = Some Status_ok"
  by code_simp

lemma sample_all:
  "map_option (\<lambda>_. ()) (exec_all sample_env sample_requests sample_world) = Some ()"
  "map_option (\<lambda>_. ()) (exec_all sample_env sample_requests
     \<lparr>w_ctl = (new_controller [])\<lparr>c_timeout := 30\<rparr>, w_n = 0, w_writes = []\<rparr>) = Some ()"
  by code_simp+

end
