(* ===== verification/Grpc_Service.thy ===== *)
theory Grpc_Service
  imports Controller_Samples
begin

text \<open>
  \<^verbatim>\<open>src/odc/grpc/Controller.h\<close>: the gRPC service in front of the controller. The messages are those of
  \<^verbatim>\<open>odc.proto\<close>, an absent field having its default value. A handler turns its message into the
  parameters of a request, runs the request and fills the reply; all but two hold the mutex of their
  partition meanwhile. FairMQ's state names and the order in which a set of hosts is listed are
  parameters. Logging is not modelled.
\<close>

section \<open>Messages\<close>

record CommonRequest =
  q_partitionid :: string
  q_runnr :: u64
  q_timeout :: u32

record InitializeRequest = CommonRequest +
  q_sessionid :: string

record GSubmitRequest = CommonRequest +
  q_plugin :: string
  q_resources :: string

record ActivateRequest = CommonRequest +
  q_topology :: string
  q_content :: string
  q_script :: string

record RunRequest = CommonRequest +
  qr_plugin :: string
  qr_resources :: string
  qr_topology :: string
  qr_content :: string
  qr_script :: string
  qr_extractTopoResources :: bool

record UpdateRequest = CommonRequest +
  qu_topology :: string
  qu_content :: string
  qu_script :: string

record StateRequest = CommonRequest +
  q_path :: string
  q_detailed :: bool

record SetPropertiesRequest = CommonRequest +
  qp_path :: string
  qp_properties :: "(string \<times> string) list"

text \<open>The five state changes wrap a \<^verbatim>\<open>StateRequest\<close>.\<close>

datatype grpc_request =
    GInitialize InitializeRequest | GSubmit GSubmitRequest | GActivate ActivateRequest | GRun RunRequest
  | GUpdate UpdateRequest | GGetState StateRequest | GSetProperties SetPropertiesRequest
  | GConfigure StateRequest | GStart StateRequest | GStop StateRequest | GReset StateRequest
  | GTerminate StateRequest | GShutdown CommonRequest

datatype ReplyStatus = Reply_UNKNOWN | Reply_SUCCESS | Reply_ERROR

datatype SessionStatus = Session_UNKNOWN | Session_RUNNING | Session_STOPPED

record GError =
  ge_msg :: string
  ge_code :: "32 word"

record GeneralReply =
  p_msg :: string
  p_status :: ReplyStatus
  p_error :: "GError option"
  p_exectime :: "32 word"
  p_partitionid :: string
  p_sessionid :: string
  p_state :: string
  p_runnr :: u64
  p_hosts :: "string list"

record GDevice =
  gd_id :: u64
  gd_state :: string
  gd_path :: string
  gd_ignored :: bool
  gd_host :: string

record StateReply =
  p_reply :: GeneralReply
  p_devices :: "GDevice list"

record GPartitionStatus =
  gp_partitionid :: string
  gp_sessionid :: string
  gp_status :: SessionStatus
  gp_state :: string
  gp_runnr :: u64

record StatusReply =
  ps_msg :: string
  ps_status :: ReplyStatus
  ps_error :: "GError option"
  ps_exectime :: "32 word"
  ps_partitions :: "GPartitionStatus list"

datatype grpc_reply = RGeneral GeneralReply | RState StateReply

definition empty_reply :: GeneralReply where
  "empty_reply = \<lparr>p_msg = '''', p_status = Reply_UNKNOWN, p_error = None, p_exectime = 0, p_partitionid = '''',
     p_sessionid = '''', p_state = '''', p_runnr = 0, p_hosts = []\<rparr>"

section \<open>Replies\<close>

text \<open>The message of a default-constructed error code is the one of the system category.\<close>

definition newError :: "'r BaseRequestResult_scheme \<Rightarrow> GError" where
  "newError res =
     (let (code, message) = (case mCode (rr_error res) of
            None \<Rightarrow> (0, ''Success'')
          | Some ec \<Rightarrow> (of_nat (ErrorCode_value ec), ErrorCategory_message (ErrorCode_value ec)))
      in \<lparr>ge_msg = message @ '' ('' @ mDetails (rr_error res) @ '')'', ge_code = code\<rparr>)"

definition setupGeneralReply ::
  "(mq_state \<Rightarrow> string) \<Rightarrow> (string set \<Rightarrow> string list) \<Rightarrow> RequestResult \<Rightarrow> GeneralReply \<Rightarrow> GeneralReply" where
  "setupGeneralReply names order res rep =
     (let rep1 = (if rr_statusCode res = Status_ok
                  then rep\<lparr>p_status := Reply_SUCCESS, p_msg := rr_msg res\<rparr>
                  else rep\<lparr>p_status := Reply_ERROR, p_error := Some (newError res)\<rparr>)
      in rep1\<lparr>p_partitionid := rr_partitionID res, p_runnr := rr_runNr res, p_sessionid := rr_ddsSessionID res,
              p_exectime := word_of_int (rr_execTime res),
              p_state := GetAggregatedStateName names (aggregated (rr_topologyState res)),
              p_hosts := p_hosts rep1 @ order (rr_hosts res)\<rparr>)"

definition device_reply :: "(mq_state \<Rightarrow> string) \<Rightarrow> DetailedTaskStatus \<Rightarrow> GDevice" where
  "device_reply names st =
     \<lparr>gd_id = ds_taskId (dt_status st), gd_state = names (ds_state (dt_status st)), gd_path = dt_path st,
      gd_ignored = ds_ignored (dt_status st), gd_host = dt_host st\<rparr>"

definition setupStateReply ::
  "(mq_state \<Rightarrow> string) \<Rightarrow> (string set \<Rightarrow> string list) \<Rightarrow> RequestResult \<Rightarrow> StateReply \<Rightarrow> StateReply" where
  "setupStateReply names order res rep =
     rep\<lparr>p_reply := setupGeneralReply names order res empty_reply,
         p_devices := p_devices rep @ (case detailed (rr_topologyState res) of
            None \<Rightarrow> [] | Some ds \<Rightarrow> map (device_reply names) ds)\<rparr>"

definition partition_reply :: "(mq_state \<Rightarrow> string) \<Rightarrow> PartitionStatus \<Rightarrow> GPartitionStatus" where
  "partition_reply names p =
     \<lparr>gp_partitionid = pst_partitionID p, gp_sessionid = pst_ddsSessionID p,
      gp_status = (if pst_ddsSessionStatus p = DDS_running then Session_RUNNING else Session_STOPPED),
      gp_state = GetAggregatedStateName names (pst_aggregatedState p), gp_runnr = 0\<rparr>"

definition setupStatusReply :: "(mq_state \<Rightarrow> string) \<Rightarrow> StatusRequestResult \<Rightarrow> StatusReply \<Rightarrow> StatusReply" where
  "setupStatusReply names res rep =
     (let rep1 = (if rr_statusCode res = Status_ok
                  then rep\<lparr>ps_status := Reply_SUCCESS, ps_msg := rr_msg res\<rparr>
                  else rep\<lparr>ps_status := Reply_ERROR, ps_error := Some (newError res)\<rparr>)
      in rep1\<lparr>ps_exectime := word_of_int (rr_execTime res),
              ps_partitions := ps_partitions rep1 @ map (partition_reply names) (rr_partitions res)\<rparr>)"

section \<open>Handlers\<close>

text \<open>The timeout is a \<^verbatim>\<open>uint32_t\<close> in the message, an \<^verbatim>\<open>int\<close> argument and a \<^verbatim>\<open>size_t\<close> member.\<close>

definition common_params :: "'q CommonRequest_scheme \<Rightarrow> CommonParams" where
  "common_params req = \<lparr>cp_partitionID = q_partitionid req, cp_runNr = q_runnr req, cp_timeout = scast (q_timeout req)\<rparr>"

definition general :: "('d, 'p) env \<Rightarrow> (string set \<Rightarrow> string list) \<Rightarrow> (RequestResult \<times> 'd world) option \<Rightarrow> (grpc_reply \<times> 'd world) option" where
  "general E order r =
     map_option (\<lambda>(res, w). (RGeneral (setupGeneralReply (en_StateName E) order res empty_reply), w)) r"

definition stateful :: "('d, 'p) env \<Rightarrow> (string set \<Rightarrow> string list) \<Rightarrow> (RequestResult \<times> 'd world) option \<Rightarrow> (grpc_reply \<times> 'd world) option" where
  "stateful E order r =
     map_option (\<lambda>(res, w). (RState (setupStateReply (en_StateName E) order res \<lparr>p_reply = empty_reply, p_devices = []\<rparr>), w)) r"

definition device_params :: "StateRequest \<Rightarrow> DeviceParams" where
  "device_params req = \<lparr>dp_path = q_path req, dp_detailed = q_detailed req\<rparr>"

type_synonym 'd answer = "(grpc_reply \<times> 'd world) option"

definition Initialize_handler :: "('d, 'p) env \<Rightarrow> (string set \<Rightarrow> string list) \<Rightarrow> InitializeRequest \<Rightarrow> 'd world \<Rightarrow> 'd answer" where
  [simp]: "Initialize_handler E order q w =
     general E order (execInitialize E (common_params q) \<lparr>ip_ddsSessionID = q_sessionid q\<rparr> w)"

definition Submit_handler :: "('d, 'p) env \<Rightarrow> (string set \<Rightarrow> string list) \<Rightarrow> GSubmitRequest \<Rightarrow> 'd world \<Rightarrow> 'd answer" where
  [simp]: "Submit_handler E order q w =
     general E order (Some (execSubmit E (common_params q) \<lparr>sp_plugin = q_plugin q, sp_resources = q_resources q\<rparr> w))"

definition Activate_handler :: "('d, 'p) env \<Rightarrow> (string set \<Rightarrow> string list) \<Rightarrow> ActivateRequest \<Rightarrow> 'd world \<Rightarrow> 'd answer" where
  [simp]: "Activate_handler E order q w =
     general E order (execActivate E (common_params q)
       \<lparr>ap_topoFile = q_topology q, ap_topoContent = q_content q, ap_topoScript = q_script q\<rparr> w)"

definition Run_handler :: "('d, 'p) env \<Rightarrow> (string set \<Rightarrow> string list) \<Rightarrow> RunRequest \<Rightarrow> 'd world \<Rightarrow> 'd answer" where
  [simp]: "Run_handler E order q w =
     general E order (execRun E (common_params q)
       \<lparr>rp_plugin = qr_plugin q, rp_resources = qr_resources q, rp_topoFile = qr_topology q, rp_topoContent = qr_content q,
        rp_topoScript = qr_script q, rp_extractTopoResources = qr_extractTopoResources q\<rparr> w)"

definition Update_handler :: "('d, 'p) env \<Rightarrow> (string set \<Rightarrow> string list) \<Rightarrow> UpdateRequest \<Rightarrow> 'd world \<Rightarrow> 'd answer" where
  [simp]: "Update_handler E order q w =
     general E order (execUpdate E (common_params q)
       \<lparr>up_topoFile = qu_topology q, up_topoContent = qu_content q, up_topoScript = qu_script q\<rparr> w)"

definition GetState_handler :: "('d, 'p) env \<Rightarrow> (string set \<Rightarrow> string list) \<Rightarrow> StateRequest \<Rightarrow> 'd world \<Rightarrow> 'd answer" where
  [simp]: "GetState_handler E order q w = stateful E order (execGetState E (common_params q) (device_params q) w)"

definition SetProperties_handler :: "('d, 'p) env \<Rightarrow> (string set \<Rightarrow> string list) \<Rightarrow> SetPropertiesRequest \<Rightarrow> 'd world \<Rightarrow> 'd answer" where
  [simp]: "SetProperties_handler E order q w =
     general E order (execSetProperties E (common_params q)
       \<lparr>spp_path = qp_path q, spp_properties = map (\<lambda>(k, v). (k, v)) (qp_properties q)\<rparr> w)"

definition Configure_handler :: "('d, 'p) env \<Rightarrow> (string set \<Rightarrow> string list) \<Rightarrow> StateRequest \<Rightarrow> 'd world \<Rightarrow> 'd answer" where
  [simp]: "Configure_handler E order q w = stateful E order (execConfigure E (common_params q) (device_params q) w)"

definition Start_handler :: "('d, 'p) env \<Rightarrow> (string set \<Rightarrow> string list) \<Rightarrow> StateRequest \<Rightarrow> 'd world \<Rightarrow> 'd answer" where
  [simp]: "Start_handler E order q w = stateful E order (execStart E (common_params q) (device_params q) w)"

definition Stop_handler :: "('d, 'p) env \<Rightarrow> (string set \<Rightarrow> string list) \<Rightarrow> StateRequest \<Rightarrow> 'd world \<Rightarrow> 'd answer" where
  [simp]: "Stop_handler E order q w = stateful E order (execStop E (common_params q) (device_params q) w)"

definition Reset_handler :: "('d, 'p) env \<Rightarrow> (string set \<Rightarrow> string list) \<Rightarrow> StateRequest \<Rightarrow> 'd world \<Rightarrow> 'd answer" where
  [simp]: "Reset_handler E order q w = stateful E order (execReset E (common_params q) (device_params q) w)"

definition Terminate_handler :: "('d, 'p) env \<Rightarrow> (string set \<Rightarrow> string list) \<Rightarrow> StateRequest \<Rightarrow> 'd world \<Rightarrow> 'd answer" where
  [simp]: "Terminate_handler E order q w = stateful E order (execTerminate E (common_params q) (device_params q) w)"

definition Shutdown_handler :: "('d, 'p) env \<Rightarrow> (string set \<Rightarrow> string list) \<Rightarrow> CommonRequest \<Rightarrow> 'd world \<Rightarrow> 'd answer" where
  [simp]: "Shutdown_handler E order q w = general E order (execShutdown E (common_params q) w)"

text \<open>Which handler a message goes to.\<close>

fun serve :: "('d, 'p) env \<Rightarrow> (string set \<Rightarrow> string list) \<Rightarrow> grpc_request \<Rightarrow> 'd world \<Rightarrow> 'd answer" where
  "serve E order (GInitialize q) w = Initialize_handler E order q w"
| "serve E order (GSubmit q) w = Submit_handler E order q w"
| "serve E order (GActivate q) w = Activate_handler E order q w"
| "serve E order (GRun q) w = Run_handler E order q w"
| "serve E order (GUpdate q) w = Update_handler E order q w"
| "serve E order (GGetState q) w = GetState_handler E order q w"
| "serve E order (GSetProperties q) w = SetProperties_handler E order q w"
| "serve E order (GConfigure q) w = Configure_handler E order q w"
| "serve E order (GStart q) w = Start_handler E order q w"
| "serve E order (GStop q) w = Stop_handler E order q w"
| "serve E order (GReset q) w = Reset_handler E order q w"
| "serve E order (GTerminate q) w = Terminate_handler E order q w"
| "serve E order (GShutdown q) w = Shutdown_handler E order q w"

definition serve_Status :: "('d, 'p) env \<Rightarrow> bool \<Rightarrow> 'd world \<Rightarrow> StatusReply" where
  "serve_Status E running w =
     setupStatusReply (en_StateName E) (execStatus E \<lparr>stp_running = running\<rparr> w)
       \<lparr>ps_msg = '''', ps_status = Reply_UNKNOWN, ps_error = None, ps_exectime = 0, ps_partitions = []\<rparr>"

section \<open>Partition mutexes\<close>

text \<open>
  The calls of the service by number. \<open>getMutex\<close> creates the mutex of a partition at its first use; a call
  that holds it runs its request and releases it. A partition is named by its request.
\<close>

fun request_partition :: "grpc_request \<Rightarrow> string" where
  "request_partition (GInitialize q) = q_partitionid q"
| "request_partition (GSubmit q) = q_partitionid q"
| "request_partition (GActivate q) = q_partitionid q"
| "request_partition (GRun q) = q_partitionid q"
| "request_partition (GUpdate q) = q_partitionid q"
| "request_partition (GGetState q) = q_partitionid q"
| "request_partition (GSetProperties q) = q_partitionid q"
| "request_partition (GConfigure q) = q_partitionid q"
| "request_partition (GStart q) = q_partitionid q"
| "request_partition (GStop q) = q_partitionid q"
| "request_partition (GReset q) = q_partitionid q"
| "request_partition (GTerminate q) = q_partitionid q"
| "request_partition (GShutdown q) = q_partitionid q"

fun takes_mutex :: "grpc_request \<Rightarrow> bool" where
  "takes_mutex (GGetState q) = False"
| "takes_mutex _ = True"

datatype call = Arrived grpc_request | Holding grpc_request | Returned grpc_reply

text \<open>\<open>sv_mutexes\<close> maps a partition to whether its mutex is locked.\<close>

record 'd server =
  sv_world :: "'d world"
  sv_mutexes :: "(string \<times> bool) list"
  sv_calls :: "call list"

definition getMutex :: "string \<Rightarrow> (string \<times> bool) list \<Rightarrow> (string \<times> bool) list \<times> bool" where
  "getMutex pid m = (case map_of m pid of None \<Rightarrow> (smap_set pid False m, False) | Some b \<Rightarrow> (m, b))"

inductive server_step :: "('d, 'p) env \<Rightarrow> (string set \<Rightarrow> string list) \<Rightarrow> 'd server \<Rightarrow> 'd server \<Rightarrow> bool" for E order where
  arrive: "server_step E order s (s\<lparr>sv_calls := sv_calls s @ [Arrived q]\<rparr>)"
| lock: "i < length (sv_calls s) \<Longrightarrow> sv_calls s ! i = Arrived q \<Longrightarrow> takes_mutex q \<Longrightarrow>
    getMutex (request_partition q) (sv_mutexes s) = (m, False) \<Longrightarrow>
    server_step E order s (s\<lparr>sv_mutexes := smap_set (request_partition q) True m, sv_calls := (sv_calls s)[i := Holding q]\<rparr>)"
| finish: "i < length (sv_calls s) \<Longrightarrow> sv_calls s ! i = Holding q \<Longrightarrow> serve E order q (sv_world s) = Some (r, w) \<Longrightarrow>
    server_step E order s (s\<lparr>sv_world := w, sv_mutexes := smap_set (request_partition q) False (sv_mutexes s),
      sv_calls := (sv_calls s)[i := Returned r]\<rparr>)"
| unlocked: "i < length (sv_calls s) \<Longrightarrow> sv_calls s ! i = Arrived q \<Longrightarrow> \<not> takes_mutex q \<Longrightarrow>
    serve E order q (sv_world s) = Some (r, w) \<Longrightarrow>
    server_step E order s (s\<lparr>sv_world := w, sv_calls := (sv_calls s)[i := Returned r]\<rparr>)"

inductive_cases server_stepE: "server_step E order s s'"

inductive server_reachable :: "('d, 'p) env \<Rightarrow> (string set \<Rightarrow> string list) \<Rightarrow> 'd world \<Rightarrow> 'd server \<Rightarrow> bool" for E order w where
  init: "server_reachable E order w \<lparr>sv_world = w, sv_mutexes = [], sv_calls = []\<rparr>"
| step: "server_reachable E order w s \<Longrightarrow> server_step E order s s' \<Longrightarrow> server_reachable E order w s'"

section \<open>Replies report the result\<close>

fun request_common :: "grpc_request \<Rightarrow> CommonParams" where
  "request_common (GInitialize q) = common_params q"
| "request_common (GSubmit q) = common_params q"
| "request_common (GActivate q) = common_params q"
| "request_common (GRun q) = common_params q"
| "request_common (GUpdate q) = common_params q"
| "request_common (GGetState q) = common_params q"
| "request_common (GSetProperties q) = common_params q"
| "request_common (GConfigure q) = common_params q"
| "request_common (GStart q) = common_params q"
| "request_common (GStop q) = common_params q"
| "request_common (GReset q) = common_params q"
| "request_common (GTerminate q) = common_params q"
| "request_common (GShutdown q) = common_params q"

fun core_request :: "grpc_request \<Rightarrow> request" where
  "core_request (GInitialize q) = ReqInitialize \<lparr>ip_ddsSessionID = q_sessionid q\<rparr>"
| "core_request (GSubmit q) = ReqSubmit \<lparr>sp_plugin = q_plugin q, sp_resources = q_resources q\<rparr>"
| "core_request (GActivate q) = ReqActivate \<lparr>ap_topoFile = q_topology q, ap_topoContent = q_content q, ap_topoScript = q_script q\<rparr>"
| "core_request (GRun q) = ReqRun \<lparr>rp_plugin = qr_plugin q, rp_resources = qr_resources q, rp_topoFile = qr_topology q,
     rp_topoContent = qr_content q, rp_topoScript = qr_script q, rp_extractTopoResources = qr_extractTopoResources q\<rparr>"
| "core_request (GUpdate q) = ReqUpdate \<lparr>up_topoFile = qu_topology q, up_topoContent = qu_content q, up_topoScript = qu_script q\<rparr>"
| "core_request (GGetState q) = ReqGetState (device_params q)"
| "core_request (GSetProperties q) = ReqSetProperties \<lparr>spp_path = qp_path q, spp_properties = qp_properties q\<rparr>"
| "core_request (GConfigure q) = ReqConfigure (device_params q)"
| "core_request (GStart q) = ReqStart (device_params q)"
| "core_request (GStop q) = ReqStop (device_params q)"
| "core_request (GReset q) = ReqReset (device_params q)"
| "core_request (GTerminate q) = ReqTerminate (device_params q)"
| "core_request (GShutdown q) = ReqShutdown"

fun stateful_request :: "grpc_request \<Rightarrow> bool" where
  "stateful_request (GGetState q) = True"
| "stateful_request (GConfigure q) = True"
| "stateful_request (GStart q) = True"
| "stateful_request (GStop q) = True"
| "stateful_request (GReset q) = True"
| "stateful_request (GTerminate q) = True"
| "stateful_request _ = False"

fun general_part :: "grpc_reply \<Rightarrow> GeneralReply" where
  "general_part (RGeneral r) = r"
| "general_part (RState r) = p_reply r"

lemma serve_exec:
  "serve E order q w = (if stateful_request q then stateful E order (exec E (request_common q) (core_request q) w)
     else general E order (exec E (request_common q) (core_request q) w))"
  by (cases q) (simp_all add: case_prod_beta)

lemma request_common_partition [simp]: "cp_partitionID (request_common q) = request_partition q"
  by (cases q) (simp_all add: common_params_def)

text \<open>The status, the partition and the run number of a result.\<close>

definition result_ok :: "CommonParams \<Rightarrow> RequestResult \<Rightarrow> bool" where
  "result_ok common res \<longleftrightarrow> rr_statusCode res = status_of (rr_error res) \<and>
     rr_partitionID res = cp_partitionID common \<and> rr_runNr res = cp_runNr common"

lemma createRequestResult_ok [simp]: "result_ok common (createRequestResult E common msg ts hosts rq)"
  by (simp add: result_ok_def createRequestResult_def)

lemma finish_result_ok: "finish E common msg w r = Some (res, w') \<Longrightarrow> result_ok common res"
  by (auto simp: finish_def)

lemma exec_result_ok: "exec E common r w = Some (res, w') \<Longrightarrow> result_ok common res"
proof (cases r)
  case (ReqRun p)
  assume "exec E common r w = Some (res, w')"
  then show ?thesis
    by (auto simp: ReqRun execRun_def Let_def split: if_splits option.splits prod.splits)
next
  case (ReqSubmit p)
  assume "exec E common r w = Some (res, w')"
  then show ?thesis by (auto simp: ReqSubmit execSubmit_def Let_def split: prod.splits)
next
  case ReqShutdown
  assume "exec E common r w = Some (res, w')"
  then show ?thesis
    by (auto simp: ReqShutdown execShutdown_def Let_def result_ok_def createRequestResult_def)
qed (auto simp: execInitialize_def execActivate_def execUpdate_def execSetProperties_def execGetState_def
    execConfigure_def execStart_def execStop_def execReset_def execTerminate_def Let_def dest: finish_result_ok)

lemma setupGeneralReply_result:
  fixes names :: "mq_state \<Rightarrow> string" and order :: "string set \<Rightarrow> string list"
  assumes "result_ok common res"
  defines "rep \<equiv> setupGeneralReply names order res empty_reply"
  shows "p_partitionid rep = cp_partitionID common" "p_runnr rep = cp_runNr common" "p_sessionid rep = rr_ddsSessionID res"
    "p_state rep = GetAggregatedStateName names (aggregated (rr_topologyState res))"
    "p_status rep = (if mCode (rr_error res) = None then Reply_SUCCESS else Reply_ERROR)"
    "p_error rep = (if mCode (rr_error res) = None then None else Some (newError res))"
  using assms(1) by (simp_all add: rep_def setupGeneralReply_def Let_def empty_reply_def result_ok_def status_of_def)

text \<open>
  C33: Every reply of the service names the partition and the run of its request and reports the outcome the
  controller reached: success without an error exactly if the request set no error, otherwise the status
  ERROR with the number of the error code.
\<close>
theorem reply_reports_result:
  assumes "serve E order q w = Some (r, w')"
  shows "\<exists>res. exec E (request_common q) (core_request q) w = Some (res, w') \<and>
    p_partitionid (general_part r) = request_partition q \<and> p_runnr (general_part r) = cp_runNr (request_common q) \<and>
    p_sessionid (general_part r) = rr_ddsSessionID res \<and>
    (case mCode (rr_error res) of
       None \<Rightarrow> p_status (general_part r) = Reply_SUCCESS \<and> p_error (general_part r) = None
     | Some ec \<Rightarrow> p_status (general_part r) = Reply_ERROR \<and>
         map_option ge_code (p_error (general_part r)) = Some (of_nat (ErrorCode_value ec)))"
proof -
  obtain res where res: "exec E (request_common q) (core_request q) w = Some (res, w')"
    "general_part r = setupGeneralReply (en_StateName E) order res empty_reply"
    using assms by (auto simp: serve_exec general_def stateful_def setupStateReply_def split: if_splits)
  note rep = setupGeneralReply_result [OF exec_result_ok [OF res(1)], of "en_StateName E" order]
  show ?thesis
    by (intro exI [of _ res] conjI) (simp_all add: res rep newError_def Let_def split: option.split)
qed

section \<open>One request of a partition at a time\<close>

definition holds :: "string \<Rightarrow> 'd server \<Rightarrow> nat \<Rightarrow> bool" where
  "holds p s i \<longleftrightarrow> i < length (sv_calls s) \<and> (\<exists>q. sv_calls s ! i = Holding q \<and> request_partition q = p)"

definition mutexes_ok :: "'d server \<Rightarrow> bool" where
  "mutexes_ok s \<longleftrightarrow> (\<forall>p. if map_of (sv_mutexes s) p = Some True then \<exists>!i. holds p s i else \<forall>i. \<not> holds p s i)"

lemma getMutex_free:
  "getMutex p m = (m', False) \<Longrightarrow> map_of m p \<noteq> Some True \<and> (\<forall>p'. map_of m' p' = Some True \<longleftrightarrow> map_of m p' = Some True)"
  by (auto simp: getMutex_def split: option.splits if_splits)

lemma holds_update:
  "i < length (sv_calls s) \<Longrightarrow> holds p (s\<lparr>sv_mutexes := m, sv_calls := (sv_calls s)[i := c]\<rparr>) j \<longleftrightarrow>
     (if j = i then \<exists>q. c = Holding q \<and> request_partition q = p else holds p s j)"
  by (auto simp: holds_def nth_list_update)

lemma mutexes_ok_lock:
  assumes ok: "mutexes_ok s" and i: "i < length (sv_calls s)" "sv_calls s ! i = Arrived q"
    and m: "getMutex (request_partition q) (sv_mutexes s) = (m, False)"
  shows "mutexes_ok (s\<lparr>sv_mutexes := smap_set (request_partition q) True m, sv_calls := (sv_calls s)[i := Holding q]\<rparr>)"
proof -
  have not_i: "\<not> holds p s i" for p using i by (simp add: holds_def)
  have free: "\<not> holds (request_partition q) s j" for j
    using ok getMutex_free [OF m] unfolding mutexes_ok_def by metis
  show ?thesis
    unfolding mutexes_ok_def
  proof (intro allI)
    fix p
    show "if map_of (sv_mutexes (s\<lparr>sv_mutexes := smap_set (request_partition q) True m, sv_calls := (sv_calls s)[i := Holding q]\<rparr>)) p = Some True
      then \<exists>!j. holds p (s\<lparr>sv_mutexes := smap_set (request_partition q) True m, sv_calls := (sv_calls s)[i := Holding q]\<rparr>) j
      else \<forall>j. \<not> holds p (s\<lparr>sv_mutexes := smap_set (request_partition q) True m, sv_calls := (sv_calls s)[i := Holding q]\<rparr>) j"
    proof (cases "p = request_partition q")
      case True
      then show ?thesis using free by (auto simp: holds_update [OF i(1)] split: if_splits)
    next
      case False
      then have "holds p (s\<lparr>sv_mutexes := smap_set (request_partition q) True m, sv_calls := (sv_calls s)[i := Holding q]\<rparr>) j = holds p s j" for j
        using not_i by (auto simp: holds_update [OF i(1)])
      moreover have "map_of m p = Some True \<longleftrightarrow> map_of (sv_mutexes s) p = Some True"
        using getMutex_free [OF m] by blast
      ultimately show ?thesis using ok False unfolding mutexes_ok_def by simp
    qed
  qed
qed

lemma mutexes_ok_finish:
  assumes ok: "mutexes_ok s" and i: "i < length (sv_calls s)" "sv_calls s ! i = Holding q"
  shows "mutexes_ok (s\<lparr>sv_world := w, sv_mutexes := smap_set (request_partition q) False (sv_mutexes s),
      sv_calls := (sv_calls s)[i := Returned r]\<rparr>)"
proof -
  let ?s = "s\<lparr>sv_world := w, sv_mutexes := smap_set (request_partition q) False (sv_mutexes s), sv_calls := (sv_calls s)[i := Returned r]\<rparr>"
  have h: "holds (request_partition q) s i" using i by (simp add: holds_def)
  then have only: "holds (request_partition q) s j \<Longrightarrow> j = i" for j
    using ok unfolding mutexes_ok_def by metis
  have new: "holds p ?s j \<longleftrightarrow> j \<noteq> i \<and> holds p s j" for p j
    using i by (auto simp: holds_def nth_list_update)
  show ?thesis
    unfolding mutexes_ok_def
  proof (intro allI)
    fix p
    show "if map_of (sv_mutexes ?s) p = Some True then \<exists>!j. holds p ?s j else \<forall>j. \<not> holds p ?s j"
    proof (cases "p = request_partition q")
      case True
      then show ?thesis using only by (auto simp: new)
    next
      case False
      then have "\<not> holds p s i" using i by (simp add: holds_def)
      then have "holds p ?s j = holds p s j" for j using new by auto
      then show ?thesis using ok False unfolding mutexes_ok_def by simp
    qed
  qed
qed

lemma mutexes_ok_calls:
  assumes "mutexes_ok s" "\<And>p i. holds p s' i = holds p s i" "sv_mutexes s' = sv_mutexes s"
  shows "mutexes_ok s'"
  using assms by (simp add: mutexes_ok_def)

lemma server_step_mutexes:
  assumes "server_step E order s s'" "mutexes_ok s"
  shows "mutexes_ok s'"
  using assms
proof (cases rule: server_step.cases)
  case (arrive q)
  show ?thesis
    by (rule mutexes_ok_calls [OF assms(2)]) (auto simp: arrive holds_def nth_append)
next
  case (lock i q m)
  then show ?thesis using mutexes_ok_lock [OF assms(2)] by simp
next
  case (finish i q r w)
  then show ?thesis using mutexes_ok_finish [OF assms(2)] by simp
next
  case (unlocked i q r w)
  show ?thesis
    by (rule mutexes_ok_calls [OF assms(2)]) (use unlocked in \<open>auto simp: holds_def nth_list_update\<close>)
qed

lemma server_reachable_mutexes: "server_reachable E order w s \<Longrightarrow> mutexes_ok s"
proof (induction rule: server_reachable.induct)
  case init
  then show ?case by (simp add: mutexes_ok_def holds_def)
qed (rule server_step_mutexes)


text \<open>A call inside its handler and another one that has just arrived.\<close>

lemma two_calls_reachable:
  assumes "takes_mutex q"
  shows "server_reachable E order w
    \<lparr>sv_world = w, sv_mutexes = [(request_partition q, True)], sv_calls = [Holding q, Arrived q']\<rparr>"
proof -
  let ?p = "request_partition q" and ?s0 = "\<lparr>sv_world = w, sv_mutexes = [], sv_calls = []\<rparr>"
  let ?s1 = "?s0\<lparr>sv_calls := [Arrived q]\<rparr>" and ?s2 = "?s0\<lparr>sv_calls := [Arrived q, Arrived q']\<rparr>"
  have r1: "server_reachable E order w ?s1"
    using server_reachable.step [OF server_reachable.init server_step.arrive, of E order w q] by simp
  have r2: "server_reachable E order w ?s2"
    using server_reachable.step [OF r1 server_step.arrive, of q'] by simp
  have "server_step E order ?s2 \<lparr>sv_world = w, sv_mutexes = [(?p, True)], sv_calls = [Holding q, Arrived q']\<rparr>"
    using server_step.lock [of 0 ?s2 q "[(?p, False)]" E order] assms by (simp add: getMutex_def)
  then show ?thesis by (rule server_reachable.step [OF r2])
qed

text \<open>
  GetState takes no mutex: it can be served for a partition while another request of the same partition is
  inside its handler, although the service is said to process all requests of a partition sequentially.
\<close>
theorem GetState_not_serialised:
  assumes "takes_mutex q" and "q_partitionid g = request_partition q"
  shows "\<exists>s s' r. server_reachable E order w s \<and> holds (request_partition q) s 0 \<and>
    sv_calls s ! 1 = Arrived (GGetState g) \<and> server_step E order s s' \<and>
    sv_calls s' ! 1 = Returned r \<and> holds (request_partition q) s' 0"
proof -
  let ?p = "request_partition q"
  let ?s3 = "\<lparr>sv_world = w, sv_mutexes = [(?p, True)], sv_calls = [Holding q, Arrived (GGetState g)]\<rparr>"
  have r3: "server_reachable E order w ?s3" by (rule two_calls_reachable [OF assms(1)])
  obtain res w' where e: "execGetState E (common_params g) (device_params g) w = Some (res, w')"
  proof -
    obtain x where "execGetState E (common_params g) (device_params g) w = Some x"
      by (simp add: execGetState_def finish_def)
    then show thesis using that by (cases x) simp
  qed
  then obtain r where r: "serve E order (GGetState g) w = Some (r, w')" by (simp add: stateful_def)
  have "server_step E order ?s3 (?s3\<lparr>sv_world := w', sv_calls := [Holding q, Returned r]\<rparr>)"
    using server_step.unlocked [of 1 ?s3 "GGetState g" E order r w'] r by simp
  then show ?thesis
    using r3 assms(2) by (intro exI [of _ ?s3] exI [of _ "?s3\<lparr>sv_world := w', sv_calls := [Holding q, Returned r]\<rparr>"] exI [of _ r])
      (simp add: holds_def)
qed

section \<open>Sample calls\<close>

definition sample_get :: StateRequest where
  "sample_get = \<lparr>q_partitionid = ''p'', q_runnr = 7, q_timeout = 0, q_path = '''', q_detailed = False\<rparr>"

theorem reply_reports_result_witness:
  "\<exists>r. map_option fst (serve sample_env (\<lambda>_. []) (GConfigure sample_get) sample_world) = Some r \<and>
     p_partitionid (general_part r) = ''p'' \<and> p_runnr (general_part r) = 7"
proof -
  have "map_option (\<lambda>_. ()) (serve sample_env (\<lambda>_. []) (GConfigure sample_get) sample_world) = Some ()" by code_simp
  then obtain r w where rw: "serve sample_env (\<lambda>_. []) (GConfigure sample_get) sample_world = Some (r, w)" by auto
  from reply_reports_result [OF this] rw show ?thesis
    by (intro exI [of _ r]) (auto simp del: serve.simps simp: sample_get_def common_params_def)
qed


theorem GetState_not_serialised_witness:
  "\<exists>s s' r. server_reachable sample_env (\<lambda>_. []) sample_world s \<and> holds ''p'' s 0 \<and>
    sv_calls s ! 1 = Arrived (GGetState sample_get) \<and> server_step sample_env (\<lambda>_. []) s s' \<and>
    sv_calls s' ! 1 = Returned r \<and> holds ''p'' s' 0"
  using GetState_not_serialised [of "GConfigure sample_get" sample_get sample_env "\<lambda>_. []" sample_world]
  by (simp add: sample_get_def)

end
