(* ===== verification/Printing.thy ===== *)
theory Printing
  imports ODC_Session
begin

text \<open>
  The stream operators of \<^verbatim>\<open>src/odc/Params.h\<close> and \<^verbatim>\<open>src/odc/TopologyDefs.h\<close>, as the text they write, for the log
  and the command line. A \<^verbatim>\<open>bool\<close> is written as 1 or 0 and a string \<^verbatim>\<open>quoted\<close> where the source quotes it.
  FairMQ's state names are a parameter.
\<close>

section \<open>Values\<close>

definition bool_text :: "bool \<Rightarrow> string" where
  "bool_text b = (if b then ''1'' else ''0'')"

definition boolalpha_text :: "bool \<Rightarrow> string" where
  "boolalpha_text b = (if b then ''true'' else ''false'')"

definition i32_text :: "32 word \<Rightarrow> string" where
  "i32_text w = string_of_int (sint w)"

definition u32_text :: "u32 \<Rightarrow> string" where
  "u32_text w = string_of_nat (unat w)"

definition u64_text :: "u64 \<Rightarrow> string" where
  "u64_text w = string_of_nat (unat w)"

section \<open>Parameters\<close>

definition CommonParams_text :: "CommonParams \<Rightarrow> string" where
  "CommonParams_text p = ''CommonParams: partitionID: '' @ quoted (cp_partitionID p) @ ''; runNr: '' @ u64_text (cp_runNr p) @
     ''; timeout: '' @ u64_text (cp_timeout p)"

definition InitializeParams_text :: "InitializeParams \<Rightarrow> string" where
  "InitializeParams_text p = ''InitilizeParams: sid: '' @ quoted (ip_ddsSessionID p)"

definition SubmitParams_text :: "SubmitParams \<Rightarrow> string" where
  "SubmitParams_text p = ''SubmitParams: plugin: '' @ quoted (sp_plugin p) @ ''; resources: '' @ quoted (sp_resources p)"

definition ActivateParams_text :: "ActivateParams \<Rightarrow> string" where
  "ActivateParams_text p = ''ActivateParams: topologyFile: '' @ quoted (ap_topoFile p) @ ''; topologyContent: '' @
     quoted (ap_topoContent p) @ ''; topologyScript: '' @ quoted (ap_topoScript p)"

definition RunParams_text :: "RunParams \<Rightarrow> string" where
  "RunParams_text p = ''RunParams: plugin: '' @ quoted (rp_plugin p) @ ''; resource: '' @ quoted (rp_resources p) @
     ''; topologyFile: '' @ quoted (rp_topoFile p) @ ''; topologyContent: '' @ quoted (rp_topoContent p) @
     ''; topologyScript: '' @ quoted (rp_topoScript p) @ ''; extractTopoResources: '' @ bool_text (rp_extractTopoResources p)"

definition UpdateParams_text :: "UpdateParams \<Rightarrow> string" where
  "UpdateParams_text p = ''UpdateParams: topologyFile: '' @ quoted (up_topoFile p) @ ''; topologyContent: '' @
     quoted (up_topoContent p) @ ''; topologyScript: '' @ quoted (up_topoScript p)"

definition SetPropertiesParams_text :: "SetPropertiesParams \<Rightarrow> string" where
  "SetPropertiesParams_text p = ''SetPropertiesParams: path: '' @ quoted (spp_path p) @ ''; properties: {'' @
     concat (map (\<lambda>(k, v). '' ('' @ k @ '':'' @ v @ '') '') (spp_properties p)) @ ''}''"

definition DeviceParams_text :: "DeviceParams \<Rightarrow> string" where
  "DeviceParams_text p = ''DeviceParams: path: '' @ quoted (dp_path p) @ ''; detailed: '' @ bool_text (dp_detailed p)"

definition StatusParams_text :: "StatusParams \<Rightarrow> string" where
  "StatusParams_text p = ''StatusParams: running: '' @ bool_text (stp_running p)"

section \<open>Topologies\<close>

definition AggregatedState_text :: "(mq_state \<Rightarrow> string) \<Rightarrow> AggregatedState \<Rightarrow> string" where
  "AggregatedState_text names st = (case st of Mixed \<Rightarrow> ''MIXED'' | Agg s \<Rightarrow> names s)"

definition DDSTask_text :: "DDSTask \<Rightarrow> string" where
  "DDSTask_text t = ''DDSTask id: '' @ u64_text (fId t) @ '', collection id: '' @ u64_text (fCollectionId t)"

definition TaskDetails_text :: "TaskDetails \<Rightarrow> string" where
  "TaskDetails_text t = ''taskID: '' @ u64_text (td_taskID t) @ ''; agentID: '' @ u64_text (td_agentID t) @
     ''; slotID: '' @ u64_text (td_slotID t) @ ''; collectionID: '' @ u64_text (td_collectionID t) @
     ''; path: '' @ td_path t @ ''; host: '' @ td_host t @ ''; wrkDir: '' @ td_wrkDir t"

definition CollectionDetails_text :: "CollectionDetails \<Rightarrow> string" where
  "CollectionDetails_text c = ''collectionID: '' @ u64_text (cd_collectionID c) @ ''; agentID: '' @ u64_text (cd_agentID c) @
     ''; slotID: '' @ u64_text (cd_slotID c) @ ''; path: '' @ cd_path c @ ''; host: '' @ cd_host c @ ''; wrkDir: '' @ cd_wrkDir c"

definition AgentDetails_text :: "AgentDetails \<Rightarrow> string" where
  "AgentDetails_text a = ''agentID: '' @ u64_text (ad_id a) @ ''; zone: '' @ ad_zone a @ ''; group: '' @ ad_group a @
     ''; host: '' @ ad_host a @ ''; path: '' @ ad_path a @ ''; numSlots: '' @ u32_text (ad_numSlots a)"

definition CollectionNInfo_text :: "CollectionNInfo \<Rightarrow> string" where
  "CollectionNInfo_text n = ''n (original): '' @ string_of_int (ni_nOriginal n) @ ''; n (current): '' @ string_of_int (ni_nCurrent n) @
     ''; n (min): '' @ string_of_int (ni_nMin n) @ ''; agentGroup: '' @ ni_agentGroup n"

definition CollectionInfo_text :: "CollectionInfo \<Rightarrow> string" where
  "CollectionInfo_text c = ''name: '' @ quoted (ci_name c) @ ''; zone: '' @ quoted (ci_zone c) @ ''; agent group: '' @
     quoted (ci_agentGroup c) @ ''; topo parent: '' @ quoted (ci_topoParent c) @ ''; topo path: '' @ quoted (ci_topoPath c) @
     ''; n (original): '' @ string_of_int (ci_nOriginal c) @ ''; n (current): '' @ string_of_int (ci_nCurrent c) @
     ''; n (min): '' @ string_of_int (ci_nMin c) @ ''; nCores: '' @ string_of_int (ci_nCores c) @
     ''; numTasks: '' @ string_of_int (ci_numTasks c) @ ''; totalTasks: '' @ string_of_int (ci_totalTasks c)"

definition TaskInfo_text :: "TaskInfo \<Rightarrow> string" where
  "TaskInfo_text t = ''name: '' @ quoted (ti_name t) @ ''; zone: '' @ quoted (ti_zone t) @ ''; agent group: '' @
     quoted (ti_agentGroup t) @ ''; topo parent: '' @ quoted (ti_topoParent t) @ ''; n: '' @ string_of_int (ti_n t)"

definition AgentGroupInfo_text :: "AgentGroupInfo \<Rightarrow> string" where
  "AgentGroupInfo_text a = ''name: '' @ quoted (ag_name a) @ ''; zone: '' @ quoted (ag_zone a) @
     ''; numAgents: '' @ string_of_int (ag_numAgents a) @ ''; minAgents: '' @ string_of_int (ag_minAgents a) @
     ''; numSlots: '' @ string_of_int (ag_numSlots a) @ ''; numCores: '' @ string_of_int (ag_numCores a)"

section \<open>What is written can be read back\<close>

text \<open>Reading a quoted string, and what follows it.\<close>

fun unquote_rest :: "string \<Rightarrow> (string \<times> string) option" where
  "unquote_rest [] = None"
| "unquote_rest (c # cs) =
     (if c = CHR 0x22 then Some ([], cs)
      else if c = CHR 0x5C
      then (case cs of [] \<Rightarrow> None | d # ds \<Rightarrow> map_option (\<lambda>(s, r). (d # s, r)) (unquote_rest ds))
      else map_option (\<lambda>(s, r). (c # s, r)) (unquote_rest cs))"

definition unquote :: "string \<Rightarrow> (string \<times> string) option" where
  "unquote s = (case s of [] \<Rightarrow> None | c # cs \<Rightarrow> if c = CHR 0x22 then unquote_rest cs else None)"

lemma unquote_quoted [simp]: "unquote (quoted s @ rest) = Some (s, rest)"
proof -
  have "unquote_rest (concat (map (\<lambda>c. if c = CHR 0x22 \<or> c = CHR 0x5C then [CHR 0x5C, c] else [c]) s) @ CHR 0x22 # rest) = Some (s, rest)"
    by (induction s) auto
  then show ?thesis by (simp add: unquote_def quoted_def)
qed

lemma quoted_append_inject [simp]: "quoted s @ a = quoted t @ b \<longleftrightarrow> s = t \<and> a = b"
  by (metis Pair_inject option.inject unquote_quoted)

lemma quoted_inject [simp]: "quoted s = quoted t \<longleftrightarrow> s = t"
  using quoted_append_inject [of s "[]" t "[]"] by simp

lemma bool_text_inject [simp]: "bool_text a = bool_text b \<longleftrightarrow> a = b"
  by (simp add: bool_text_def)

text \<open>
  The text of a request's parameters determines them: two requests that are logged alike are the same request. This
  fails for property lists, whose keys and values are not quoted.
\<close>
theorem parameters_text_inject:
  "(InitializeParams_text i = InitializeParams_text i' \<longleftrightarrow> i = i') \<and> (SubmitParams_text s = SubmitParams_text s' \<longleftrightarrow> s = s') \<and>
   (ActivateParams_text a = ActivateParams_text a' \<longleftrightarrow> a = a') \<and> (RunParams_text r = RunParams_text r' \<longleftrightarrow> r = r') \<and>
   (UpdateParams_text u = UpdateParams_text u' \<longleftrightarrow> u = u') \<and> (DeviceParams_text d = DeviceParams_text d' \<longleftrightarrow> d = d') \<and>
   SetPropertiesParams_text \<lparr>spp_path = '''', spp_properties = [(''k'', ''v:w'')]\<rparr> =
     SetPropertiesParams_text \<lparr>spp_path = '''', spp_properties = [(''k:v'', ''w'')]\<rparr>"
  by (cases i; cases i'; cases s; cases s'; cases a; cases a'; cases r; cases r'; cases u; cases u'; cases d; cases d')
    (auto simp: InitializeParams_text_def SubmitParams_text_def ActivateParams_text_def RunParams_text_def UpdateParams_text_def
      DeviceParams_text_def SetPropertiesParams_text_def)

end
