(* ===== verification/Grpc_Client.thy ===== *)
theory Grpc_Client
  imports Grpc_Service Printing
begin

text \<open>
  \<^verbatim>\<open>src/odc/grpc/Client.h\<close>: the command-line client of the gRPC service. It turns the parameters of a
  command into a message and the reply into the text shown to the user. The call itself is the transport's:
  it gives the status of the call and, if that is good, the reply of the service. The text of a message in
  protobuf's debug format is a parameter.
\<close>

section \<open>Requests\<close>

text \<open>The timeout, a \<^verbatim>\<open>size_t\<close>, is stored in a \<^verbatim>\<open>uint32\<close> field.\<close>

definition updateCommonParams :: "CommonParams \<Rightarrow> CommonRequest" where
  "updateCommonParams common =
     \<lparr>q_partitionid = cp_partitionID common, q_runnr = cp_runNr common, q_timeout = ucast (cp_timeout common)\<rparr>"

definition state_request :: "CommonParams \<Rightarrow> DeviceParams \<Rightarrow> StateRequest" where
  "state_request common p = CommonRequest.extend (updateCommonParams common) \<lparr>q_path = dp_path p, q_detailed = dp_detailed p\<rparr>"

definition updateRequest :: "CommonParams \<Rightarrow> UpdateParams \<Rightarrow> UpdateRequest" where
  "updateRequest common p =
     CommonRequest.extend (updateCommonParams common) \<lparr>qu_topology = up_topoFile p, qu_content = '''', qu_script = ''''\<rparr>"

fun client_request :: "CommonParams \<Rightarrow> request \<Rightarrow> grpc_request" where
  "client_request common (ReqInitialize p) =
     GInitialize (CommonRequest.extend (updateCommonParams common) \<lparr>q_sessionid = ip_ddsSessionID p\<rparr>)"
| "client_request common (ReqSubmit p) =
     GSubmit (CommonRequest.extend (updateCommonParams common) \<lparr>q_plugin = sp_plugin p, q_resources = sp_resources p\<rparr>)"
| "client_request common (ReqActivate p) =
     GActivate (CommonRequest.extend (updateCommonParams common)
       \<lparr>q_topology = ap_topoFile p, q_content = ap_topoContent p, q_script = ap_topoScript p\<rparr>)"
| "client_request common (ReqRun p) =
     GRun (CommonRequest.extend (updateCommonParams common)
       \<lparr>qr_plugin = rp_plugin p, qr_resources = rp_resources p, qr_topology = rp_topoFile p, qr_content = rp_topoContent p,
        qr_script = rp_topoScript p, qr_extractTopoResources = rp_extractTopoResources p\<rparr>)"
| "client_request common (ReqUpdate p) = GUpdate (updateRequest common p)"
| "client_request common ReqShutdown = GShutdown (updateCommonParams common)"
| "client_request common (ReqSetProperties p) =
     GSetProperties (CommonRequest.extend (updateCommonParams common)
       \<lparr>qp_path = spp_path p, qp_properties = map (\<lambda>(k, v). (k, v)) (spp_properties p)\<rparr>)"
| "client_request common (ReqGetState p) = GGetState (state_request common p)"
| "client_request common (ReqConfigure p) = GConfigure (state_request common p)"
| "client_request common (ReqStart p) = GStart (state_request common p)"
| "client_request common (ReqStop p) = GStop (state_request common p)"
| "client_request common (ReqReset p) = GReset (state_request common p)"
| "client_request common (ReqTerminate p) = GTerminate (state_request common p)"

section \<open>Replies as text\<close>

datatype call_status = CallOk | CallFailed int string

definition rpc_failed :: "string \<Rightarrow> int \<Rightarrow> string \<Rightarrow> string" where
  "rpc_failed indent code msg =
     indent @ ''RPC failed with error code '' @ string_of_int code @ '': '' @ msg @ [CHR 0x0A]"

definition GetGeneralReplyString :: "(GeneralReply \<Rightarrow> string) \<Rightarrow> call_status \<Rightarrow> GeneralReply \<Rightarrow> string" where
  "GetGeneralReplyString debug status rep =
     (case status of
        CallFailed code msg \<Rightarrow> rpc_failed ''  '' code msg
      | CallOk \<Rightarrow>
          let ss = ''  msg: '' @ p_msg rep @ ''; Partition ID: '' @ p_partitionid rep @
                   ''; Run Nr.: '' @ u64_text (p_runnr rep) @ ''; DDS Session ID: '' @ p_sessionid rep @
                   ''; topology state: '' @ p_state rep @ ''; execution time: '' @ i32_text (p_exectime rep) @ ''ms'' @
                   (if p_hosts rep = [] then '''' else [CHR 0x0A] @ ''  Hosts:'' @ [CHR 0x0A] @ ''    '' @ join_with '', '' (p_hosts rep))
          in if p_status rep = Reply_ERROR
             then let e = (case p_error rep of None \<Rightarrow> \<lparr>ge_msg = '''', ge_code = 0\<rparr> | Some e \<Rightarrow> e)
                  in ss @ ''; ERROR: '' @ ge_msg e @ '' ('' @ i32_text (ge_code e) @ '')'' @ [CHR 0x0A]
             else if p_status rep = Reply_SUCCESS then ss @ [CHR 0x0A]
             else debug rep)"

definition device_text :: "GDevice \<Rightarrow> string" where
  "device_text d = ''    id: '' @ u64_text (gd_id d) @ ''; state: '' @ gd_state d @ ''; ignored: '' @ bool_text (gd_ignored d) @
     ''; host: '' @ gd_host d @ ''; path: '' @ gd_path d @ [CHR 0x0A]"

definition GetStateReplyString :: "(GeneralReply \<Rightarrow> string) \<Rightarrow> call_status \<Rightarrow> StateReply \<Rightarrow> string" where
  "GetStateReplyString debug status rep =
     (case status of
        CallFailed code msg \<Rightarrow> rpc_failed ''  '' code msg
      | CallOk \<Rightarrow>
          GetGeneralReplyString debug status (p_reply rep) @
          (if p_devices rep = [] then '''' else ''  Devices:'' @ [CHR 0x0A] @ concat (map device_text (p_devices rep))))"

fun SessionStatus_Name :: "SessionStatus \<Rightarrow> string" where
  "SessionStatus_Name Session_UNKNOWN = ''UNKNOWN_''"
| "SessionStatus_Name Session_RUNNING = ''RUNNING''"
| "SessionStatus_Name Session_STOPPED = ''STOPPED''"

definition partition_text :: "GPartitionStatus \<Rightarrow> string" where
  "partition_text p = ''    Partition ID: '' @ gp_partitionid p @ ''; DDS session: '' @ SessionStatus_Name (gp_status p) @
     ''; DDS session ID: '' @ gp_sessionid p @ ''; Run Nr.: '' @ u64_text (gp_runnr p) @
     ''; topology state: '' @ gp_state p @ [CHR 0x0A]"

definition GetStatusReplyString :: "(StatusReply \<Rightarrow> string) \<Rightarrow> call_status \<Rightarrow> StatusReply \<Rightarrow> string" where
  "GetStatusReplyString debug status rep =
     (case status of
        CallFailed code msg \<Rightarrow> rpc_failed '''' code msg
      | CallOk \<Rightarrow>
          if ps_status rep = Reply_SUCCESS
          then ''  msg: '' @ ps_msg rep @ [CHR 0x0A] @ ''  found '' @ string_of_nat (length (ps_partitions rep)) @
               '' partition(s)'' @ (if length (ps_partitions rep) > 0 then '':'' else '''') @ [CHR 0x0A] @
               concat (map partition_text (ps_partitions rep)) @
               ''  execution time: '' @ i32_text (ps_exectime rep) @ ''ms'' @ [CHR 0x0A]
          else ''Status: '' @ debug rep)"

definition reply_text :: "(GeneralReply \<Rightarrow> string) \<Rightarrow> call_status \<Rightarrow> grpc_reply \<Rightarrow> string" where
  "reply_text debug status rep =
     (case rep of RGeneral r \<Rightarrow> GetGeneralReplyString debug status r | RState r \<Rightarrow> GetStateReplyString debug status r)"

section \<open>Client and service\<close>

text \<open>What becomes of the timeout on the way from the client's parameters to the controller's.\<close>

definition wire_timeout :: "u64 \<Rightarrow> u64" where
  "wire_timeout t = scast (ucast t :: u32)"

lemma wire_timeout_sint: "sint (wire_timeout t) = (uint t + 2 ^ 31) mod 2 ^ 32 - 2 ^ 31"
proof -
  have "sint (wire_timeout t) = sint (ucast t :: u32)"
    unfolding wire_timeout_def by (simp add: sint_up_scast is_up)
  also have "\<dots> = signed_take_bit 31 (uint t)"
    by (simp add: sint_uint uint_up_ucast unsigned_ucast_eq signed_take_bit_take_bit)
  also have "\<dots> = (uint t + 2 ^ 31) mod 2 ^ 32 - 2 ^ 31"
    by (simp add: signed_take_bit_eq_take_bit_shift take_bit_eq_mod)
  finally show ?thesis .
qed

lemma request_common_client:
  "request_common (client_request common r) = common\<lparr>cp_timeout := wire_timeout (cp_timeout common)\<rparr>"
  by (cases r) (simp_all add: common_params_def updateCommonParams_def CommonRequest.defs state_request_def updateRequest_def
      wire_timeout_def)

definition sent_request :: "request \<Rightarrow> request" where
  "sent_request r = (case r of ReqUpdate p \<Rightarrow> ReqUpdate \<lparr>up_topoFile = up_topoFile p, up_topoContent = '''', up_topoScript = ''''\<rparr> | _ \<Rightarrow> r)"

lemma core_request_client: "core_request (client_request common r) = sent_request r"
  by (cases r) (simp_all add: updateCommonParams_def CommonRequest.defs state_request_def updateRequest_def sent_request_def
      device_params_def case_prod_beta)

lemma serve_client:
  "serve E order (client_request common r) w
   = (if stateful_request (client_request common r)
      then stateful E order (exec E (common\<lparr>cp_timeout := wire_timeout (cp_timeout common)\<rparr>) (sent_request r) w)
      else general E order (exec E (common\<lparr>cp_timeout := wire_timeout (cp_timeout common)\<rparr>) (sent_request r) w))"
  by (simp add: serve_exec request_common_client core_request_client)

lemma wire_timeout_small: "t < 2 ^ 31 \<Longrightarrow> wire_timeout t = t"
proof -
  assume t: "t < 2 ^ 31"
  then have u: "uint t < 2 ^ 31" by (simp add: word_less_def)
  have "sint (wire_timeout t) = uint t" using u by (simp add: wire_timeout_sint)
  moreover have "sint t = uint t"
  proof -
    have "- (2 ^ 63) \<le> uint t" by (rule order.trans [OF _ uint_ge_0]) simp
    moreover have "uint t < 2 ^ 63" using u by simp
    ultimately show ?thesis by (simp add: sint_uint signed_take_bit_int_eq_self)
  qed
  ultimately have "sint (wire_timeout t) = sint t" by simp
  then show ?thesis by (rule signed_word_eqI)
qed

lemma client_exec:
  assumes "cp_timeout common < 2 ^ 31"
    and "\<And>p. r = ReqUpdate p \<Longrightarrow> up_topoContent p = '''' \<and> up_topoScript p = ''''"
  shows "map_option (\<lambda>(rep, w). (general_part rep, w)) (serve E order (client_request common r) w)
       = map_option (\<lambda>(res, w). (setupGeneralReply (en_StateName E) order res empty_reply, w)) (exec E common r w)"
proof -
  have "sent_request r = r" using assms(2) by (auto simp: sent_request_def split: request.split)
  then show ?thesis
    by (cases "exec E common r w") (auto simp: serve_client wire_timeout_small [OF assms(1)] general_def stateful_def
        setupStateReply_def)
qed



text \<open>
  An update sent through the client loses the topology content and the script: with a topology that is given
  by its content or by a script the service always answers with the error of a failed topology, whatever
  the state of the partition.
\<close>
theorem client_update_loses_content:
  assumes "up_topoFile p = ''''"
  shows "\<exists>r w'. serve E order (client_request common (ReqUpdate p)) w = Some (r, w') \<and>
    p_status (general_part r) = Reply_ERROR \<and>
    map_option ge_code (p_error (general_part r)) = Some (of_nat (ErrorCode_value TopologyFailed))"
proof -
  let ?common = "common\<lparr>cp_timeout := wire_timeout (cp_timeout common)\<rparr>"
  obtain res w' where e: "execUpdate E ?common \<lparr>up_topoFile = '''', up_topoContent = '''', up_topoScript = ''''\<rparr> w = Some (res, w')"
    "rr_statusCode res = Status_error" "mCode (rr_error res) = Some TopologyFailed"
    by (simp add: execUpdate_def load_topology_def topoFilepath_def fillAndLogFatalError_def ok_so_far_def MakeErrorCode_def
        finish_def createRequestResult_def status_of_def Let_def)
  have "serve E order (client_request common (ReqUpdate p)) w = general E order (exec E ?common (sent_request (ReqUpdate p)) w)"
    unfolding serve_client by simp
  also have "\<dots> = Some (RGeneral (setupGeneralReply (en_StateName E) order res empty_reply), w')"
    using assms e(1) by (simp add: sent_request_def general_def)
  finally show ?thesis
    using e(2,3) by (simp add: setupGeneralReply_def newError_def empty_reply_def Let_def)
qed



theorem client_update_loses_content_witness:
  "\<exists>r w'. serve sample_env (\<lambda>_. []) (client_request sample_common
      (ReqUpdate \<lparr>up_topoFile = '''', up_topoContent = ''<topology/>'', up_topoScript = ''''\<rparr>)) sample_world = Some (r, w') \<and>
    p_status (general_part r) = Reply_ERROR"
  using client_update_loses_content [of "\<lparr>up_topoFile = '''', up_topoContent = ''<topology/>'', up_topoScript = ''''\<rparr>"
      sample_env "\<lambda>_. []" sample_common sample_world] by auto

end
