(* ===== verification/Cli.thy ===== *)
theory Cli
  imports Grpc_Client
begin

text \<open>
  The command line of ODC: \<^verbatim>\<open>src/odc/CliHelper.h\<close> (options of the commands and how they are read),
  \<^verbatim>\<open>src/odc/CliControllerHelper.h\<close> (dispatch of the commands, batches, completion) and
  \<^verbatim>\<open>src/odc/CliController.h\<close> (the commands run on a controller in the same process). Parameters: Boost's
  option parser, its splitting of a command into arguments, the files of batch commands, and the owner of
  the helper, which runs the requests. What is printed is recorded as data, not as text, except for the
  replies.
\<close>

section \<open>Options\<close>

datatype opt_value = OString string | ONumber u64 | OStrings "string list" | OFlag bool

datatype opt_kind = KString | KNumber | KStrings | KSwitch

text \<open>The default is the value of an option that is not given, the implicit one of an option given without a value.\<close>

record opt_decl =
  od_name :: string
  od_kind :: opt_kind
  od_default :: "opt_value option"
  od_implicit :: "opt_value option"

type_synonym variables_map = "string \<Rightarrow> opt_value option"

definition opt :: "string \<Rightarrow> opt_kind \<Rightarrow> opt_value option \<Rightarrow> opt_value option \<Rightarrow> opt_decl" where
  "opt n k d i = \<lparr>od_name = n, od_kind = k, od_default = d, od_implicit = i\<rparr>"

text \<open>\<^verbatim>\<open>notify\<close> stores a value that is there in the variable of its option.\<close>

definition vm_string :: "variables_map \<Rightarrow> string \<Rightarrow> string \<Rightarrow> string" where
  "vm_string vm n old = (case vm n of Some (OString s) \<Rightarrow> s | _ \<Rightarrow> old)"

definition vm_number :: "variables_map \<Rightarrow> string \<Rightarrow> u64 \<Rightarrow> u64" where
  "vm_number vm n old = (case vm n of Some (ONumber w) \<Rightarrow> w | _ \<Rightarrow> old)"

definition vm_flag :: "variables_map \<Rightarrow> string \<Rightarrow> bool \<Rightarrow> bool" where
  "vm_flag vm n old = (case vm n of Some (OFlag b) \<Rightarrow> b | _ \<Rightarrow> old)"

definition vm_strings :: "variables_map \<Rightarrow> string \<Rightarrow> string list" where
  "vm_strings vm n = (case vm n of Some (OStrings l) \<Rightarrow> l | _ \<Rightarrow> [])"

definition common_options :: "opt_decl list" where
  "common_options = [opt ''id'' KString (Some (OString '''')) None, opt ''run'' KNumber (Some (ONumber 0)) None,
     opt ''timeout'' KNumber (Some (ONumber 0)) None]"

definition read_common :: "variables_map \<Rightarrow> CommonParams" where
  "read_common vm = \<lparr>cp_partitionID = vm_string vm ''id'' '''', cp_runNr = vm_number vm ''run'' 0,
     cp_timeout = vm_number vm ''timeout'' 0\<rparr>"

definition topology_options :: "opt_decl list" where
  "topology_options = [opt ''topo'' KString None (Some (OString '''')), opt ''content'' KString None (Some (OString '''')),
     opt ''script'' KString None (Some (OString ''''))]"

definition update_options :: "opt_decl list" where
  "update_options = [opt ''topo'' KString None None, opt ''content'' KString None None,
     opt ''script'' KString None (Some (OString ''''))]"

definition submit_options :: "opt_decl list" where
  "submit_options = [opt ''plugin,p'' KString None None, opt ''resources,r'' KString None None]"

definition run_options :: "opt_decl list" where
  "run_options = submit_options @ topology_options @ [opt ''extract-topo-resources'' KSwitch (Some (OFlag False)) None]"

definition device_options :: "opt_decl list" where
  "device_options = [opt ''path'' KString (Some (OString '''')) None, opt ''detailed'' KSwitch (Some (OFlag False)) None]"

definition properties_options :: "opt_decl list" where
  "properties_options = [opt ''prop'' KStrings None None, opt ''path'' KString (Some (OString '''')) None]"

definition batch_options :: "opt_decl list" where
  "batch_options = [opt ''cmds'' KStrings None None, opt ''cf'' KString None None]"

definition read_device :: "variables_map \<Rightarrow> DeviceParams" where
  "read_device vm = \<lparr>dp_path = vm_string vm ''path'' '''', dp_detailed = vm_flag vm ''detailed'' False\<rparr>"

text \<open>The values of \<^verbatim>\<open>--prop\<close>.\<close>

fun parse_props :: "string list \<Rightarrow> exn + (string \<times> string) list" where
  "parse_props [] = Inr []"
| "parse_props (v # vs) =
     (case split_at (CHR '':'') v of
        [key, val] \<Rightarrow> (case parse_props vs of Inl e \<Rightarrow> Inl e | Inr ps \<Rightarrow> Inr ((key, val) # ps))
      | _ \<Rightarrow> Inl (RuntimeError (''Wrong property format for string '' @ [CHR 0x27] @ v @ [CHR 0x27] @ ''. Use '' @
               [CHR 0x27] @ ''key:value'' @ [CHR 0x27] @ ''.'')))"

definition read_properties :: "variables_map \<Rightarrow> exn + SetPropertiesParams" where
  "read_properties vm =
     (case (if vm ''prop'' \<noteq> None then parse_props (vm_strings vm ''prop'') else Inr []) of
        Inl e \<Rightarrow> Inl e
      | Inr ps \<Rightarrow> Inr \<lparr>spp_path = vm_string vm ''path'' '''', spp_properties = ps\<rparr>)"

text \<open>\<^verbatim>\<open>--rp name:command\<close>: the name ends at the first colon, and the first entry of a name is kept.\<close>

fun plugin_entries :: "string list \<Rightarrow> PluginMap \<Rightarrow> PluginMap \<times> exn option" where
  "plugin_entries [] m = (m, None)"
| "plugin_entries (v # vs) m =
     (if CHR '':'' \<in> set v
      then let (name, cmd) = split_first (CHR '':'') v in plugin_entries vs (smap_emplace name cmd m)
      else (m, Some (RuntimeError (''Wrong plugin map format for string '' @ quoted v @ ''. Use '' @ quoted ''name:value''))))"

definition parsePluginMapOptions :: "variables_map \<Rightarrow> string \<Rightarrow> PluginMap \<times> exn option" where
  "parsePluginMapOptions vm option = (if vm option \<noteq> None then plugin_entries (vm_strings vm option) [] else ([], None))"

definition getCmds :: "(string \<Rightarrow> string option) \<Rightarrow> string \<Rightarrow> exn + string list" where
  "getCmds files filepath =
     (case files filepath of
        None \<Rightarrow> Inl (RuntimeError (''Failed to open commands file '' @ quoted filepath))
      | Some content \<Rightarrow> Inr (filter (\<lambda>line. length line > 0) (split_at (CHR 0x0A) content)))"

definition batchCmds :: "(string \<Rightarrow> string option) \<Rightarrow> variables_map \<Rightarrow> bool \<Rightarrow> exn + string list" where
  "batchCmds files vm batch =
     (if vm ''cmds'' \<noteq> None \<and> vm ''cf'' \<noteq> None
      then Inl (RuntimeError ''Only --cmds OR --cf can be specified at the same time, not both.'')
      else if batch
      then if vm ''cmds'' \<noteq> None then Inr (vm_strings vm ''cmds'')
           else if vm ''cf'' \<noteq> None then getCmds files (vm_string vm ''cf'' '''')
           else Inr []
      else Inr [])"

section \<open>Commands\<close>

datatype cli_output =
    Executing string | ParseError string | Sending string CommonParams request | SendingStatus bool | Reply string
  | Unknown string | PrintedHelp | Description | Sleeping u64

record 'w cli_env =
  po_split :: "string \<Rightarrow> exn + string list"
  po_parse :: "opt_decl list \<Rightarrow> string list \<Rightarrow> exn + variables_map"
  po_files :: "string \<Rightarrow> string option"
  ow_request :: "CommonParams \<Rightarrow> request \<Rightarrow> 'w \<Rightarrow> ((exn + string) \<times> 'w) option"
  ow_status :: "bool \<Rightarrow> 'w \<Rightarrow> exn + string"

record 'w cli =
  cl_owner :: 'w
  cl_out :: "cli_output list"

definition say :: "cli_output \<Rightarrow> 'w cli \<Rightarrow> 'w cli" where
  "say x s = s\<lparr>cl_out := cl_out s @ [x]\<rparr>"

text \<open>How the program goes on after a command.\<close>

datatype flow = Continue | Exit | Throws exn

text \<open>The options of a command besides the common ones, and how its request is read.\<close>

definition request_table :: "(string \<times> string \<times> opt_decl list \<times> (variables_map \<Rightarrow> exn + request)) list" where
  "request_table =
    [(''.init'', ''Initialize'', [opt ''sid'' KString (Some (OString '''')) None],
        \<lambda>vm. Inr (ReqInitialize \<lparr>ip_ddsSessionID = vm_string vm ''sid'' ''''\<rparr>)),
     (''.submit'', ''Submit'', submit_options,
        \<lambda>vm. Inr (ReqSubmit \<lparr>sp_plugin = vm_string vm ''plugin'' '''', sp_resources = vm_string vm ''resources'' ''''\<rparr>)),
     (''.activate'', ''Activate'', topology_options,
        \<lambda>vm. Inr (ReqActivate \<lparr>ap_topoFile = vm_string vm ''topo'' '''', ap_topoContent = vm_string vm ''content'' '''',
               ap_topoScript = vm_string vm ''script'' ''''\<rparr>)),
     (''.run'', ''Run'', run_options,
        \<lambda>vm. Inr (ReqRun \<lparr>rp_plugin = vm_string vm ''plugin'' '''', rp_resources = vm_string vm ''resources'' '''',
               rp_topoFile = vm_string vm ''topo'' '''', rp_topoContent = vm_string vm ''content'' '''',
               rp_topoScript = vm_string vm ''script'' '''',
               rp_extractTopoResources = vm_flag vm ''extract-topo-resources'' False\<rparr>)),
     (''.upscale'', ''Upscale'', update_options,
        \<lambda>vm. Inr (ReqUpdate \<lparr>up_topoFile = vm_string vm ''topo'' '''', up_topoContent = vm_string vm ''content'' '''',
               up_topoScript = vm_string vm ''script'' ''''\<rparr>)),
     (''.downscale'', ''Downscale'', update_options,
        \<lambda>vm. Inr (ReqUpdate \<lparr>up_topoFile = vm_string vm ''topo'' '''', up_topoContent = vm_string vm ''content'' '''',
               up_topoScript = vm_string vm ''script'' ''''\<rparr>)),
     (''.config'', ''Configure'', device_options, \<lambda>vm. Inr (ReqConfigure (read_device vm))),
     (''.state'', ''GetState'', device_options, \<lambda>vm. Inr (ReqGetState (read_device vm))),
     (''.prop'', ''SetProperties'', properties_options, \<lambda>vm. bind_exn (read_properties vm) (\<lambda>p. Inr (ReqSetProperties p))),
     (''.start'', ''Start'', device_options, \<lambda>vm. Inr (ReqStart (read_device vm))),
     (''.stop'', ''Stop'', device_options, \<lambda>vm. Inr (ReqStop (read_device vm))),
     (''.reset'', ''Reset'', device_options, \<lambda>vm. Inr (ReqReset (read_device vm))),
     (''.term'', ''Terminate'', device_options, \<lambda>vm. Inr (ReqTerminate (read_device vm))),
     (''.down'', ''Shutdown'', [], \<lambda>vm. Inr ReqShutdown)]"

definition help_option :: opt_decl where
  "help_option = opt ''help,h'' KSwitch None None"

text \<open>\<^verbatim>\<open>parseCommand\<close>: \<open>None\<close> when help was asked for and printed.\<close>

definition parseCommand :: "('w, 'z) cli_env_scheme \<Rightarrow> opt_decl list \<Rightarrow> (variables_map \<Rightarrow> exn + 'r) \<Rightarrow> string list \<Rightarrow> exn + 'r option" where
  "parseCommand C options read args =
     bind_exn (po_parse C (help_option # options) args) (\<lambda>vm.
     bind_exn (read vm) (\<lambda>r. Inr (if vm ''help'' \<noteq> None then None else Some r)))"

definition show_reply :: "string \<Rightarrow> 'w cli \<Rightarrow> 'w cli" where
  "show_reply r s = (if r = [] then s else say (Reply r) s)"

definition request_cmd ::
  "('w, 'z) cli_env_scheme \<Rightarrow> string \<Rightarrow> opt_decl list \<Rightarrow> (variables_map \<Rightarrow> exn + request) \<Rightarrow> string list \<Rightarrow> 'w cli \<Rightarrow> 'w cli option" where
  "request_cmd C name options read args s =
     (case parseCommand C (common_options @ options) (\<lambda>vm. bind_exn (read vm) (\<lambda>r. Inr (read_common vm, r))) args of
        Inl e \<Rightarrow> Some (say (ParseError (what e)) s)
      | Inr None \<Rightarrow> Some (say PrintedHelp s)
      | Inr (Some (common, r)) \<Rightarrow>
          let s1 = say (Sending name common r) s in
          (case ow_request C common r (cl_owner s1) of
             None \<Rightarrow> None
           | Some (Inl e, w) \<Rightarrow> Some (say (ParseError (what e)) (s1\<lparr>cl_owner := w\<rparr>))
           | Some (Inr text, w) \<Rightarrow> Some (show_reply text (s1\<lparr>cl_owner := w\<rparr>))))"

definition status_cmd :: "('w, 'z) cli_env_scheme \<Rightarrow> string list \<Rightarrow> 'w cli \<Rightarrow> 'w cli" where
  "status_cmd C args s =
     (case parseCommand C [opt ''running'' KSwitch (Some (OFlag False)) None] (\<lambda>vm. Inr (vm_flag vm ''running'' False)) args of
        Inl e \<Rightarrow> say (ParseError (what e)) s
      | Inr None \<Rightarrow> say PrintedHelp s
      | Inr (Some running) \<Rightarrow>
          let s1 = say (SendingStatus running) s in
          (case ow_status C running (cl_owner s1) of
             Inl e \<Rightarrow> say (ParseError (what e)) s1 | Inr text \<Rightarrow> show_reply text s1))"

definition execSleep :: "('w, 'z) cli_env_scheme \<Rightarrow> string list \<Rightarrow> 'w cli \<Rightarrow> 'w cli" where
  "execSleep C args s =
     (case parseCommand C [opt ''ms'' KNumber (Some (ONumber 1000)) None] (\<lambda>vm. Inr (vm_number vm ''ms'' 1000)) args of
        Inl e \<Rightarrow> say (ParseError (what e)) s
      | Inr None \<Rightarrow> say PrintedHelp s
      | Inr (Some ms) \<Rightarrow> if ms > 0 then say (Sleeping ms) s else s)"

text \<open>\<^verbatim>\<open>execBatch\<close> up to the commands to run; what is thrown here is not caught.\<close>

definition batch_commands :: "('w, 'z) cli_env_scheme \<Rightarrow> string list \<Rightarrow> exn + string list option" where
  "batch_commands C args = parseCommand C batch_options (\<lambda>vm. batchCmds (po_files C) vm True) args"

text \<open>A command other than a batch, with its arguments.\<close>

definition run_command :: "('w, 'z) cli_env_scheme \<Rightarrow> string \<Rightarrow> string list \<Rightarrow> 'w cli \<Rightarrow> 'w cli option" where
  "run_command C command args s =
     (let cmd = (if args = [] then '''' else hd args) in
      case map_of request_table cmd of
        Some (name, options, read) \<Rightarrow> request_cmd C name options read args s
      | None \<Rightarrow>
          if cmd = ''.status'' then Some (status_cmd C args s)
          else if cmd = ''.sleep'' then Some (execSleep C args s)
          else if cmd = ''.help'' then Some (say Description s)
          else if length cmd > 0 then Some (say (Unknown command) s)
          else Some s)"

definition is_batch :: "string list \<Rightarrow> bool" where
  "is_batch args \<longleftrightarrow> args \<noteq> [] \<and> hd args = ''.batch''"

text \<open>
  One command of \<^verbatim>\<open>processRequest\<close> up to the recursive call: the program ends with it, or goes on with the
  next command, or with those of a batch before it.
\<close>

datatype after = Ends flow | Goes_on | Runs "string list"

definition step_command :: "('w, 'z) cli_env_scheme \<Rightarrow> string \<Rightarrow> 'w cli \<Rightarrow> (after \<times> 'w cli) option" where
  "step_command C command s =
     (if command = ''.quit'' then Some (Ends Exit, s)
      else case po_split C command of
        Inl e \<Rightarrow> Some (Ends (Throws e), s)
      | Inr args \<Rightarrow>
         if is_batch args
         then (case batch_commands C args of
                 Inl e \<Rightarrow> Some (Ends (Throws e), s)
               | Inr None \<Rightarrow> Some (Goes_on, say PrintedHelp s)
               | Inr (Some cs) \<Rightarrow> Some (Runs cs, s))
         else map_option (\<lambda>s1. (Goes_on, s1)) (run_command C command args s))"

text \<open>
  \<^verbatim>\<open>execCmds\<close> and \<^verbatim>\<open>processRequest\<close> call each other; \<open>None\<close> is a call that does not return. The flag says
  whether the commands are announced, as those of a batch are.
\<close>

partial_function (option) execCmds :: "('w, 'z) cli_env_scheme \<Rightarrow> bool \<Rightarrow> string list \<Rightarrow> 'w cli \<Rightarrow> (flow \<times> 'w cli) option" where
  "execCmds C announce cmds s =
     (case cmds of
        [] \<Rightarrow> Some (Continue, s)
      | command # rest \<Rightarrow>
         Option.bind (step_command C command (if announce then say (Executing command) s else s)) (\<lambda>(n, s1).
           case n of
             Ends f \<Rightarrow> Some (f, s1)
           | Goes_on \<Rightarrow> execCmds C announce rest s1
           | Runs cs \<Rightarrow> Option.bind (execCmds C True cs s1)
               (\<lambda>(f, s2). if f = Continue then execCmds C announce rest s2 else Some (f, s2))))"

declare execCmds.simps [code]

definition processRequest :: "('w, 'z) cli_env_scheme \<Rightarrow> string \<Rightarrow> 'w cli \<Rightarrow> (flow \<times> 'w cli) option" where
  "processRequest C command s = execCmds C False [command] s"

definition trim_right :: "string \<Rightarrow> string" where
  "trim_right s = rev (dropWhile is_space (rev s))"

text \<open>The program: the given commands, or the lines typed until the end of the input, and then it exits.\<close>

definition cli_run :: "('w, 'z) cli_env_scheme \<Rightarrow> string list \<Rightarrow> string list \<Rightarrow> 'w cli \<Rightarrow> (flow \<times> 'w cli) option" where
  "cli_run C cmds typed s =
     (if cmds = [] then execCmds C False (map trim_right typed) s
      else Option.bind (execCmds C True cmds s) (\<lambda>(f, s1). Some (if f = Continue then Exit else f, s1)))"

subsection \<open>Completion\<close>

definition commands :: "string list" where
  "commands = [''.quit'', ''.init'', ''.submit'', ''.activate'', ''.run'', ''.prop'', ''.upscale'', ''.downscale'', ''.state'',
     ''.config'', ''.start'', ''.stop'', ''.reset'', ''.term'', ''.down'', ''.status'', ''.batch'', ''.sleep'', ''.help'']"

text \<open>The generator fills its static list of matches at index 0 and gives the match at the index.\<close>

definition commandGenerator :: "string \<Rightarrow> nat \<Rightarrow> string list \<Rightarrow> string option \<times> string list" where
  "commandGenerator text index matches =
     (let matches1 = (if index = 0 then filter (\<lambda>cmd. take (length text) cmd = text) commands else matches)
      in (if index < length matches1 then Some (matches1 ! index) else None, matches1))"

section \<open>The owner\<close>

text \<open>\<^verbatim>\<open>CliController\<close>: the request is run on the controller and its result printed.\<close>

definition newline :: string where
  "newline = [CHR 0x0A]"

definition outcome_text :: "'r BaseRequestResult_scheme \<Rightarrow> string" where
  "outcome_text res =
     (if rr_statusCode res = Status_ok
      then ''  Status code: SUCCESS'' @ newline @ ''  Message: '' @ rr_msg res @ newline
      else let (code, message) = (case mCode (rr_error res) of
                 None \<Rightarrow> (0, ''Success'') | Some ec \<Rightarrow> (ErrorCode_value ec, ErrorCategory_message (ErrorCode_value ec)))
           in ''  Status code: ERROR'' @ newline @ ''  Error code: '' @ string_of_nat code @ newline @ ''  Error message: '' @
              message @ '' ('' @ mDetails (rr_error res) @ '')'' @ newline)"

definition task_text :: "(mq_state \<Rightarrow> string) \<Rightarrow> DetailedTaskStatus \<Rightarrow> string" where
  "task_text names st =
     ''    ID: '' @ u64_text (ds_taskId (dt_status st)) @ ''; path: '' @ dt_path st @ ''; state: '' @ names (ds_state (dt_status st)) @
     ''; ignored: '' @ bool_text (ds_ignored (dt_status st)) @ ''; expendable: '' @ bool_text (ds_expendable (dt_status st)) @
     ''; host: '' @ dt_host st @ newline"

definition generalReply :: "(mq_state \<Rightarrow> string) \<Rightarrow> (string set \<Rightarrow> string list) \<Rightarrow> RequestResult \<Rightarrow> string" where
  "generalReply names order res =
     outcome_text res @
     ''  Aggregated state: '' @ GetAggregatedStateName names (aggregated (rr_topologyState res)) @ newline @
     ''  Partition ID: '' @ rr_partitionID res @ newline @
     ''  Run Nr: '' @ u64_text (rr_runNr res) @ newline @
     ''  Session ID: '' @ rr_ddsSessionID res @ newline @
     (if order (rr_hosts res) = [] then '''' else ''  Hosts:'' @ newline @ ''    '' @ join_with '', '' (order (rr_hosts res)) @ newline) @
     (case detailed (rr_topologyState res) of
        None \<Rightarrow> '''' | Some ds \<Rightarrow> newline @ ''  Devices:'' @ newline @ concat (map (task_text names) ds) @ newline) @
     ''  Execution time: '' @ string_of_int (rr_execTime res) @ '' msec'' @ newline"

definition session_text :: "(mq_state \<Rightarrow> string) \<Rightarrow> PartitionStatus \<Rightarrow> string" where
  "session_text names p =
     ''    ID: '' @ pst_partitionID p @ ''; session ID: '' @ pst_ddsSessionID p @ ''; status: '' @
     (if pst_ddsSessionStatus p = DDS_running then ''RUNNING'' else ''STOPPED'') @
     ''; state: '' @ GetAggregatedStateName names (pst_aggregatedState p) @ newline"

definition statusReply :: "(mq_state \<Rightarrow> string) \<Rightarrow> StatusRequestResult \<Rightarrow> string" where
  "statusReply names res =
     outcome_text res @ ''  Partitions:'' @ newline @ concat (map (session_text names) (rr_partitions res)) @
     ''  Execution time: '' @ string_of_int (rr_execTime res) @ '' msec'' @ newline"

definition cli_controller ::
  "('d, 'p) env \<Rightarrow> (string set \<Rightarrow> string list) \<Rightarrow> (string \<Rightarrow> exn + string list) \<Rightarrow>
     (opt_decl list \<Rightarrow> string list \<Rightarrow> exn + variables_map) \<Rightarrow> (string \<Rightarrow> string option) \<Rightarrow> 'd world cli_env" where
  "cli_controller E order split parse files =
     \<lparr>po_split = split, po_parse = parse, po_files = files,
      ow_request = (\<lambda>common r w. map_option (\<lambda>(res, w'). (Inr (generalReply (en_StateName E) order res), w')) (exec E common r w)),
      ow_status = (\<lambda>running w. Inr (statusReply (en_StateName E) (execStatus E \<lparr>stp_running = running\<rparr> w)))\<rparr>"

section \<open>Batches end\<close>

lemma execCmds_Nil [simp]: "execCmds C a [] s = Some (Continue, s)"
  by (simp add: execCmds.simps)

lemma run_command_returns:
  assumes "\<And>common r w. ow_request C common r w \<noteq> None"
  shows "\<exists>s'. run_command C command args s = Some s'"
proof -
  have "\<exists>s'. request_cmd C name options read args s = Some s'" for name options read
  proof -
    have "\<exists>s'. (case ow_request C common r w of None \<Rightarrow> None | Some (Inl e, w) \<Rightarrow> Some (f e w) | Some (Inr t, w) \<Rightarrow> Some (g t w)) = Some s'"
      for common r w and f g :: "_ \<Rightarrow> _ \<Rightarrow> 'a cli"
      using assms [of common r w] by (auto split: sum.split)
    then show ?thesis by (auto simp: request_cmd_def Let_def split: sum.split option.split)
  qed
  then show ?thesis by (auto simp: run_command_def Let_def split: option.split)
qed

text \<open>The commands a command leads to, if it is a batch.\<close>

definition leads_to :: "('w, 'z) cli_env_scheme \<Rightarrow> string \<Rightarrow> string list \<Rightarrow> bool" where
  "leads_to C command cs \<longleftrightarrow> (\<exists>args. po_split C command = Inr args \<and> is_batch args \<and> batch_commands C args = Inr (Some cs))"

lemma step_command_returns:
  assumes "\<And>common r w. ow_request C common r w \<noteq> None"
  shows "\<exists>n s'. step_command C command s = Some (n, s')"
proof -
  have "\<exists>s'. run_command C command args s = Some s'" for args by (rule run_command_returns [OF assms])
  then show ?thesis by (force simp: step_command_def split: sum.split option.split)
qed

lemma step_command_Runs: "step_command C command s = Some (Runs cs, s') \<Longrightarrow> leads_to C command cs"
  by (auto simp: step_command_def leads_to_def split: if_splits sum.splits option.splits)

lemma leads_to_step: "leads_to C c cs \<Longrightarrow> c \<noteq> ''.quit'' \<Longrightarrow> step_command C c s = Some (Runs cs, s)"
  by (auto simp: step_command_def leads_to_def)

lemma execCmds_returns:
  assumes ow: "\<And>common r w. ow_request C common r w \<noteq> None"
    and rank: "\<And>command cs c. leads_to C command cs \<Longrightarrow> c \<in> set cs \<Longrightarrow> rank c < (rank command :: nat)"
  shows "\<forall>c \<in> set cmds. rank c < n \<Longrightarrow> \<exists>r. execCmds C a cmds s = Some r"
proof (induction n arbitrary: a cmds s)
  case (Suc n)
  show ?case using Suc.prems
  proof (induction cmds arbitrary: s)
    case (Cons c cmds)
    have rest: "\<exists>r. execCmds C a cmds s = Some r" for s using Cons by simp
    obtain m s1 where step: "step_command C c (if a then say (Executing c) s else s) = Some (m, s1)"
      using step_command_returns [OF ow] by blast
    have nested: "\<exists>r. execCmds C True cs s1 = Some r" if "m = Runs cs" for cs
    proof (rule Suc.IH)
      have "leads_to C c cs" using step that by (auto dest: step_command_Runs)
      then show "\<forall>d \<in> set cs. rank d < n" using rank Cons.prems by fastforce
    qed
    show ?case
    proof (cases m)
      case (Runs cs)
      then obtain f s2 where "execCmds C True cs s1 = Some (f, s2)" using nested by fastforce
      then show ?thesis using rest [of s2] Runs by (simp add: execCmds.simps [of _ _ "c # cmds"] step)
    qed (use rest [of s1] in \<open>simp_all add: execCmds.simps [of _ _ "c # cmds"] step\<close>)
  qed simp
qed simp

lemma execCmds_cycle:
  assumes "execCmds C a cmds s = Some y" and "leads_to C c (c # cs)" "c \<noteq> ''.quit''"
  shows "cmds = [] \<or> hd cmds \<noteq> c"
proof -
  let ?P = "\<lambda>C' a cmds s y. C' = C \<longrightarrow> cmds = [] \<or> hd cmds \<noteq> c"
  have "?P C a cmds s y"
  proof (rule execCmds.raw_induct [where P = ?P, OF _ assms(1)], intro impI)
    fix f :: "('a, 'b) cli_env_scheme \<Rightarrow> bool \<Rightarrow> string list \<Rightarrow> 'a cli \<Rightarrow> (flow \<times> 'a cli) option"
      and C' :: "('a, 'b) cli_env_scheme" and a cmds s y
    assume ih: "\<And>C' a cmds s y. f C' a cmds s = Some y \<Longrightarrow> ?P C' a cmds s y" and C: "C' = C"
    assume f: "(case cmds of
        [] \<Rightarrow> Some (Continue, s)
      | command # rest \<Rightarrow>
         Option.bind (step_command C' command (if a then say (Executing command) s else s)) (\<lambda>(n, s1).
           case n of
             Ends f \<Rightarrow> Some (f, s1)
           | Goes_on \<Rightarrow> f C' a rest s1
           | Runs cs \<Rightarrow> Option.bind (f C' True cs s1)
               (\<lambda>(fl, s2). if fl = Continue then f C' a rest s2 else Some (fl, s2)))) = Some y"
    have "f C True (c # cs) s1 = None" for s1
      using ih [of C True "c # cs" s1] by (cases "f C True (c # cs) s1") auto
    then show "cmds = [] \<or> hd cmds \<noteq> c"
      using f leads_to_step [OF assms(2,3)] by (cases cmds) (auto simp: C)
  qed
  then show ?thesis by blast
qed

text \<open>
  Running commands ends whenever the requests return and the batches do not lead back to themselves, that is,
  the nesting of batches is well-founded; a batch whose first command is that batch again never ends.
\<close>
theorem batches_end:
  assumes "\<And>common r w. ow_request C common r w \<noteq> None"
  shows "((\<exists>rank. \<forall>command cs. leads_to C command cs \<longrightarrow> (\<forall>c \<in> set cs. rank c < (rank command :: nat))) \<longrightarrow>
      (\<exists>r. execCmds C a cmds s = Some r)) \<and>
    (\<forall>c cs rest. leads_to C c (c # cs) \<and> c \<noteq> ''.quit'' \<longrightarrow> execCmds C a (c # rest) s = None)"
proof (intro conjI impI allI)
  assume "\<exists>rank. \<forall>command cs. leads_to C command cs \<longrightarrow> (\<forall>c \<in> set cs. rank c < (rank command :: nat))"
  then obtain rank where r: "\<And>command cs c. leads_to C command cs \<Longrightarrow> c \<in> set cs \<Longrightarrow> rank c < (rank command :: nat)" by blast
  show "\<exists>r. execCmds C a cmds s = Some r"
  proof (rule execCmds_returns)
    show "\<forall>c \<in> set cmds. rank c < Suc (Max (insert 0 (rank ` set cmds)))" by (simp add: less_Suc_eq_le)
  qed (fact assms, fact r)
next
  fix c cs rest
  assume "leads_to C c (c # cs) \<and> c \<noteq> ''.quit''"
  then show "execCmds C a (c # rest) s = None"
    using execCmds_cycle [of C a "c # rest" s _ c cs] by (cases "execCmds C a (c # rest) s") auto
qed

section \<open>The two command-line programs\<close>

text \<open>\<^verbatim>\<open>GrpcClient\<close> as an owner: the service runs the request, and its reply is shown.\<close>

definition grpc_client ::
  "('d, 'p) env \<Rightarrow> (string set \<Rightarrow> string list) \<Rightarrow> (GeneralReply \<Rightarrow> string) \<Rightarrow> (StatusReply \<Rightarrow> string) \<Rightarrow>
     (string \<Rightarrow> exn + string list) \<Rightarrow> (opt_decl list \<Rightarrow> string list \<Rightarrow> exn + variables_map) \<Rightarrow> (string \<Rightarrow> string option) \<Rightarrow>
     'd world cli_env" where
  "grpc_client E order debug sdebug split parse files =
     \<lparr>po_split = split, po_parse = parse, po_files = files,
      ow_request = (\<lambda>common r w. map_option (\<lambda>(rep, w'). (Inr (reply_text debug CallOk rep), w')) (serve E order (client_request common r) w)),
      ow_status = (\<lambda>running w. Inr (GetStatusReplyString sdebug CallOk (serve_Status E running w)))\<rparr>"

text \<open>
  Two owners with the same effect on the requests of a set: whatever commands are run on both, they go the same
  way, print the same but for the text of the replies, and leave their owners in the same state.
\<close>

fun hide_reply :: "cli_output \<Rightarrow> cli_output" where
  "hide_reply (Reply t) = Reply ''''"
| "hide_reply x = x"

definition same_run :: "'w cli \<Rightarrow> 'w cli \<Rightarrow> bool" where
  "same_run s t \<longleftrightarrow> cl_owner s = cl_owner t \<and> map hide_reply (cl_out s) = map hide_reply (cl_out t)"

lemma same_run_simps [simp]:
  "same_run s s" "same_run s t \<Longrightarrow> same_run (say x s) (say x t)"
  "same_run s t \<Longrightarrow> same_run (s\<lparr>cl_owner := w\<rparr>) (t\<lparr>cl_owner := w\<rparr>)"
  "same_run s t \<Longrightarrow> same_run (say (Reply a) s) (say (Reply b) t)"
  by (simp_all add: same_run_def say_def)

lemma same_run_owner: "same_run s t \<Longrightarrow> cl_owner t = cl_owner s"
  by (simp add: same_run_def)

definition prints_more :: "'w cli \<Rightarrow> 'w cli \<Rightarrow> bool" where
  "prints_more s t \<longleftrightarrow> (\<exists>xs. cl_out t = cl_out s @ xs)"

lemma prints_more_simps [simp]:
  "prints_more s s" "prints_more s (say x s)" "prints_more (s\<lparr>cl_owner := w\<rparr>) t = prints_more s t"
  "prints_more s (t\<lparr>cl_owner := w\<rparr>) = prints_more s t"
  by (simp_all add: prints_more_def say_def)

lemma prints_more_trans: "prints_more s t \<Longrightarrow> prints_more t u \<Longrightarrow> prints_more s u"
  by (auto simp: prints_more_def)

lemma prints_more_say: "prints_more s t \<Longrightarrow> prints_more s (say x t)"
  by (rule prints_more_trans [OF _ prints_more_simps(2)])

definition sends_only :: "(CommonParams \<Rightarrow> request \<Rightarrow> bool) \<Rightarrow> 'w cli \<Rightarrow> bool" where
  "sends_only safe s \<longleftrightarrow> (\<forall>n common r. Sending n common r \<in> set (cl_out s) \<longrightarrow> safe common r)"

lemma sends_only_before: "prints_more s t \<Longrightarrow> sends_only safe t \<Longrightarrow> sends_only safe s"
  by (auto simp: prints_more_def sends_only_def)

locale owners =
  fixes C1 C2 :: "'w cli_env" and safe :: "CommonParams \<Rightarrow> request \<Rightarrow> bool"
  assumes same_po: "po_split C2 = po_split C1" "po_parse C2 = po_parse C1" "po_files C2 = po_files C1"
    and same_request: "safe common r \<Longrightarrow> ow_request C1 common r w = Some (Inr t, w') \<Longrightarrow>
      t \<noteq> [] \<and> (\<exists>t2. t2 \<noteq> [] \<and> ow_request C2 common r w = Some (Inr t2, w'))"
    and no_throw: "ow_request C1 common r w = Some (x, w') \<Longrightarrow> \<exists>t. x = Inr t"
    and same_status: "\<exists>t t2. t \<noteq> [] \<and> t2 \<noteq> [] \<and> ow_status C1 running w = Inr t \<and> ow_status C2 running w = Inr t2"
begin

lemma same_parse [simp]: "parseCommand C2 = parseCommand C1" "batch_commands C2 = batch_commands C1"
  by (intro ext, simp add: parseCommand_def same_po)+ (intro ext, simp add: batch_commands_def parseCommand_def same_po)

lemma same_request_cmd:
  assumes "request_cmd C1 name options read args s = Some s'"
  shows "prints_more s s' \<and> (same_run s t \<and> sends_only safe s' \<longrightarrow>
    (\<exists>t'. request_cmd C2 name options read args t = Some t' \<and> same_run s' t'))"
proof (cases "parseCommand C1 (common_options @ options) (\<lambda>vm. bind_exn (read vm) (\<lambda>r. Inr (read_common vm, r))) args")
  case (Inr x)
  show ?thesis
  proof (cases x)
    case (Some y)
    obtain common r where y: "y = (common, r)" by fastforce
    obtain v w where ow: "ow_request C1 common r (cl_owner s) = Some (v, w)"
      using assms by (auto simp: request_cmd_def Inr Some y Let_def say_def split: option.splits)
    obtain tx where v: "v = Inr tx" using no_throw [OF ow] by blast
    have s': "s' = show_reply tx ((say (Sending name common r) s)\<lparr>cl_owner := w\<rparr>)"
      using assms ow by (simp add: request_cmd_def Inr Some y Let_def say_def v)
    have more: "prints_more s s'" by (simp add: s' show_reply_def prints_more_say)
    have "\<exists>t'. request_cmd C2 name options read args t = Some t' \<and> same_run s' t'"
      if st: "same_run s t" and safe: "sends_only safe s'"
    proof -
      have "Sending name common r \<in> set (cl_out s')" by (simp add: s' show_reply_def say_def)
      then have "safe common r" using safe unfolding sends_only_def by blast
      from same_request [OF this ow [unfolded v]] obtain t2 where t2: "tx \<noteq> []" "t2 \<noteq> []"
        "ow_request C2 common r (cl_owner s) = Some (Inr t2, w)" by blast
      then have "request_cmd C2 name options read args t
          = Some (show_reply t2 ((say (Sending name common r) t)\<lparr>cl_owner := w\<rparr>))"
        using same_run_owner [OF st] by (simp add: request_cmd_def Inr Some y Let_def say_def)
      then show ?thesis using t2(1,2) st by (simp add: s' show_reply_def)
    qed
    then show ?thesis using more by blast
  qed (use assms in \<open>auto simp: request_cmd_def Inr\<close>)
qed (use assms in \<open>auto simp: request_cmd_def\<close>)

lemma same_status_cmd:
  "prints_more s (status_cmd C1 args s) \<and> (same_run s t \<longrightarrow> same_run (status_cmd C1 args s) (status_cmd C2 args t))"
proof -
  show ?thesis
  proof (cases "parseCommand C1 [opt ''running'' KSwitch (Some (OFlag False)) None] (\<lambda>vm. Inr (vm_flag vm ''running'' False)) args")
    case (Inr x)
    show ?thesis
    proof (cases x)
      case (Some running)
      obtain a b where "a \<noteq> []" "b \<noteq> []" "ow_status C1 running (cl_owner s) = Inr a" "ow_status C2 running (cl_owner s) = Inr b"
        using same_status by blast
      then have 1: "status_cmd C1 args s = say (Reply a) (say (SendingStatus running) s)"
        and 2: "same_run s t \<Longrightarrow> status_cmd C2 args t = say (Reply b) (say (SendingStatus running) t)"
        using same_run_owner [of s t] by (simp_all add: status_cmd_def Inr Some Let_def show_reply_def say_def)
      show ?thesis using 2 by (simp add: 1 prints_more_say)
    qed (simp add: status_cmd_def Inr)
  qed (simp add: status_cmd_def)
qed

end

context owners
begin

lemma same_run_command:
  assumes "run_command C1 command args s = Some s'"
  shows "prints_more s s' \<and> (same_run s t \<and> sends_only safe s' \<longrightarrow>
    (\<exists>t'. run_command C2 command args t = Some t' \<and> same_run s' t'))"
proof -
  let ?cmd = "if args = [] then '''' else hd args"
  show ?thesis
  proof (cases "map_of request_table ?cmd")
    case (Some x)
    obtain name options read where "x = (name, options, read)" by (metis prod_cases3)
    then show ?thesis
      using same_request_cmd [of name options read args s s' t] assms Some by (simp add: run_command_def Let_def)
  next
    case None
    have "prints_more s (execSleep C1 args s) \<and> (same_run s t \<longrightarrow> same_run (execSleep C1 args s) (execSleep C2 args t))"
      by (auto simp: execSleep_def split: sum.split option.split)
    then show ?thesis
      using None assms same_status_cmd [of s args t]
      by (auto simp: run_command_def Let_def split: if_splits)
  qed
qed

lemma same_step_command:
  assumes "step_command C1 command s = Some (n, s')"
  shows "prints_more s s' \<and> (same_run s t \<and> sends_only safe s' \<longrightarrow>
    (\<exists>t'. step_command C2 command t = Some (n, t') \<and> same_run s' t'))"
proof (cases "po_split C1 command")
  case (Inr args)
  show ?thesis
  proof (cases "command = ''.quit'' \<or> is_batch args")
    case True
    then show ?thesis using assms by (auto simp: step_command_def same_po Inr split: sum.splits option.splits)
  next
    case False
    then obtain n0 where "run_command C1 command args s = Some s'" "n = Goes_on"
      using assms by (auto simp: step_command_def Inr)
    with same_run_command [of command args s s' t] False show ?thesis by (auto simp: step_command_def same_po Inr)
  qed
qed (use assms in \<open>auto simp: step_command_def same_po\<close>)

text \<open>A run of the first program from a state, and the runs of the second that correspond to it.\<close>

definition follows :: "bool \<Rightarrow> string list \<Rightarrow> 'w cli \<Rightarrow> flow \<times> 'w cli \<Rightarrow> bool" where
  "follows a cmds s r \<longleftrightarrow> prints_more s (snd r) \<and> (\<forall>t. same_run s t \<and> sends_only safe (snd r) \<longrightarrow>
     (\<exists>t'. execCmds C2 a cmds t = Some (fst r, t') \<and> same_run (snd r) t'))"

lemma followsD:
  "follows a cmds s r \<Longrightarrow> same_run s t \<Longrightarrow> sends_only safe (snd r) \<Longrightarrow>
     \<exists>t'. execCmds C2 a cmds t = Some (fst r, t') \<and> same_run (snd r) t'"
  by (simp add: follows_def)

lemma follows_step:
  assumes step: "step_command C1 c (if a then say (Executing c) s else s) = Some (n, s1)"
    and after: "case n of Ends f \<Rightarrow> r = (f, s1) | Goes_on \<Rightarrow> follows a rest s1 r
      | Runs cs \<Rightarrow> \<exists>f s2. follows True cs s1 (f, s2) \<and> (if f = Continue then follows a rest s2 r else r = (f, s2))"
  shows "follows a (c # rest) s r"
proof -
  let ?say = "\<lambda>s. if a then say (Executing c) s else s"
  have later: "prints_more s1 (snd r)"
    using after by (cases n) (auto simp: follows_def split: if_splits intro: prints_more_trans)
  have more: "prints_more s s1"
    by (rule prints_more_trans [of _ "?say s"]) (use same_step_command [OF step] in auto)
  have "\<exists>t'. execCmds C2 a (c # rest) t = Some (fst r, t') \<and> same_run (snd r) t'"
    if t: "same_run s t" and safe: "sends_only safe (snd r)" for t
  proof -
    have "same_run (?say s) (?say t)" using t by simp
    moreover have "sends_only safe s1" by (rule sends_only_before [OF later safe])
    ultimately obtain t1 where t1: "step_command C2 c (?say t) = Some (n, t1)" "same_run s1 t1"
      using same_step_command [OF step] by blast
    note unfold = execCmds.simps [of C2 a "c # rest" t]
    show ?thesis
    proof (cases n)
      case (Runs cs)
      then obtain f s2 where n: "follows True cs s1 (f, s2)" "if f = Continue then follows a rest s2 r else r = (f, s2)"
        using after by auto
      have "prints_more s2 (snd r)" using n(2) by (auto simp: follows_def split: if_splits)
      then have "sends_only safe s2" using safe sends_only_before by blast
      then obtain t2 where t2: "execCmds C2 True cs t1 = Some (f, t2)" "same_run s2 t2"
        using followsD [OF n(1) t1(2)] by auto
      show ?thesis using n(2) followsD [OF _ t2(2) safe] t2 by (cases "f = Continue") (auto simp: unfold t1(1) Runs)
    qed (use after t1 followsD [OF _ t1(2) safe] in \<open>auto simp: unfold\<close>)
  qed
  then show ?thesis using prints_more_trans [OF more later] by (simp add: follows_def)
qed

lemma same_execCmds:
  assumes "execCmds C1 a cmds s = Some r"
  shows "follows a cmds s r"
proof -
  let ?P = "\<lambda>C a cmds s r. C = C1 \<longrightarrow> follows a cmds s r"
  have "?P C1 a cmds s r"
  proof (rule execCmds.raw_induct [where P = ?P, OF _ assms], intro impI)
    fix g :: "'w cli_env \<Rightarrow> bool \<Rightarrow> string list \<Rightarrow> 'w cli \<Rightarrow> (flow \<times> 'w cli) option"
      and C :: "'w cli_env" and a cmds and s :: "'w cli" and r
    assume ih: "\<And>C a cmds s r. g C a cmds s = Some r \<Longrightarrow> ?P C a cmds s r" and C: "C = C1"
    assume g: "(case cmds of
        [] \<Rightarrow> Some (Continue, s)
      | command # rest \<Rightarrow>
         Option.bind (step_command C command (if a then say (Executing command) s else s)) (\<lambda>(n, s1).
           case n of
             Ends f \<Rightarrow> Some (f, s1)
           | Goes_on \<Rightarrow> g C a rest s1
           | Runs cs \<Rightarrow> Option.bind (g C True cs s1)
               (\<lambda>(f, s2). if f = Continue then g C a rest s2 else Some (f, s2)))) = Some r"
    show "follows a cmds s r"
    proof (cases cmds)
      case Nil
      then show ?thesis using g by (auto simp: follows_def)
    next
      case (Cons c rest)
      obtain n s1 where step: "step_command C1 c (if a then say (Executing c) s else s) = Some (n, s1)"
        using g by (auto simp: Cons C bind_eq_Some_conv)
      have "case n of Ends f \<Rightarrow> r = (f, s1) | Goes_on \<Rightarrow> follows a rest s1 r
          | Runs cs \<Rightarrow> \<exists>f s2. follows True cs s1 (f, s2) \<and> (if f = Continue then follows a rest s2 r else r = (f, s2))"
      proof (cases n)
        case (Runs cs)
        then obtain f s2 where "g C1 True cs s1 = Some (f, s2)" "(if f = Continue then g C1 a rest s2 else Some (f, s2)) = Some r"
          using g [unfolded C] by (auto simp: Cons step bind_eq_Some_conv)
        then show ?thesis using ih [of C1 True cs s1 "(f, s2)"] ih [of C1 a rest s2 r]
          by (auto simp: Runs intro!: exI [of _ f] exI [of _ s2])
      qed (use g ih [of C1] in \<open>auto simp: Cons C step\<close>)
      then show ?thesis unfolding Cons by (rule follows_step [OF step])
    qed
  qed
  then show ?thesis by simp
qed

end

text \<open>The requests the client sends on unchanged.\<close>

definition wire_safe :: "CommonParams \<Rightarrow> request \<Rightarrow> bool" where
  "wire_safe common r \<longleftrightarrow> cp_timeout common < 2 ^ 31 \<and> (case r of ReqUpdate p \<Rightarrow> up_topoContent p = '''' \<and> up_topoScript p = '''' | _ \<Rightarrow> True)"

lemma reply_text_nonempty:
  assumes "p_status (general_part rep) \<noteq> Reply_UNKNOWN"
  shows "reply_text debug CallOk rep \<noteq> []"
  using assms by (cases rep; cases "p_status (general_part rep)")
    (simp_all add: reply_text_def GetGeneralReplyString_def GetStateReplyString_def Let_def)

lemma client_owner_request:
  assumes "wire_safe common r" "exec E common r w = Some (res, w')"
  shows "\<exists>rep. serve E order (client_request common r) w = Some (rep, w') \<and> p_status (general_part rep) \<noteq> Reply_UNKNOWN"
proof -
  have "map_option (\<lambda>(rep, w). (general_part rep, w)) (serve E order (client_request common r) w)
      = map_option (\<lambda>(res, w). (setupGeneralReply (en_StateName E) order res empty_reply, w)) (exec E common r w)"
    by (rule client_exec) (use assms(1) in \<open>auto simp: wire_safe_def\<close>)
  then show ?thesis using assms(2) by (auto simp: setupGeneralReply_def Let_def)
qed

interpretation programs:
  owners "cli_controller E order split parse files" "grpc_client E order debug sdebug split parse files" wire_safe
  for E :: "('d, 'p) env" and order debug sdebug split parse files
proof (unfold_locales, goal_cases)
  case (4 common r w t w')
  then obtain res where "exec E common r w = Some (res, w')" "t = generalReply (en_StateName E) order res"
    by (auto simp: cli_controller_def)
  moreover have "generalReply (en_StateName E) order res \<noteq> []" for res by (simp add: generalReply_def outcome_text_def Let_def split: option.split)
  ultimately show ?case
    using client_owner_request [OF 4(1), of E w res w' order] reply_text_nonempty
    by (fastforce simp: grpc_client_def)
next
  case (6 running w)
  have "ps_status (serve_Status E running w) = Reply_SUCCESS"
    by (simp add: serve_Status_def setupStatusReply_def execStatus_def)
  then show ?case
    by (simp add: cli_controller_def grpc_client_def statusReply_def outcome_text_def GetStatusReplyString_def Let_def)
qed (auto simp: cli_controller_def grpc_client_def)

text \<open>
  C16: The gRPC client and service together refine the command line of the controller: when a run of commands on a
  controller in the same process ends, and every request in it is one the client sends on unchanged, the same
  commands given to the gRPC client end the same way, with the controller of the service in the same state
  and the same output but for the wording of the replies.
\<close>
theorem grpc_client_refines_cli:
  assumes "execCmds (cli_controller E order split parse files) a cmds \<lparr>cl_owner = w, cl_out = []\<rparr> = Some (f, s)"
    and "\<forall>n common r. Sending n common r \<in> set (cl_out s) \<longrightarrow> wire_safe common r"
  shows "\<exists>t. execCmds (grpc_client E order debug sdebug split parse files) a cmds \<lparr>cl_owner = w, cl_out = []\<rparr> = Some (f, t) \<and>
    cl_owner t = cl_owner s \<and> map hide_reply (cl_out t) = map hide_reply (cl_out s)"
  using programs.followsD [OF programs.same_execCmds [OF assms(1)] same_run_simps(1)] assms(2)
  by (fastforce simp: sends_only_def same_run_def)

section \<open>Reading options\<close>

lemma split_at_pieces: "w \<in> set (split_at d s) \<Longrightarrow> d \<notin> set w"
  by (induction s arbitrary: w) (auto split: list.splits if_splits)

lemma split_at_two: "split_at d v = [a, b] \<longleftrightarrow> v = a @ d # b \<and> d \<notin> set a \<and> d \<notin> set b"
proof
  assume s: "split_at d v = [a, b]"
  have "join_with [d] (split_at d v) = v" by (rule split_at_join)
  moreover have "d \<notin> set w" if "w \<in> set (split_at d v)" for w using that by (rule split_at_pieces)
  ultimately show "v = a @ d # b \<and> d \<notin> set a \<and> d \<notin> set b" using s by auto
next
  assume "v = a @ d # b \<and> d \<notin> set a \<and> d \<notin> set b"
  then show "split_at d v = [a, b]" by (simp add: split_at_append split_at_none)
qed

text \<open>
  The properties of a set-properties command are read exactly when every value is a key and a value with one
  colon between them, and then they are those pairs in the order given; a value that itself contains a
  colon, like the address of a channel, makes the whole command fail.
\<close>
theorem parse_props_pairs:
  "parse_props vs = Inr ps \<longleftrightarrow>
     vs = map (\<lambda>(k, v). k @ CHR '':'' # v) ps \<and> (\<forall>(k, v) \<in> set ps. CHR '':'' \<notin> set k \<and> CHR '':'' \<notin> set v)"
proof (induction vs arbitrary: ps)
  case (Cons v vs)
  show ?case
  proof (cases "\<exists>a b. split_at (CHR '':'') v = [a, b]")
    case True
    then obtain a b where s: "split_at (CHR '':'') v = [a, b]" by blast
    then have v: "v = a @ CHR '':'' # b" "CHR '':'' \<notin> set a" "CHR '':'' \<notin> set b" by (auto simp: split_at_two)
    show ?thesis
    proof (cases ps)
      case (Cons p ps')
      obtain k x where p: "p = (k, x)" by fastforce
      have "v = k @ CHR '':'' # x \<and> CHR '':'' \<notin> set k \<and> CHR '':'' \<notin> set x \<longleftrightarrow> k = a \<and> x = b"
        using s split_at_two [of "CHR '':''" v k x] by auto
      then show ?thesis using Cons.IH [of ps'] by (auto simp: s Cons p split: sum.split)
    qed (simp add: s split: sum.split)
  next
    case False
    then have "parse_props (v # vs) \<noteq> Inr ps" by (auto split: list.split)
    moreover have "\<not> (v # vs = map (\<lambda>(k, v). k @ CHR '':'' # v) ps \<and> (\<forall>(k, v) \<in> set ps. CHR '':'' \<notin> set k \<and> CHR '':'' \<notin> set v))"
      using False split_at_two [of "CHR '':''" v] by (cases ps) auto
    ultimately show ?thesis by blast
  qed
qed auto

section \<open>Sample command lines\<close>

text \<open>Arguments separated by blanks; the options of a batch are a file, other commands take none.\<close>

definition sample_split :: "string \<Rightarrow> exn + string list" where
  "sample_split command = Inr (split_at (CHR '' '') command)"

definition sample_parse :: "opt_decl list \<Rightarrow> string list \<Rightarrow> exn + variables_map" where
  "sample_parse options args =
     (case args of
        [c, o1, v] \<Rightarrow> if o1 = ''--cf'' then Inr (\<lambda>n. if n = ''cf'' then Some (OString v) else None)
                     else if o1 = ''--id'' then Inr (\<lambda>n. if n = ''id'' then Some (OString v) else None)
                     else Inl (RuntimeError ''unrecognised option'')
      | _ \<Rightarrow> Inr (\<lambda>_. None))"

definition sample_files :: "string \<Rightarrow> string option" where
  "sample_files f = (if f = ''ok'' then Some (''.config --id p'' @ newline @ newline @ ''.help'') else None)"

definition sample_loop :: "string \<Rightarrow> string option" where
  "sample_loop f = Some (''.batch --cf loop'' @ newline @ ''.help'')"

abbreviation "sample_cli files \<equiv> cli_controller sample_env (\<lambda>_. []) sample_split sample_parse files"

definition still_owner :: "'w cli_env \<Rightarrow> 'w cli_env" where
  "still_owner C = C\<lparr>ow_request := (\<lambda>common r w. Some (Inr ''done'', w))\<rparr>"

lemma sample_loop_leads:
  "leads_to (still_owner (sample_cli sample_loop)) ''.batch --cf loop'' (''.batch --cf loop'' # [''.help''])"
proof -
  have "getCmds sample_loop ''loop'' = Inr [''.batch --cf loop'', ''.help'']" by code_simp
  moreover have "sample_split ''.batch --cf loop'' = Inr [''.batch'', ''--cf'', ''loop'']" by code_simp
  ultimately show ?thesis
    by (auto simp: leads_to_def is_batch_def batch_commands_def parseCommand_def still_owner_def cli_controller_def
        sample_parse_def batchCmds_def bind_exn_def vm_strings_def vm_string_def)
qed

lemma sample_files_leads:
  assumes "leads_to (still_owner (sample_cli sample_files)) command cs" "c \<in> set cs"
  shows "c \<in> {''.config --id p'', ''.help''} \<and> command \<notin> {''.config --id p'', ''.help''}"
proof
  obtain args where a: "sample_split command = Inr args" "is_batch args"
    "batch_commands (still_owner (sample_cli sample_files)) args = Inr (Some cs)"
    using assms(1) by (auto simp: leads_to_def still_owner_def cli_controller_def)
  have "sample_split ''.config --id p'' = Inr [''.config'', ''--id'', ''p'']" "sample_split ''.help'' = Inr [''.help'']"
    by code_simp+
  then show "command \<notin> {''.config --id p'', ''.help''}" using a(1,2) by (auto simp: is_batch_def)
  have files: "getCmds sample_files f = Inr cs \<Longrightarrow> cs = [''.config --id p'', ''.help'']" for f
  proof -
    have "getCmds sample_files ''ok'' = Inr [''.config --id p'', ''.help'']" by code_simp
    then show "getCmds sample_files f = Inr cs \<Longrightarrow> cs = [''.config --id p'', ''.help'']"
      by (cases "f = ''ok''") (auto simp: getCmds_def sample_files_def)
  qed
  have "cs = [] \<or> cs = [''.config --id p'', ''.help'']"
    using a(3) files
    by (auto simp: batch_commands_def parseCommand_def still_owner_def cli_controller_def sample_parse_def batchCmds_def
        bind_exn_def vm_strings_def split: sum.splits list.splits if_splits option.splits)
  then show "c \<in> {''.config --id p'', ''.help''}" using assms(2) by auto
qed

theorem batches_end_witness:
  "(\<exists>r. execCmds (still_owner (sample_cli sample_files)) True [''.batch --cf ok''] \<lparr>cl_owner = sample_world, cl_out = []\<rparr> = Some r) \<and>
   execCmds (still_owner (sample_cli sample_loop)) True [''.batch --cf loop''] \<lparr>cl_owner = sample_world, cl_out = []\<rparr> = None"
proof
  have ow: "ow_request (still_owner C) common r w \<noteq> None" for C :: "string world cli_env" and common r w
    by (simp add: still_owner_def)
  have "\<exists>rank. \<forall>command cs. leads_to (still_owner (sample_cli sample_files)) command cs \<longrightarrow>
      (\<forall>c \<in> set cs. rank c < (rank command :: nat))"
    by (intro exI [of _ "\<lambda>c. if c \<in> {''.config --id p'', ''.help''} then 0 else 1"] allI impI ballI)
      (use sample_files_leads in force)
  then show "\<exists>r. execCmds (still_owner (sample_cli sample_files)) True [''.batch --cf ok''] \<lparr>cl_owner = sample_world, cl_out = []\<rparr> = Some r"
    using batches_end [OF ow] by blast
  show "execCmds (still_owner (sample_cli sample_loop)) True [''.batch --cf loop''] \<lparr>cl_owner = sample_world, cl_out = []\<rparr> = None"
    using batches_end [OF ow] sample_loop_leads by blast
qed

lemma sample_cli_run:
  "map_option (\<lambda>(f, s). (f, map hide_reply (cl_out s)))
     (execCmds (sample_cli sample_files) True [''.batch --cf ok''] \<lparr>cl_owner = sample_world, cl_out = []\<rparr>)
   = Some (Continue, [Executing ''.batch --cf ok'', Executing ''.config --id p'',
       Sending ''Configure'' \<lparr>cp_partitionID = ''p'', cp_runNr = 0, cp_timeout = 0\<rparr> (ReqConfigure \<lparr>dp_path = '''', dp_detailed = False\<rparr>),
       Reply '''', Executing ''.help'', Description])"
  by code_simp

lemma Sending_hide: "Sending n common r \<in> set out \<longleftrightarrow> Sending n common r \<in> set (map hide_reply out)"
proof -
  have "hide_reply x = Sending n common r \<longleftrightarrow> x = Sending n common r" for x by (cases x) auto
  then show ?thesis by (force simp: image_iff)
qed

theorem grpc_client_refines_cli_witness:
  "\<exists>t. execCmds (grpc_client sample_env (\<lambda>_. []) (\<lambda>_. '''') (\<lambda>_. '''') sample_split sample_parse sample_files) True
      [''.batch --cf ok''] \<lparr>cl_owner = sample_world, cl_out = []\<rparr> = Some (Continue, t) \<and>
    Description \<in> set (map hide_reply (cl_out t))"
proof -
  obtain s where s: "execCmds (sample_cli sample_files) True [''.batch --cf ok''] \<lparr>cl_owner = sample_world, cl_out = []\<rparr> = Some (Continue, s)"
    and out: "map hide_reply (cl_out s) = [Executing ''.batch --cf ok'', Executing ''.config --id p'',
       Sending ''Configure'' \<lparr>cp_partitionID = ''p'', cp_runNr = 0, cp_timeout = 0\<rparr> (ReqConfigure \<lparr>dp_path = '''', dp_detailed = False\<rparr>),
       Reply '''', Executing ''.help'', Description]"
    using sample_cli_run by auto
  have "\<forall>n common r. Sending n common r \<in> set (cl_out s) \<longrightarrow> wire_safe common r"
    unfolding Sending_hide [of _ _ _ "cl_out s"] out by (auto simp: wire_safe_def)
  from grpc_client_refines_cli [OF s this, of "\<lambda>_. ''''" "\<lambda>_. ''''"] show ?thesis unfolding out by force
qed

theorem parse_props_pairs_witness:
  "parse_props [''rate:10'', ''mode:fast''] = Inr [(''rate'', ''10''), (''mode'', ''fast'')] \<and>
   parse_props [''address:tcp://*:5000''] \<noteq> Inr [(''address'', ''tcp://*:5000'')]"
  using parse_props_pairs [of "[''rate:10'', ''mode:fast'']" "[(''rate'', ''10''), (''mode'', ''fast'')]"]
    parse_props_pairs [of "[''address:tcp://*:5000'']" "[(''address'', ''tcp://*:5000'')]"] by simp

end
