(* ===== verification/Restore.thy ===== *)
theory Restore
  imports Controller_Props
begin

text \<open>
  \<^verbatim>\<open>src/odc/Restore.h\<close>: the file from which a new controller finds the sessions of the one before it.
  Parameters: Boost's property trees with their JSON text (\<open>tree_api\<close>), and what the file system allows;
  the files themselves are a map from paths to contents. A failure to write or to read is only logged.
\<close>

section \<open>Data\<close>

record 'p tree_api =
  ta_empty :: 'p
  ta_put :: "string \<Rightarrow> string \<Rightarrow> 'p \<Rightarrow> 'p"
  ta_get :: "'p \<Rightarrow> string \<Rightarrow> string \<Rightarrow> string"
  ta_push_back :: "string \<times> 'p \<Rightarrow> 'p \<Rightarrow> 'p"
  ta_add_child :: "string \<Rightarrow> 'p \<Rightarrow> 'p \<Rightarrow> 'p"
  ta_get_child :: "'p \<Rightarrow> string \<Rightarrow> 'p option"
  ta_children :: "'p \<Rightarrow> (string \<times> 'p) list"
  ta_write_json :: "'p \<Rightarrow> exn + string"
  ta_read_json :: "string \<Rightarrow> exn + 'p"

record RestorePartition =
  mPartitionID :: string
  mDDSSessionId :: string

type_synonym RestoreData = "RestorePartition list"

definition partition_toPT :: "('p, 'z) tree_api_scheme \<Rightarrow> RestorePartition \<Rightarrow> 'p" where
  "partition_toPT T v = ta_put T ''session'' (mDDSSessionId v) (ta_put T ''partition'' (mPartitionID v) (ta_empty T))"

definition partition_fromPT :: "('p, 'z) tree_api_scheme \<Rightarrow> 'p \<Rightarrow> RestorePartition" where
  "partition_fromPT T pt = \<lparr>mPartitionID = ta_get T pt ''partition'' '''', mDDSSessionId = ta_get T pt ''session'' ''''\<rparr>"

definition data_toPT :: "('p, 'z) tree_api_scheme \<Rightarrow> RestoreData \<Rightarrow> 'p" where
  "data_toPT T partitions =
     ta_add_child T ''sessions'' (fold (\<lambda>v children. ta_push_back T ('''', partition_toPT T v) children) partitions (ta_empty T))
       (ta_empty T)"

definition data_fromPT :: "('p, 'z) tree_api_scheme \<Rightarrow> 'p \<Rightarrow> RestoreData" where
  "data_fromPT T pt =
     (case ta_get_child T pt ''sessions'' of
        None \<Rightarrow> []
      | Some rpt \<Rightarrow> map (\<lambda>(_, v). partition_fromPT T v) (ta_children T rpt))"

section \<open>The file\<close>

record file_system =
  fs_files :: "string \<Rightarrow> string option"
  fs_exists :: "string \<Rightarrow> bool"
  fs_create :: "string \<Rightarrow> exn + bool"
  fs_writable :: "string \<Rightarrow> bool"

record RestoreFile =
  rf_id :: string
  rf_dir :: string
  rf_data :: RestoreData

text \<open>The constructors; the default directory goes through \<open>smart_path\<close>, which may not return.\<close>

definition new_RestoreFile :: "path_env \<Rightarrow> string \<Rightarrow> string \<Rightarrow> RestoreData \<Rightarrow> RestoreFile option" where
  "new_RestoreFile env i dir data =
     map_option (\<lambda>d. \<lparr>rf_id = i, rf_dir = d, rf_data = data\<rparr>)
       (if dir = [] then smart_path env ''$HOME/.ODC/restore/'' else Some dir)"

definition getFilepath :: "RestoreFile \<Rightarrow> string" where
  "getFilepath f =
     (let name = ''odc_'' @ rf_id f @ ''.json''
      in if rf_dir f = [] \<or> last (rf_dir f) = CHR ''/'' then rf_dir f @ name else rf_dir f @ ''/'' @ name)"

text \<open>A file that is opened but whose tree has no JSON text is left empty.\<close>

definition write_file :: "('p, 'z) tree_api_scheme \<Rightarrow> RestoreFile \<Rightarrow> file_system \<Rightarrow> file_system" where
  "write_file T f fs =
     (let ready = (if fs_exists fs (rf_dir f) then True else case fs_create fs (rf_dir f) of Inl e \<Rightarrow> False | Inr b \<Rightarrow> b)
      in if \<not> ready then fs
         else if \<not> fs_writable fs (getFilepath f) then fs
         else case ta_write_json T (data_toPT T (rf_data f)) of
                Inl e \<Rightarrow> fs\<lparr>fs_files := (fs_files fs)(getFilepath f \<mapsto> [])\<rparr>
              | Inr content \<Rightarrow> fs\<lparr>fs_files := (fs_files fs)(getFilepath f \<mapsto> content)\<rparr>)"

definition read_file :: "('p, 'z) tree_api_scheme \<Rightarrow> RestoreFile \<Rightarrow> file_system \<Rightarrow> RestoreFile" where
  "read_file T f fs =
     (case fs_files fs (getFilepath f) of
        None \<Rightarrow> f
      | Some content \<Rightarrow>
         (case ta_read_json T content of Inl e \<Rightarrow> f | Inr pt \<Rightarrow> f\<lparr>rf_data := data_fromPT T pt\<rparr>))"

section \<open>Round trip\<close>

text \<open>What the code relies on of property trees: plain keys, and children in the order they were added.\<close>

definition tree_laws :: "('p, 'z) tree_api_scheme \<Rightarrow> bool" where
  "tree_laws T \<longleftrightarrow>
     (\<forall>k \<in> {''partition'', ''session''}. \<forall>k' \<in> {''partition'', ''session''}. \<forall>v p d.
        ta_get T (ta_put T k v p) k' d = (if k' = k then v else ta_get T p k' d)) \<and>
     ta_children T (ta_empty T) = [] \<and>
     (\<forall>c p. ta_children T (ta_push_back T c p) = ta_children T p @ [c]) \<and>
     (\<forall>k c. ta_get_child T (ta_add_child T k c (ta_empty T)) k = Some c)"

lemma partition_round_trip: "tree_laws T \<Longrightarrow> partition_fromPT T (partition_toPT T v) = v"
  by (simp add: tree_laws_def partition_fromPT_def partition_toPT_def)

lemma children_pushed:
  assumes "tree_laws T"
  shows "ta_children T (fold (\<lambda>v children. ta_push_back T ('''', partition_toPT T v) children) ps c)
    = ta_children T c @ map (\<lambda>v. ('''', partition_toPT T v)) ps"
  using assms by (induction ps arbitrary: c) (simp_all add: tree_laws_def)

lemma data_round_trip: "tree_laws T \<Longrightarrow> data_fromPT T (data_toPT T ps) = ps"
  by (simp add: data_fromPT_def data_toPT_def children_pushed partition_round_trip comp_def)
    (simp add: tree_laws_def data_fromPT_def data_toPT_def children_pushed partition_round_trip comp_def)

text \<open>
  C39: What a controller writes to its restore file, the next one reads back: the partitions with their session ids,
  in the same order, whatever the file held before, for a directory that is there or can be created.
\<close>
theorem restore_file_round_trip:
  assumes "tree_laws T" and "ta_write_json T (data_toPT T ps) = Inr json" and "ta_read_json T json = Inr (data_toPT T ps)"
    and "fs_exists fs (rf_dir f) \<or> fs_create fs (rf_dir f) = Inr True" and "fs_writable fs (getFilepath f)"
    and "rf_data f = ps" and "rf_dir g = rf_dir f" and "rf_id g = rf_id f"
  shows "rf_data (read_file T g (write_file T f fs)) = ps"
proof -
  have "getFilepath g = getFilepath f" using assms(7,8) by (simp add: getFilepath_def Let_def)
  then show ?thesis
    using assms data_round_trip [OF assms(1), of ps] by (auto simp: write_file_def read_file_def Let_def)
qed

section \<open>A controller that takes over\<close>

text \<open>Attaching always succeeds and gives the session that was asked for.\<close>

definition attaches :: "('d, 'p) env \<Rightarrow> bool" where
  "attaches E \<longleftrightarrow> (\<forall>n sid d. snd (dds_attach E n sid d) = None \<and> dds_sessionID E (fst (dds_attach E n sid d)) = sid)"

lemma attach_then_keeps_dds:
  assumes "and_then (createDDSTopology E) (createTopology E) rq = Some (ok, rq')"
  shows "s_ddsSession (rq_session rq') = s_ddsSession (rq_session rq)"
  using assms by (auto simp: and_then_def createDDSTopology_def createTopology_def fillAndLogError_def contact_def Let_def
      split: sum.splits option.splits if_splits)

lemma initialize_attaches:
  assumes "attaches E" "ip_ddsSessionID p \<noteq> ''''" "initialize_steps E c common p rq = Some (ok, rq')"
  shows "dds_sessionID E (s_ddsSession (rq_session rq')) = ip_ddsSessionID p"
proof -
  let ?d = "fst (dds_attach E (rq_n rq) (ip_ddsSessionID p) (s_ddsSession (rq_session rq)))"
  let ?rq1 = "contact (set_dds ?d rq)"
  have att: "attachToDDSSession E (ip_ddsSessionID p) rq = Some (True, ?rq1)"
    using assms(1) by (auto simp: attaches_def attachToDDSSession_def split_def Let_def)
  obtain path rq2 where g: "getActiveDDSTopology E c common ?rq1 = (path, rq2)" by fastforce
  have d2: "s_ddsSession (rq_session rq2) = ?d"
    using g by (auto simp: getActiveDDSTopology_def contact_def set_dds_def fillAndLogError_def split: sum.splits)
  let ?rq3 = "rq2\<lparr>rq_session := (rq_session rq2)\<lparr>s_topoFilePath := path\<rparr>\<rparr>"
  have "(if path \<noteq> [] then and_then (createDDSTopology E) (createTopology E) ?rq3 else Some (ok_so_far ?rq3, ?rq3)) = Some (ok, rq')"
    using assms(2,3) by (simp add: initialize_steps_def att g Let_def)
  then have "s_ddsSession (rq_session rq') = ?d"
    using attach_then_keeps_dds d2 by (fastforce split: if_splits)
  then show ?thesis using assms(1) by (simp add: attaches_def)
qed

lemma execInitialize_attaches:
  assumes "attaches E" "ip_ddsSessionID p \<noteq> ''''" "execInitialize E common p w = Some (res, w')"
  shows "\<exists>s. c_sessions (w_ctl w') = smap_set (cp_partitionID common) s (c_sessions (w_ctl w)) \<and>
    dds_sessionID E (s_ddsSession s) = ip_ddsSessionID p"
proof -
  obtain ok rq where "initialize_steps E (w_ctl w) common p (begin_request E (cp_partitionID common) default_TopologyState w) = Some (ok, rq)"
    and w': "w_ctl w' = put_session (cp_partitionID common) (rq_session rq) (w_ctl w)"
    using assms(3) by (auto simp: execInitialize_def Let_def dest!: finish_ctl)
  then have "dds_sessionID E (s_ddsSession (rq_session rq)) = ip_ddsSessionID p"
    using initialize_attaches [OF assms(1,2)] by blast
  then show ?thesis using w' by (intro exI [of _ "rq_session rq"]) (simp add: put_session_def)
qed

lemma restore_loop_attaches:
  assumes "attaches E" "restore_loop E es w = Some w'" "distinct (map fst es)" "\<forall>(p, i) \<in> set es. i \<noteq> ''''"
  shows "(\<forall>(p, i) \<in> set es. \<exists>s. map_of (c_sessions (w_ctl w')) p = Some s \<and> dds_sessionID E (s_ddsSession s) = i) \<and>
    (\<forall>p. p \<notin> fst ` set es \<longrightarrow> map_of (c_sessions (w_ctl w')) p = map_of (c_sessions (w_ctl w)) p)"
  using assms(2-4)
proof (induction es arbitrary: w)
  case (Cons e es)
  obtain p i where e: "e = (p, i)" by fastforce
  obtain res w1 where w1: "execInitialize E \<lparr>cp_partitionID = p, cp_runNr = 0, cp_timeout = 0\<rparr> \<lparr>ip_ddsSessionID = i\<rparr> w = Some (res, w1)"
    "restore_loop E es w1 = Some w'"
    using Cons.prems(1) by (auto simp: e split: option.splits)
  obtain s where s: "c_sessions (w_ctl w1) = smap_set p s (c_sessions (w_ctl w))" "dds_sessionID E (s_ddsSession s) = i"
    using execInitialize_attaches [OF assms(1) _ w1(1)] Cons.prems(3) by (auto simp: e)
  from Cons.IH [OF w1(2)] Cons.prems(2,3) have ih:
    "\<forall>(p, i) \<in> set es. \<exists>s. map_of (c_sessions (w_ctl w')) p = Some s \<and> dds_sessionID E (s_ddsSession s) = i"
    "\<And>q. q \<notin> fst ` set es \<Longrightarrow> map_of (c_sessions (w_ctl w')) q = map_of (c_sessions (w_ctl w1)) q"
    by (auto simp: e)
  have "p \<notin> fst ` set es" using Cons.prems(2) by (simp add: e)
  then have "map_of (c_sessions (w_ctl w')) p = Some s" using ih(2) s(1) by simp
  then show ?case using ih s by (auto simp: e)
qed simp

lemma restore_entries_running:
  assumes "world_ok w"
  shows "(p, i) \<in> set (restore_entries E (w_ctl w)) \<longleftrightarrow>
      (\<exists>s. map_of (c_sessions (w_ctl w)) p = Some s \<and> dds_IsRunning E (s_ddsSession s) \<and> dds_sessionID E (s_ddsSession s) = i)"
    and "distinct (map fst (restore_entries E (w_ctl w)))"
proof -
  let ?m = "c_sessions (w_ctl w)"
  have d: "distinct (map fst ?m)" using assms sorted_keys_distinct by (auto simp: world_ok_def distinct_keys_def)
  have pid: "s_partitionID s = p" if "(p, s) \<in> set ?m" for p s
    using assms that map_of_is_SomeI [OF d] by (auto simp: world_ok_def)
  show "(p, i) \<in> set (restore_entries E (w_ctl w)) \<longleftrightarrow>
      (\<exists>s. map_of ?m p = Some s \<and> dds_IsRunning E (s_ddsSession s) \<and> dds_sessionID E (s_ddsSession s) = i)"
    using pid map_of_eq_Some_iff [OF d] by (force simp: restore_entries_def)
  have "map fst (restore_entries E (w_ctl w)) = map fst (filter (\<lambda>(_, s). dds_IsRunning E (s_ddsSession s)) ?m)"
    using pid by (auto simp: restore_entries_def)
  then show "distinct (map fst (restore_entries E (w_ctl w)))" using d by (simp add: distinct_map_filter)
qed


section \<open>Witnesses\<close>

datatype sample_tree = Tree (st_data: "(string \<times> string) list") (st_children: "(string \<times> sample_tree) list")

definition sample_partitions :: RestoreData where
  "sample_partitions = [\<lparr>mPartitionID = ''p'', mDDSSessionId = ''s1''\<rparr>, \<lparr>mPartitionID = ''q'', mDDSSessionId = ''s2''\<rparr>]"

definition sample_tree_api :: "sample_tree tree_api" where
  "sample_tree_api = \<lparr>ta_empty = Tree [] [],
     ta_put = (\<lambda>k v p. Tree ((k, v) # st_data p) (st_children p)),
     ta_get = (\<lambda>p k d. case map_of (st_data p) k of None \<Rightarrow> d | Some v \<Rightarrow> v),
     ta_push_back = (\<lambda>c p. Tree (st_data p) (st_children p @ [c])),
     ta_add_child = (\<lambda>k c p. Tree (st_data p) (st_children p @ [(k, c)])),
     ta_get_child = (\<lambda>p k. map_of (st_children p) k), ta_children = st_children,
     ta_write_json = (\<lambda>t. Inr (if st_children t = [] then ''{}'' else ''{sessions}'')),
     ta_read_json = (\<lambda>s. if s = ''{sessions}''
       then Inr (Tree [] [(''sessions'', Tree []
         [('''', Tree [(''session'', ''s1''), (''partition'', ''p'')] []), ('''', Tree [(''session'', ''s2''), (''partition'', ''q'')] [])])])
       else Inr (Tree [] []))\<rparr>"

definition sample_fs :: file_system where
  "sample_fs = \<lparr>fs_files = Map.empty, fs_exists = (\<lambda>_. False), fs_create = (\<lambda>_. Inr True), fs_writable = (\<lambda>_. True)\<rparr>"

theorem restore_file_round_trip_witness:
  "rf_data (read_file sample_tree_api \<lparr>rf_id = ''r'', rf_dir = ''/tmp'', rf_data = []\<rparr>
     (write_file sample_tree_api \<lparr>rf_id = ''r'', rf_dir = ''/tmp'', rf_data = sample_partitions\<rparr> sample_fs)) = sample_partitions"
  by (rule restore_file_round_trip [where json = "''{sessions}''"])
    (simp_all add: tree_laws_def sample_tree_api_def sample_fs_def data_toPT_def partition_toPT_def sample_partitions_def)

text \<open>Two partitions, of which one is attached to a running session.\<close>

definition restore_world :: "string world" where
  "restore_world = \<lparr>w_ctl = (new_controller [])\<lparr>c_restoreId := ''r'',
     c_sessions := [(''p'', sample_session), (''q'', new_session nil_uuid ''q'')]\<rparr>, w_n = 0, w_writes = []\<rparr>"

definition restore_env :: "(string, unit) env" where
  "restore_env = sample_env\<lparr>dds_IsRunning := (\<lambda>d. d \<noteq> nil_uuid \<and> d \<noteq> ''''),
     en_readRestore := (\<lambda>_ _. [(''p'', ''session'')])\<rparr>"

lemma restore_world_ok: "world_ok restore_world"
  using sample_session_ok new_session_ok [of nil_uuid "''q''"]
  by (auto simp: world_ok_def restore_world_def sorted_keys_def split: if_splits)


end
