(* ===== verification/Programs.thy ===== *)
theory Programs
  imports Cli Restore
begin

text \<open>
  The programs: \<^verbatim>\<open>src/odc/odc-cli-server.cpp\<close>, \<^verbatim>\<open>src/odc/grpc/odc-grpc-server.cpp\<close> and
  \<^verbatim>\<open>src/odc/grpc/odc-grpc-client.cpp\<close>. What a program does with its options: the controller it sets up, and how the
  command line is run on it. Parameters beyond those of the controller and the command line: whether the log
  can be initialised, and the default directories, which come from \<open>smart_path\<close>.
\<close>

section \<open>Options\<close>

definition server_options :: "string \<Rightarrow> string \<Rightarrow> opt_decl list" where
  "server_options restoreDir historyDir =
     [help_option, opt ''version,v'' KSwitch None None, opt ''timeout'' KNumber (Some (ONumber 30)) None,
      opt ''rp'' KStrings None None, opt ''zones'' KStrings None None, opt ''rms'' KString (Some (OString ''localhost'')) None,
      opt ''restore'' KString (Some (OString '''')) None, opt ''restore-dir'' KString (Some (OString restoreDir)) None,
      opt ''history-dir'' KString (Some (OString historyDir)) None]"

definition batch_mode_options :: "opt_decl list" where
  "batch_mode_options = opt ''batch'' KSwitch (Some (OFlag False)) None # batch_options"

definition client_options :: "opt_decl list" where
  "client_options = [help_option, opt ''version,v'' KSwitch None None, opt ''host'' KString (Some (OString ''localhost:50051'')) None] @
     batch_mode_options"

section \<open>Setting a controller up\<close>

definition configure_controller :: "'d itself \<Rightarrow> path_api \<Rightarrow> string \<Rightarrow> variables_map \<Rightarrow> PluginMap \<Rightarrow> exn + 'd controller" where
  "configure_controller _ pa binDir vm plugins =
     (case setZoneCfgs (vm_strings vm ''zones'') ((new_controller (new_DDSSubmit pa binDir))
             \<lparr>c_timeout := sint (vm_number vm ''timeout'' 30), c_historyDir := vm_string vm ''history-dir'' ''''\<rparr>) of
        (_, Some e) \<Rightarrow> Inl e
      | (c, None) \<Rightarrow>
         (case registerResourcePlugins pa plugins (c\<lparr>c_rms := vm_string vm ''rms'' ''localhost''\<rparr>) of
            (_, Some e) \<Rightarrow> Inl e | (c1, None) \<Rightarrow> Inr c1))"

text \<open>\<open>None\<close> when restoring the sessions does not return; what is thrown ends the program.\<close>

definition start_controller ::
  "('d, 'p) env \<Rightarrow> path_api \<Rightarrow> string \<Rightarrow> variables_map \<Rightarrow> PluginMap \<Rightarrow> (exn + 'd world) option" where
  "start_controller E pa binDir vm plugins =
     (case configure_controller TYPE('d) pa binDir vm plugins of
        Inl e \<Rightarrow> Some (Inl e)
      | Inr c \<Rightarrow>
          let w = \<lparr>w_ctl = c, w_n = 0, w_writes = []\<rparr>; restoreId = vm_string vm ''restore'' ''''
          in if restoreId \<noteq> '''' then map_option Inr (restore E restoreId (vm_string vm ''restore-dir'' '''') w)
             else Some (Inr w))"

section \<open>The programs\<close>

text \<open>How a program ends, or that it serves from then on; the exit status and what the command line left.\<close>

datatype ('d, 'w) ending = Exited nat | Ran nat "'w cli" | Serves "'d world"

definition exit_status :: "flow \<Rightarrow> nat" where
  "exit_status f = (case f of Throws e \<Rightarrow> 1 | _ \<Rightarrow> 0)"

definition run_cli :: "'w cli_env \<Rightarrow> string list \<Rightarrow> string list \<Rightarrow> 'w \<Rightarrow> ('d, 'w) ending option" where
  "run_cli C cmds typed w =
     map_option (\<lambda>(f, s). Ran (exit_status f) s) (cli_run C cmds typed \<lparr>cl_owner = w, cl_out = []\<rparr>)"

definition cli_server_main ::
  "('d, 'p) env \<Rightarrow> (string set \<Rightarrow> string list) \<Rightarrow> path_api \<Rightarrow> string \<Rightarrow> (string \<Rightarrow> exn + string list) \<Rightarrow>
     (opt_decl list \<Rightarrow> string list \<Rightarrow> exn + variables_map) \<Rightarrow> (string \<Rightarrow> string option) \<Rightarrow> string \<Rightarrow> string \<Rightarrow> exn option \<Rightarrow>
     string list \<Rightarrow> string list \<Rightarrow> ('d, 'd world) ending option" where
  "cli_server_main E order pa binDir split parse files restoreDir historyDir log argv typed =
     (case parse (server_options restoreDir historyDir @ batch_mode_options) argv of
        Inl e \<Rightarrow> Some (Exited 1)
      | Inr vm \<Rightarrow>
          if vm ''help'' \<noteq> None \<or> vm ''version'' \<noteq> None then Some (Exited 0)
          else if log \<noteq> None then Some (Exited 1)
          else
           (case batchCmds files vm (vm_flag vm ''batch'' False) of
              Inl e \<Rightarrow> Some (Exited 1)
            | Inr cmds \<Rightarrow>
               (case parsePluginMapOptions vm ''rp'' of
                  (_, Some e) \<Rightarrow> Some (Exited 1)
                | (plugins, None) \<Rightarrow>
                   (case start_controller E pa binDir vm plugins of
                      None \<Rightarrow> None
                    | Some (Inl e) \<Rightarrow> Some (Exited 1)
                    | Some (Inr w) \<Rightarrow> run_cli (cli_controller E order split parse files) cmds typed w))))"

definition grpc_server_main ::
  "('d, 'p) env \<Rightarrow> path_api \<Rightarrow> string \<Rightarrow> (opt_decl list \<Rightarrow> string list \<Rightarrow> exn + variables_map) \<Rightarrow> string \<Rightarrow> string \<Rightarrow>
     exn option \<Rightarrow> string list \<Rightarrow> ('d, unit) ending option" where
  "grpc_server_main E pa binDir parse restoreDir historyDir log argv =
     (case parse (server_options restoreDir historyDir @
              [opt ''sync'' KSwitch (Some (OFlag False)) None, opt ''host'' KString (Some (OString ''localhost:50051'')) None]) argv of
        Inl e \<Rightarrow> Some (Exited 1)
      | Inr vm \<Rightarrow>
          if vm ''help'' \<noteq> None \<or> vm ''version'' \<noteq> None then Some (Exited 0)
          else if log \<noteq> None then Some (Exited 1)
          else
           (case parsePluginMapOptions vm ''rp'' of
              (_, Some e) \<Rightarrow> Some (Exited 1)
            | (plugins, None) \<Rightarrow>
               (case start_controller E pa binDir vm plugins of
                  None \<Rightarrow> None
                | Some (Inl e) \<Rightarrow> Some (Exited 1)
                | Some (Inr w) \<Rightarrow> Some (Serves w))))"

definition grpc_client_main ::
  "'w cli_env \<Rightarrow> (opt_decl list \<Rightarrow> string list \<Rightarrow> exn + variables_map) \<Rightarrow> (string \<Rightarrow> string option) \<Rightarrow> 'w \<Rightarrow>
     string list \<Rightarrow> string list \<Rightarrow> (unit, 'w) ending option" where
  "grpc_client_main client parse files w argv typed =
     (case parse client_options argv of
        Inl e \<Rightarrow> Some (Exited 1)
      | Inr vm \<Rightarrow>
          if vm ''help'' \<noteq> None \<or> vm ''version'' \<noteq> None then Some (Exited 0)
          else
           (case batchCmds files vm (vm_flag vm ''batch'' False) of
              Inl e \<Rightarrow> Some (Exited 1)
            | Inr cmds \<Rightarrow> run_cli client cmds typed w))"

section \<open>What a started controller has\<close>

lemma setZoneCfgs_sessions: "setZoneCfgs zs c = (c', e) \<Longrightarrow> c_sessions c' = c_sessions c"
  by (induction zs c rule: setZoneCfgs.induct) (auto split: list.splits)

lemma registerResourcePlugins_sessions: "registerResourcePlugins pa ps c = (c', e) \<Longrightarrow> c_sessions c' = c_sessions c"
  by (induction pa ps c rule: registerResourcePlugins.induct) (auto split: sum.splits)

lemma restore_loop_world_ok:
  "restore_loop E es w = Some w' \<Longrightarrow> env_ok E \<Longrightarrow> world_ok w \<Longrightarrow> world_ok w'"
proof (induction es arbitrary: w)
  case (Cons e es)
  obtain p i where e: "e = (p, i)" by fastforce
  then obtain res w1 where w1: "execInitialize E \<lparr>cp_partitionID = p, cp_runNr = 0, cp_timeout = 0\<rparr> \<lparr>ip_ddsSessionID = i\<rparr> w = Some (res, w1)"
    "restore_loop E es w1 = Some w'"
    using Cons.prems(1) by (auto split: option.splits)
  have "world_ok w1" using exec_world_ok [of E _ "ReqInitialize \<lparr>ip_ddsSessionID = i\<rparr>"] w1(1) Cons.prems(2,3) by simp
  then show ?case using Cons.IH w1(2) Cons.prems(2) by blast
qed simp

lemma configure_controller_sessions: "configure_controller t pa binDir vm plugins = Inr c \<Longrightarrow> c_sessions c = []"
  by (auto simp: configure_controller_def new_controller_def split: prod.splits option.splits
      dest!: setZoneCfgs_sessions registerResourcePlugins_sessions)

lemma start_controller_world_ok:
  assumes "start_controller E pa binDir vm plugins = Some (Inr w)" and "env_ok E"
  shows "world_ok w"
proof -
  obtain c where c: "configure_controller TYPE('a) pa binDir vm plugins = Inr c"
    using assms(1) by (auto simp: start_controller_def split: sum.splits)
  have "world_ok (\<lparr>w_ctl = c', w_n = 0, w_writes = []\<rparr>)" if "c_sessions c' = []" for c' :: "'a controller"
    using that by (simp add: world_ok_def)
  then show ?thesis
    using assms(1) configure_controller_sessions [OF c] restore_loop_world_ok [OF _ assms(2)]
    by (auto simp: start_controller_def c Let_def restore_def split: if_splits)
qed

end
