(* ===== verification/Controller_Reports.thy ===== *)
theory Controller_Reports
  imports Controller_Samples Printing
begin

text \<open>
  \<^verbatim>\<open>src/odc/Controller.cpp\<close>, what the controller reports of a topology and the shutdown of one agent:
  \<^verbatim>\<open>stateSummaryOnFailure\<close>, \<^verbatim>\<open>printStateStats\<close>, \<^verbatim>\<open>logFatalLineByLine\<close> and \<^verbatim>\<open>ShutdownDDSAgent\<close>. Log lines are
  data; the first three change nothing else. The order of a \<^verbatim>\<open>map\<close> over states is the one of their numbers.
\<close>

section \<open>States in order\<close>

text \<open>\<^verbatim>\<open>static_cast<int>\<close> of a state.\<close>

fun state_number :: "mq_state \<Rightarrow> nat" where
  "state_number Undefined = 0"
| "state_number Ok = 1"
| "state_number Error = 2"
| "state_number Idle = 3"
| "state_number InitializingDevice = 4"
| "state_number Initialized = 5"
| "state_number Binding = 6"
| "state_number Bound = 7"
| "state_number Connecting = 8"
| "state_number DeviceReady = 9"
| "state_number InitializingTask = 10"
| "state_number Ready = 11"
| "state_number Running = 12"
| "state_number ResettingTask = 13"
| "state_number ResettingDevice = 14"
| "state_number Exiting = 15"

fun aggregated_number :: "AggregatedState \<Rightarrow> nat" where
  "aggregated_number (Agg s) = state_number s"
| "aggregated_number Mixed = 16"

lemma state_number_nth: "all_states ! state_number s = s"
  by (cases s) (simp_all add: all_states_def)

lemma state_number_inj [simp]: "state_number s = state_number t \<longleftrightarrow> s = t"
  by (metis state_number_nth)

lemma state_number_less: "state_number s < 16"
  by (cases s) simp_all

lemma aggregated_number_inj [simp]: "aggregated_number a = aggregated_number b \<longleftrightarrow> a = b"
  using state_number_less [THEN less_imp_neq] by (cases a; cases b) (auto simp: eq_commute [of 16])

instantiation mq_state :: linorder
begin

definition less_eq_mq_state :: "mq_state \<Rightarrow> mq_state \<Rightarrow> bool" where
  "less_eq_mq_state s t \<longleftrightarrow> state_number s \<le> state_number t"

definition less_mq_state :: "mq_state \<Rightarrow> mq_state \<Rightarrow> bool" where
  "less_mq_state s t \<longleftrightarrow> state_number s < state_number t"

instance
  by standard (auto simp: less_eq_mq_state_def less_mq_state_def)

end

instantiation AggregatedState :: linorder
begin

definition less_eq_AggregatedState :: "AggregatedState \<Rightarrow> AggregatedState \<Rightarrow> bool" where
  "less_eq_AggregatedState s t \<longleftrightarrow> aggregated_number s \<le> aggregated_number t"

definition less_AggregatedState :: "AggregatedState \<Rightarrow> AggregatedState \<Rightarrow> bool" where
  "less_AggregatedState s t \<longleftrightarrow> aggregated_number s < aggregated_number t"

instance
  by standard (auto simp: less_eq_AggregatedState_def less_AggregatedState_def)

end

section \<open>Statistics\<close>

text \<open>The counters are \<^verbatim>\<open>uint64_t\<close>; a key is entered with 0 before it is counted.\<close>

definition count_key :: "'k::linorder \<Rightarrow> ('k \<times> u64) list \<Rightarrow> ('k \<times> u64) list" where
  "count_key k counts =
     (let counts1 = (if map_of counts k = None then smap_set k 0 counts else counts)
      in smap_set k (the (map_of counts1 k) + 1) counts1)"

definition taskStateCounts :: "TopoState \<Rightarrow> (mq_state \<times> u64) list" where
  "taskStateCounts topoState = fold (\<lambda>ds. count_key (ds_state ds)) topoState []"

definition collectionStateCounts :: "TopoState \<Rightarrow> (AggregatedState \<times> u64) list" where
  "collectionStateCounts topoState =
     fold (\<lambda>(_, states). count_key (AggregateState states)) (GroupByCollectionId topoState) []"

definition printStateStats :: "(mq_state \<Rightarrow> string) \<Rightarrow> TopoState \<Rightarrow> string list" where
  "printStateStats names topoState =
     [''Device states:'' @ concat (map (\<lambda>(st, n). '' '' @ names st @ '' ('' @ string_of_nat (unat n) @ ''/'' @
        string_of_nat (length topoState) @ '')'') (taskStateCounts topoState)),
      ''Collection states:'' @ concat (map (\<lambda>(st, n). '' '' @ GetAggregatedStateName names st @ '' ('' @ string_of_nat (unat n) @ ''/'' @
        string_of_nat (length (GroupByCollectionId topoState)) @ '')'') (collectionStateCounts topoState))]"

text \<open>\<^verbatim>\<open>getline\<close> on a stream: no line after a final newline.\<close>

definition logFatalLineByLine :: "string \<Rightarrow> string list" where
  "logFatalLineByLine msg =
     (let ls = split_at (CHR 0x0A) msg in if last ls = [] then butlast ls else ls)"

section \<open>Summary of a failure\<close>

datatype summary_line =
    FailedDevices mq_state | FailedDevice u64 TaskDetails DeviceStatus
  | FailedCollections mq_state | FailedCollection int CollectionDetails
  | SummaryAfter mq_state | TaskTotals nat u64 u64 | CollectionTotals nat u64 nat | SummaryError string

fun summary_text :: "(mq_state \<Rightarrow> string) \<Rightarrow> summary_line \<Rightarrow> string" where
  "summary_text names (FailedDevices e) = ''Following devices failed to transition to '' @ names e @ '' state:''"
| "summary_text names (FailedDevice n t status) =
     ''  ['' @ u64_text n @ ''] '' @ TaskDetails_text t @ '', state: '' @ names (ds_state status) @ '', previous state: '' @
     names (ds_lastState status) @ '', subscribed: '' @ boolalpha_text (ds_subscribed status) @ '', ignored: '' @
     boolalpha_text (ds_ignored status) @ '', expendable: '' @ boolalpha_text (ds_expendable status)"
| "summary_text names (FailedCollections e) = ''Following collections failed to transition to '' @ names e @ '' state:''"
| "summary_text names (FailedCollection i c) = ''  ['' @ string_of_int i @ ''] '' @ CollectionDetails_text c"
| "summary_text names (SummaryAfter e) = ''Summary after transitioning to '' @ names e @ '' state:''"
| "summary_text names (TaskTotals n ok failed) =
     ''  [tasks] total: '' @ string_of_nat n @ '', successful: '' @ u64_text ok @ '', failed: '' @ u64_text failed"
| "summary_text names (CollectionTotals n ok failed) =
     ''  [collections] total: '' @ string_of_nat n @ '', successful: '' @ u64_text ok @ '', failed: '' @ string_of_nat failed"
| "summary_text names (SummaryError e) = ''State summary error: '' @ e"

definition as_expected :: "mq_state \<Rightarrow> DeviceStatus \<Rightarrow> bool" where
  "as_expected expectedState ds \<longleftrightarrow> ds_state ds = expectedState \<or> ds_ignored ds"

text \<open>The loop over the devices, with the lines so far, the number of failed tasks and the failed collections.\<close>

fun summary_loop ::
  "'d session \<Rightarrow> mq_state \<Rightarrow> TopoState \<Rightarrow> summary_line list \<Rightarrow> u64 \<Rightarrow> CollectionDetails list \<Rightarrow>
     summary_line list \<times> (exn + u64 \<times> CollectionDetails list)" where
  "summary_loop s expected [] ls n cols = (ls, Inr (n, cols))"
| "summary_loop s expected (status # rest) ls n cols =
     (if as_expected expected status then summary_loop s expected rest ls n cols
      else
       let n1 = n + 1; ls1 = (if n1 = 1 then ls @ [FailedDevices expected] else ls) in
       case getTaskDetails (ds_taskId status) s of
         Inl e \<Rightarrow> (ls1, Inl e)
       | Inr t \<Rightarrow>
          let ls2 = ls1 @ [FailedDevice n1 t status] in
          if td_collectionID t \<noteq> 0 \<and> find (\<lambda>c. cd_collectionID c = td_collectionID t) cols = None
          then (case getCollectionDetails (td_collectionID t) s of
                  Inl e \<Rightarrow> (ls2, Inl e)
                | Inr c \<Rightarrow> summary_loop s expected rest ls2 n1 (cols @ [c]))
          else summary_loop s expected rest ls2 n1 cols)"

definition stateSummaryOnFailure :: "'d session \<Rightarrow> TopoState \<Rightarrow> mq_state \<Rightarrow> summary_line list" where
  "stateSummaryOnFailure s topoState expected =
     (case summary_loop s expected topoState [] 0 [] of
        (ls, Inl e) \<Rightarrow> ls @ [SummaryError (what e)]
      | (ls, Inr (failed, cols)) \<Rightarrow>
          ls @
          (if cols \<noteq> []
           then FailedCollections expected #
                map (\<lambda>(i, c). FailedCollection i c) (zip (map int [1..<Suc (length cols)]) cols)
           else []) @
          [SummaryAfter expected,
           TaskTotals (numTasks s) (of_nat (numTasks s) - failed) failed,
           CollectionTotals (numCollections s) (of_nat (numCollections s) - of_nat (length cols)) (length cols)])"

section \<open>Shutting an agent down\<close>

text \<open>The command that stops an agent is sent to DDS; \<^verbatim>\<open>getNumSlots\<close> asks for the active slots.\<close>

type_synonym 'd agent_command = "nat \<Rightarrow> u64 \<Rightarrow> int \<Rightarrow> 'd \<Rightarrow> 'd \<times> exn option"

definition getNumSlots :: "('d, 'p) env \<Rightarrow> 'c config_scheme \<Rightarrow> CommonParams \<Rightarrow> 'd req \<Rightarrow> (exn + u32) \<times> 'd req" where
  "getNumSlots E c common rq =
     (dds_agentCount E (rq_n rq) (requestTimeout E c common (rq_n rq)) (s_ddsSession (rq_session rq)), contact rq)"

fun poll_slots ::
  "('d, 'p) env \<Rightarrow> 'c config_scheme \<Rightarrow> CommonParams \<Rightarrow> u64 \<Rightarrow> nat \<Rightarrow> u64 \<Rightarrow> 'd req \<Rightarrow> (exn + u64) \<times> 'd req" where
  "poll_slots E c common expected maxAttempts current rq =
     (if current \<noteq> expected \<and> maxAttempts > 0
      then (case getNumSlots E c common rq of
              (Inl e, rq1) \<Rightarrow> (Inl e, rq1)
            | (Inr n, rq1) \<Rightarrow> poll_slots E c common expected (maxAttempts - 1) (ucast n) rq1)
      else (Inr current, rq))"

definition ShutdownDDSAgent ::
  "'d agent_command \<Rightarrow> ('d, 'p) env \<Rightarrow> 'c config_scheme \<Rightarrow> CommonParams \<Rightarrow> u64 \<Rightarrow> 'd req \<Rightarrow> 'd req" where
  "ShutdownDDSAgent send E c common agentID rq =
     (case map_of (s_agentSlots (rq_session rq)) agentID of
        None \<Rightarrow> rq
      | Some numSlotsToRemove \<Rightarrow>
          let expected = s_totalSlots (rq_session rq) - ucast numSlotsToRemove;
              (d, e) = send (rq_n rq) agentID (requestTimeout E c common (rq_n rq)) (s_ddsSession (rq_session rq));
              rq1 = contact (set_dds d rq) in
          (case e of
             Some _ \<Rightarrow> rq1
           | None \<Rightarrow>
              (case getNumSlots E c common rq1 of
                 (Inl _, rq2) \<Rightarrow> rq2
               | (Inr n, rq2) \<Rightarrow>
                   let current = ucast n;
                       secondsLeft = requestTimeout E c common (rq_n rq2);
                       (r, rq3) = (if current \<noteq> expected \<and> secondsLeft > 0
                                   then poll_slots E c common expected (nat ((secondsLeft * 1000) div 50)) current rq2
                                   else (Inr current, rq2))
                   in (case r of
                         Inl _ \<Rightarrow> rq3
                       | Inr count \<Rightarrow> rq3\<lparr>rq_session := (rq_session rq3)\<lparr>s_totalSlots := count\<rparr>\<rparr>))))"

section \<open>Properties\<close>

lemma map_of_count_key:
  "map_of (count_key k counts) = (map_of counts)(k \<mapsto> (case map_of counts k of None \<Rightarrow> 0 | Some n \<Rightarrow> n) + 1)"
  by (auto simp: count_key_def Let_def fun_eq_iff split: option.split)

lemma map_of_count_keys:
  "map_of (fold (\<lambda>x. count_key (f x)) xs counts) k =
     (let n = length (filter (\<lambda>x. f x = k) xs)
      in if n = 0 then map_of counts k else Some ((case map_of counts k of None \<Rightarrow> 0 | Some m \<Rightarrow> m) + of_nat n))"
  by (induction xs arbitrary: counts) (auto simp: map_of_count_key Let_def split: option.split)

lemma sorted_count_keys: "sorted_keys counts \<Longrightarrow> sorted_keys (fold (\<lambda>x. count_key (f x)) xs counts)"
  by (induction xs arbitrary: counts) (simp_all add: count_key_def Let_def sorted_keys_smap_set)

text \<open>
  The statistics count every device once, under its state, and every collection once, under its aggregated state; a
  state without any is not listed, and the states come in the order of their numbers.
\<close>
theorem state_statistics:
  "map_of (taskStateCounts ts) st =
     (let n = length (filter (\<lambda>d. ds_state d = st) ts) in if n = 0 then None else Some (of_nat n)) \<and>
   map_of (collectionStateCounts ts) a =
     (let n = length (filter (\<lambda>(_, g). AggregateState g = a) (GroupByCollectionId ts)) in if n = 0 then None else Some (of_nat n)) \<and>
   sorted_keys (taskStateCounts ts) \<and> sorted_keys (collectionStateCounts ts)"
  unfolding taskStateCounts_def collectionStateCounts_def
  using map_of_count_keys [of ds_state ts "[]" st] map_of_count_keys [of "\<lambda>(_, g). AggregateState g" "GroupByCollectionId ts" "[]" a]
    sorted_count_keys [of "[]" ds_state ts] sorted_count_keys [of "[]" "\<lambda>(_, g). AggregateState g" "GroupByCollectionId ts"]
  by (simp add: Let_def case_prod_unfold)

text \<open>The devices and collections a summary lists, in its order.\<close>

definition listed_devices :: "summary_line list \<Rightarrow> DeviceStatus list" where
  "listed_devices ls = concat (map (\<lambda>l. case l of FailedDevice _ _ st \<Rightarrow> [st] | _ \<Rightarrow> []) ls)"

definition listed_collections :: "summary_line list \<Rightarrow> CollectionDetails list" where
  "listed_collections ls = concat (map (\<lambda>l. case l of FailedCollection _ c \<Rightarrow> [c] | _ \<Rightarrow> []) ls)"

lemma listed_append [simp]:
  "listed_devices (xs @ ys) = listed_devices xs @ listed_devices ys"
  "listed_collections (xs @ ys) = listed_collections xs @ listed_collections ys"
  by (simp_all add: listed_devices_def listed_collections_def)

lemma listed_simps [simp]:
  "listed_devices [] = []" "listed_devices (FailedDevice n t st # ls) = st # listed_devices ls"
  "listed_devices (FailedDevices e # ls) = listed_devices ls" "listed_devices (FailedCollections e # ls) = listed_devices ls"
  "listed_devices (SummaryAfter e # ls) = listed_devices ls" "listed_devices (TaskTotals a b d # ls) = listed_devices ls"
  "listed_devices (CollectionTotals a b' d' # ls) = listed_devices ls"
  "listed_collections [] = []" "listed_collections (FailedDevice n t st # ls) = listed_collections ls"
  "listed_collections (FailedDevices e # ls) = listed_collections ls" "listed_collections (FailedCollections e # ls) = listed_collections ls"
  "listed_collections (SummaryAfter e # ls) = listed_collections ls" "listed_collections (TaskTotals a b d # ls) = listed_collections ls"
  "listed_collections (CollectionTotals a b' d' # ls) = listed_collections ls"
  by (simp_all add: listed_devices_def listed_collections_def)

lemma listed_numbered:
  "listed_collections (map (\<lambda>(i, c). FailedCollection i c) (zip (map int [a..<b]) cs)) = take (b - a) cs"
  "listed_devices (map (\<lambda>(i, c). FailedCollection i c) zs) = []"
proof -
  show "listed_devices (map (\<lambda>(i, c). FailedCollection i c) zs) = []" by (induction zs) (auto simp: listed_devices_def)
  have "listed_collections (map (\<lambda>(i, c). FailedCollection i c) zs) = map snd zs" for zs
    by (induction zs) (auto simp: listed_collections_def)
  then show "listed_collections (map (\<lambda>(i, c). FailedCollection i c) (zip (map int [a..<b]) cs)) = take (b - a) cs"
    by (simp add: map_snd_zip_take min_def)
qed

text \<open>The details of a task and of its collection are known to the session under their ids.\<close>

definition known_task :: "'d session \<Rightarrow> DeviceStatus \<Rightarrow> bool" where
  "known_task s ds \<longleftrightarrow> (\<exists>t. map_of (s_taskDetails s) (ds_taskId ds) = Some t \<and>
     (td_collectionID t \<noteq> 0 \<longrightarrow> (\<exists>c. map_of (s_collectionDetails s) (td_collectionID t) = Some c \<and> cd_collectionID c = td_collectionID t)))"

definition collection_of :: "'d session \<Rightarrow> DeviceStatus \<Rightarrow> collection_id" where
  "collection_of s ds = (case map_of (s_taskDetails s) (ds_taskId ds) of None \<Rightarrow> 0 | Some t \<Rightarrow> td_collectionID t)"

lemma summary_loop_known:
  assumes "\<forall>ds \<in> set ts. as_expected e ds \<or> known_task s ds" and "distinct (map cd_collectionID cols)"
    and "\<forall>c \<in> set cols. map_of (s_collectionDetails s) (cd_collectionID c) = Some c"
  shows "\<exists>ls' cols'. summary_loop s e ts ls n cols =
      (ls @ ls', Inr (n + of_nat (length (filter (\<lambda>ds. \<not> as_expected e ds) ts)), cols @ cols')) \<and>
    listed_devices ls' = filter (\<lambda>ds. \<not> as_expected e ds) ts \<and> listed_collections ls' = [] \<and>
    distinct (map cd_collectionID (cols @ cols')) \<and>
    set (map cd_collectionID (cols @ cols')) =
      set (map cd_collectionID cols) \<union> (collection_of s ` set (filter (\<lambda>ds. \<not> as_expected e ds) ts) - {0})"
  using assms
proof (induction ts arbitrary: ls n cols)
  case (Cons d ts)
  show ?case
  proof (cases "as_expected e d")
    case True
    with Cons.IH [of cols ls n] Cons.prems show ?thesis by simp
  next
    case False
    then obtain t where t: "map_of (s_taskDetails s) (ds_taskId d) = Some t"
      "td_collectionID t \<noteq> 0 \<longrightarrow> (\<exists>c. map_of (s_collectionDetails s) (td_collectionID t) = Some c \<and> cd_collectionID c = td_collectionID t)"
      using Cons.prems(1) by (auto simp: known_task_def)
    let ?ls = "(if n + 1 = 1 then ls @ [FailedDevices e] else ls) @ [FailedDevice (n + 1) t d]"
    have cid: "collection_of s d = td_collectionID t" and details: "getTaskDetails (ds_taskId d) s = Inr t"
      by (simp_all add: collection_of_def getTaskDetails_def t(1))
    show ?thesis
    proof (cases "td_collectionID t \<noteq> 0 \<and> find (\<lambda>c. cd_collectionID c = td_collectionID t) cols = None")
      case True
      then obtain c where c: "map_of (s_collectionDetails s) (td_collectionID t) = Some c" "cd_collectionID c = td_collectionID t"
        using t(2) by blast
      have new: "td_collectionID t \<notin> cd_collectionID ` set cols" using True by (auto simp: find_None_iff)
      from Cons.IH [of "cols @ [c]" ?ls "n + 1"] Cons.prems c new
      obtain ls' cols' where ih: "summary_loop s e ts ?ls (n + 1) (cols @ [c]) =
          (?ls @ ls', Inr (n + 1 + of_nat (length (filter (\<lambda>ds. \<not> as_expected e ds) ts)), (cols @ [c]) @ cols'))"
        "listed_devices ls' = filter (\<lambda>ds. \<not> as_expected e ds) ts" "listed_collections ls' = []"
        "distinct (map cd_collectionID ((cols @ [c]) @ cols'))"
        "set (map cd_collectionID ((cols @ [c]) @ cols')) =
          set (map cd_collectionID (cols @ [c])) \<union> (collection_of s ` set (filter (\<lambda>ds. \<not> as_expected e ds) ts) - {0})"
        by auto
      show ?thesis
        by (rule exI [of _ "(if n + 1 = 1 then [FailedDevices e] else []) @ FailedDevice (n + 1) t d # ls'"],
            rule exI [of _ "c # cols'"])
          (use ih False True c new in \<open>auto simp: details cid getCollectionDetails_def Let_def\<close>)
    next
      case old: False
      then have mem: "td_collectionID t = 0 \<or> td_collectionID t \<in> cd_collectionID ` set cols"
        by (metis (mono_tags, lifting) find_None_iff image_eqI)
      from Cons.IH [of cols ?ls "n + 1"] Cons.prems
      obtain ls' cols' where ih: "summary_loop s e ts ?ls (n + 1) cols =
          (?ls @ ls', Inr (n + 1 + of_nat (length (filter (\<lambda>ds. \<not> as_expected e ds) ts)), cols @ cols'))"
        "listed_devices ls' = filter (\<lambda>ds. \<not> as_expected e ds) ts" "listed_collections ls' = []"
        "distinct (map cd_collectionID (cols @ cols'))"
        "set (map cd_collectionID (cols @ cols')) =
          set (map cd_collectionID cols) \<union> (collection_of s ` set (filter (\<lambda>ds. \<not> as_expected e ds) ts) - {0})"
        by auto
      show ?thesis
        by (rule exI [of _ "(if n + 1 = 1 then [FailedDevices e] else []) @ FailedDevice (n + 1) t d # ls'"], rule exI [of _ cols'])
          (use ih False old mem in \<open>auto simp: details cid Let_def\<close>)
    qed
  qed
qed simp

text \<open>
  When the session knows the tasks that failed and their collections, the summary lists exactly the devices that are
  neither ignored nor in the expected state, in the order of the topology, each collection that has one of them once,
  and ends with the totals; otherwise it ends in an error.
\<close>
theorem stateSummary_lists:
  assumes "\<forall>ds \<in> set ts. as_expected e ds \<or> known_task s ds"
  shows "listed_devices (stateSummaryOnFailure s ts e) = filter (\<lambda>ds. \<not> as_expected e ds) ts \<and>
    distinct (map cd_collectionID (listed_collections (stateSummaryOnFailure s ts e))) \<and>
    cd_collectionID ` set (listed_collections (stateSummaryOnFailure s ts e)) =
      collection_of s ` {ds \<in> set ts. \<not> as_expected e ds} - {0} \<and>
    TaskTotals (numTasks s) (of_nat (numTasks s) - of_nat (length (filter (\<lambda>ds. \<not> as_expected e ds) ts)))
      (of_nat (length (filter (\<lambda>ds. \<not> as_expected e ds) ts))) \<in> set (stateSummaryOnFailure s ts e)"
proof -
  obtain ls cols where l: "summary_loop s e ts [] 0 [] = (ls, Inr (of_nat (length (filter (\<lambda>ds. \<not> as_expected e ds) ts)), cols))"
    "listed_devices ls = filter (\<lambda>ds. \<not> as_expected e ds) ts" "listed_collections ls = []"
    "distinct (map cd_collectionID cols)"
    "set (map cd_collectionID cols) = collection_of s ` set (filter (\<lambda>ds. \<not> as_expected e ds) ts) - {0}"
    using summary_loop_known [OF assms, of "[]" "[]" 0] by auto
  show ?thesis
    using l(2-5) by (auto simp: stateSummaryOnFailure_def l(1) listed_numbered simp del: upt_Suc)
qed

text \<open>What a look at the slots would find at a contact.\<close>

definition slots_seen :: "('d, 'p) env \<Rightarrow> 'c config_scheme \<Rightarrow> CommonParams \<Rightarrow> 'd \<Rightarrow> nat \<Rightarrow> exn + u32" where
  "slots_seen E c common d j = dds_agentCount E j (requestTimeout E c common j) d"

lemma getNumSlots_seen: "getNumSlots E c common rq = (slots_seen E c common (s_ddsSession (rq_session rq)) (rq_n rq), contact rq)"
  by (simp add: getNumSlots_def slots_seen_def)

lemma contact_simps [simp]: "rq_n (contact rq) = Suc (rq_n rq)" "rq_session (contact rq) = rq_session rq"
  by (simp_all add: contact_def)

lemma set_dds_simps [simp]: "rq_n (set_dds d rq) = rq_n rq" "rq_session (set_dds d rq) = (rq_session rq)\<lparr>s_ddsSession := d\<rparr>"
  by (simp_all add: set_dds_def)

lemma poll_slots_bound: "rq_n (snd (poll_slots E c common expected m current rq)) \<le> rq_n rq + m"
  by (induction E c common expected m current rq rule: poll_slots.induct)
    (force simp: getNumSlots_seen split: sum.splits)

lemma poll_slots_reaches:
  assumes "k < m" and "slots_seen E c common (s_ddsSession (rq_session rq)) (rq_n rq + k) = Inr n" and "ucast n = expected"
    and "\<And>j. j < k \<Longrightarrow> \<exists>n'. slots_seen E c common (s_ddsSession (rq_session rq)) (rq_n rq + j) = Inr n'"
  shows "fst (poll_slots E c common expected m current rq) = Inr expected"
  using assms(1,2,4)
proof (induction k arbitrary: m current rq)
  case 0
  then show ?case
    using assms(3) poll_slots.simps [of E c common expected "m - 1" expected] by (auto simp: getNumSlots_seen)
next
  case (Suc k)
  obtain n' where n': "slots_seen E c common (s_ddsSession (rq_session rq)) (rq_n rq) = Inr n'"
    using Suc.prems(3) [of 0] by auto
  have "fst (poll_slots E c common expected (m - 1) (ucast n') (contact rq)) = Inr expected"
    using Suc.prems(1,2) Suc.prems(3) [of "Suc j" for j] by (intro Suc.IH) auto
  then show ?case using Suc.prems(1) n' by (auto simp: getNumSlots_seen)
qed

declare poll_slots.simps [simp del]

text \<open>
  Shutting an agent down contacts DDS at most 20 times a second that is left of the timeout, beyond the command and
  the first look; and when one of the looks finds the slots reduced by those of the agent, that is the session's number.
\<close>
theorem ShutdownDDSAgent_polls:
  assumes "map_of (s_agentSlots (rq_session rq)) agentID = Some k"
    and "send (rq_n rq) agentID (requestTimeout E c common (rq_n rq)) (s_ddsSession (rq_session rq)) = (d, None)"
    and "T = requestTimeout E c common (rq_n rq + 2)" and "0 < T"
  shows "rq_n (ShutdownDDSAgent send E c common agentID rq) \<le> rq_n rq + 2 + 20 * nat T \<and>
    (\<forall>i \<le> 20 * nat T. \<forall>n. slots_seen E c common d (rq_n rq + 1 + i) = Inr n \<and>
       ucast n = s_totalSlots (rq_session rq) - ucast k \<and> (\<forall>j < i. \<exists>n'. slots_seen E c common d (rq_n rq + 1 + j) = Inr n') \<longrightarrow>
       s_totalSlots (rq_session (ShutdownDDSAgent send E c common agentID rq)) = s_totalSlots (rq_session rq) - ucast k)"
proof -
  let ?e = "s_totalSlots (rq_session rq) - ucast k" and ?rq2 = "contact (contact (set_dds d rq))"
  let ?rest = "\<lambda>n. if ucast n \<noteq> ?e then poll_slots E c common ?e (20 * nat T) (ucast n) ?rq2 else (Inr (ucast n), ?rq2)"
  have attempts: "nat (T * 1000 div 50) = 20 * nat T" using assms(4) by simp
  have rq2: "rq_n ?rq2 = rq_n rq + 2" "s_ddsSession (rq_session ?rq2) = d" by simp_all
  have run: "ShutdownDDSAgent send E c common agentID rq =
      (case slots_seen E c common d (rq_n rq + 1) of
         Inl _ \<Rightarrow> ?rq2
       | Inr n \<Rightarrow> (case ?rest n of (r, rq3) \<Rightarrow>
           (case r of Inl _ \<Rightarrow> rq3 | Inr count \<Rightarrow> rq3\<lparr>rq_session := (rq_session rq3)\<lparr>s_totalSlots := count\<rparr>\<rparr>)))"
    using assms(3,4) attempts
    by (simp add: ShutdownDDSAgent_def getNumSlots_seen assms(1,2) Let_def split: sum.split)
  have found: "s_totalSlots (rq_session (ShutdownDDSAgent send E c common agentID rq)) = ?e"
    if h: "i \<le> 20 * nat T" "slots_seen E c common d (rq_n rq + 1 + i) = Inr n" "ucast n = ?e"
      "\<forall>j < i. \<exists>n'. slots_seen E c common d (rq_n rq + 1 + j) = Inr n'" for i n
  proof (cases i)
    case 0
    with h show ?thesis by (simp add: run)
  next
    case (Suc i')
    obtain n0 where n0: "slots_seen E c common d (rq_n rq + 1) = Inr n0" using h(4) Suc by fastforce
    have "fst (poll_slots E c common ?e (20 * nat T) (ucast n0) ?rq2) = Inr ?e"
    proof (rule poll_slots_reaches [of i' _ _ _ _ _ n])
      show "\<exists>n'. slots_seen E c common (s_ddsSession (rq_session ?rq2)) (rq_n ?rq2 + j) = Inr n'" if "j < i'" for j
        using h(4) that Suc by (auto dest: spec [of _ "Suc j"])
    qed (use h(1-3) Suc in simp_all)
    then show ?thesis using n0 by (simp add: run split_def)
  qed
  have "rq_n (snd (?rest n)) \<le> rq_n rq + 2 + 20 * nat T" for n
    using poll_slots_bound [of E c common ?e "20 * nat T" "ucast n" ?rq2] by simp
  then have "rq_n (ShutdownDDSAgent send E c common agentID rq) \<le> rq_n rq + 2 + 20 * nat T"
    unfolding run split_def by (auto split del: if_split split: sum.split)
  with found show ?thesis by blast
qed

section \<open>Witnesses\<close>

definition sample_failures :: TopoState where
  "sample_failures = [(new_DeviceStatus False 1 9)\<lparr>ds_state := Ready\<rparr>, (new_DeviceStatus False 2 9)\<lparr>ds_state := Error\<rparr>,
     (new_DeviceStatus False 3 0)\<lparr>ds_state := Error, ds_ignored := True\<rparr>]"

definition sample_known :: "string session" where
  "sample_known = addCollectionDetails \<lparr>cd_agentID = 0, cd_slotID = 0, cd_collectionID = 9, cd_path = ''c'', cd_host = ''h'', cd_wrkDir = ''''\<rparr>
     (addTaskDetails \<lparr>td_agentID = 0, td_slotID = 0, td_taskID = 2, td_collectionID = 9, td_path = ''c/t'', td_host = ''h'', td_wrkDir = ''''\<rparr>
       (new_session '''' ''p''))"

theorem stateSummary_lists_witness:
  "map ds_taskId (listed_devices (stateSummaryOnFailure sample_known sample_failures Ready)) = [2] \<and>
   cd_collectionID ` set (listed_collections (stateSummaryOnFailure sample_known sample_failures Ready)) = {9}"
proof -
  have k: "\<forall>ds \<in> set sample_failures. as_expected Ready ds \<or> known_task sample_known ds"
    by (simp add: sample_failures_def sample_known_def as_expected_def known_task_def addCollectionDetails_def addTaskDetails_def
        new_session_def new_DeviceStatus_def)
  have f: "map ds_taskId (filter (\<lambda>ds. \<not> as_expected Ready ds) sample_failures) = [2]"
    "collection_of sample_known ` set (filter (\<lambda>ds. \<not> as_expected Ready ds) sample_failures) - {0} = {9}"
    by (simp_all del: set_filter add: sample_failures_def sample_known_def as_expected_def collection_of_def addCollectionDetails_def
        addTaskDetails_def new_session_def new_DeviceStatus_def)
  show ?thesis using stateSummary_lists [OF k] f by simp
qed

definition sample_agents :: "string req" where
  "sample_agents = \<lparr>rq_session = (new_session ''session'' ''p'')\<lparr>s_totalSlots := 8, s_agentSlots := [(3, 4)]\<rparr>, rq_error = no_error,
     rq_topo = default_TopologyState, rq_n = 0, rq_writes = []\<rparr>"

theorem ShutdownDDSAgent_polls_witness:
  "s_totalSlots (rq_session (ShutdownDDSAgent (\<lambda>n i t d. (d, None)) sample_env (new_controller [] :: string controller)
     sample_common 3 sample_agents)) = 4"
proof -
  let ?c = "new_controller [] :: string controller" and ?send = "\<lambda>n i t d. (d :: string, None :: exn option)"
  have k: "map_of (s_agentSlots (rq_session sample_agents)) 3 = Some 4" by (simp add: sample_agents_def)
  have T: "30 = requestTimeout sample_env ?c sample_common (rq_n sample_agents + 2)"
    by (simp add: requestTimeout_def sample_env_def sample_common_def new_controller_def trunc_div_def)
  have seen: "slots_seen sample_env ?c sample_common d n = Inr 4" for d n
    by (simp add: slots_seen_def sample_env_def)
  show ?thesis
    using ShutdownDDSAgent_polls [of sample_agents 3 4 ?send, OF k _ T] seen
    by (auto simp: sample_agents_def dest: spec [of _ 0])
qed

end
