(* ===== verification/Slurm_Plugin.thy ===== *)
theory Slurm_Plugin
  imports DDS_Submit
begin

text \<open>
  \<^verbatim>\<open>src/plugins/rp-epn-slurm/odc-rp-epn-slurm.cpp\<close>: the resource plugin that turns a resource description into
  Slurm submissions, and how the controller runs it. Parameters: the property trees of JSON (\<open>json_api\<close>) and
  the parsed command line. A run of the program is its exit code, standard output and standard error.
\<close>

section \<open>Resources\<close>

text \<open>
  Boost's trees: the children in order, the child at the empty path, a string that must be there and an
  \<^verbatim>\<open>int32_t\<close> with a default.
\<close>

record 'p json_api =
  js_read :: "string \<Rightarrow> exn + 'p"
  js_children :: "'p \<Rightarrow> (string \<times> 'p) list"
  js_at_empty :: "'p \<Rightarrow> exn + 'p"
  js_string :: "'p \<Rightarrow> string \<Rightarrow> exn + string"
  js_int32 :: "'p \<Rightarrow> string \<Rightarrow> 32 word \<Rightarrow> 32 word"

record Resource =
  rs_zone :: string
  rs_n :: "32 word"

definition resource_of_ptree :: "'p json_api \<Rightarrow> 'p \<Rightarrow> exn + Resource" where
  "resource_of_ptree api pt =
     (case filter (\<lambda>(tag, _). tag \<notin> {''zone'', ''n''}) (js_children api pt) of
        (tag, _) # _ \<Rightarrow> Inl (RuntimeError (''Failed to init from property tree. Unknown key '' @ quoted tag))
      | [] \<Rightarrow> bind_exn (js_string api pt ''zone'') (\<lambda>z. Inr \<lparr>rs_zone = z, rs_n = js_int32 api pt ''n'' (- 1)\<rparr>))"

fun read_resources :: "'p json_api \<Rightarrow> (string \<times> 'p) list \<Rightarrow> exn + Resource list" where
  "read_resources api [] = Inr []"
| "read_resources api ((_, tree) # ts) =
     bind_exn (resource_of_ptree api tree) (\<lambda>r. bind_exn (read_resources api ts) (\<lambda>rs. Inr (r # rs)))"

definition Resources :: "'p json_api \<Rightarrow> string \<Rightarrow> exn + Resource list" where
  "Resources api res =
     (case js_read api res of
        Inl _ \<Rightarrow> Inl (RuntimeError (''Invalid resource JSON string provided: '' @ res))
      | Inr pt \<Rightarrow>
          if length (filter (\<lambda>(tag, _). tag = '''') (js_children api pt)) = 0
          then bind_exn (resource_of_ptree api pt) (\<lambda>r. Inr [r])
          else bind_exn (js_at_empty api pt) (\<lambda>arr. read_resources api (js_children api arr)))"

section \<open>Zones\<close>

record SlurmZone =
  sz_numSlots :: u64
  sz_slurmCfgPath :: string
  sz_envCfgPath :: string

text \<open>\<^verbatim>\<open>stoul\<close>: a negative number wraps.\<close>

definition stoul :: "string \<Rightarrow> exn + u64" where
  "stoul s =
     (case parse_decimal s of
        None \<Rightarrow> Inl (InvalidArgument ''stoul'')
      | Some v \<Rightarrow> if \<bar>v\<bar> < 2 ^ 64 then Inr (word_of_int v) else Inl (OutOfRange ''stoul''))"

fun getZoneConfig_loop :: "string list \<Rightarrow> (string \<times> SlurmZone) list \<Rightarrow> exn + (string \<times> SlurmZone) list" where
  "getZoneConfig_loop [] result = Inr result"
| "getZoneConfig_loop (z # zs) result =
     (case split_at (CHR '':'') z of
        [name, slots, slurmCfg, envCfg] \<Rightarrow>
          bind_exn (stoul slots) (\<lambda>n.
            getZoneConfig_loop zs (smap_emplace name \<lparr>sz_numSlots = n, sz_slurmCfgPath = slurmCfg, sz_envCfgPath = envCfg\<rparr> result))
      | _ \<Rightarrow> Inl (RuntimeError (''Provided zones configuration has incorrect format. '' @
               ''Expected <name>:<numSlots>:<slurmCfgPath>:<envCfgPath>. Received: '' @ z)))"

definition getZoneConfig :: "string list \<Rightarrow> exn + (string \<times> SlurmZone) list" where
  "getZoneConfig zonesStr = getZoneConfig_loop zonesStr []"

section \<open>The program\<close>

record plugin_run =
  pr_exit :: int
  pr_out :: string
  pr_err :: string

definition submit_line :: "Resource \<Rightarrow> SlurmZone \<Rightarrow> string" where
  "submit_line r zone =
     ''<submit>'' @ ''<rms>slurm</rms>'' @
     (if sz_slurmCfgPath zone \<noteq> '''' then ''<configFile>'' @ sz_slurmCfgPath zone @ ''</configFile>'' else '''') @
     (if sz_envCfgPath zone \<noteq> '''' then ''<envFile>'' @ sz_envCfgPath zone @ ''</envFile>'' else '''') @
     ''<agents>'' @ string_of_int (sint (rs_n r)) @ ''</agents>'' @
     ''<zone>'' @ rs_zone r @ ''</zone>'' @
     ''<slots>'' @ string_of_nat (unat (sz_numSlots zone)) @ ''</slots>'' @
     ''</submit>'' @ [CHR 0x0A]"

fun submit_resources :: "(string \<times> SlurmZone) list \<Rightarrow> Resource list \<Rightarrow> string \<Rightarrow> plugin_run" where
  "submit_resources zones [] out = \<lparr>pr_exit = 0, pr_out = out, pr_err = ''''\<rparr>"
| "submit_resources zones (r # rs) out =
     (case map_of zones (rs_zone r) of
        None \<Rightarrow> \<lparr>pr_exit = 1, pr_out = out, pr_err = ''Zone not found: '' @ rs_zone r\<rparr>
      | Some zone \<Rightarrow> submit_resources zones rs (out @ submit_line r zone))"

text \<open>The command line: which of the options that end the program are given, the description and the zones.\<close>

record slurm_options =
  so_help :: bool
  so_version :: bool
  so_res :: string
  so_zones :: "string list"

definition slurm_main :: "'p json_api \<Rightarrow> string \<Rightarrow> string \<Rightarrow> exn + slurm_options \<Rightarrow> plugin_run" where
  "slurm_main api help version args =
     (case args of
        Inl e \<Rightarrow> \<lparr>pr_exit = 1, pr_out = '''', pr_err = what e\<rparr>
      | Inr o1 \<Rightarrow>
          if so_help o1 then \<lparr>pr_exit = 0, pr_out = help, pr_err = ''''\<rparr>
          else if so_version o1 then \<lparr>pr_exit = 0, pr_out = version @ [CHR 0x0A], pr_err = ''''\<rparr>
          else
           (case bind_exn (Resources api (so_res o1)) (\<lambda>rs. bind_exn (getZoneConfig (so_zones o1)) (\<lambda>zones. Inr (rs, zones))) of
              Inl e \<Rightarrow> \<lparr>pr_exit = 1, pr_out = '''', pr_err = what e\<rparr>
            | Inr (rs, zones) \<Rightarrow> submit_resources zones rs ''''))"

section \<open>Properties\<close>

lemma submit_resources_split:
  "submit_resources zones rs out =
     (let known = takeWhile (\<lambda>r. map_of zones (rs_zone r) \<noteq> None) rs; rest = dropWhile (\<lambda>r. map_of zones (rs_zone r) \<noteq> None) rs;
          out1 = out @ concat (map (\<lambda>r. submit_line r (the (map_of zones (rs_zone r)))) known)
      in if rest = [] then \<lparr>pr_exit = 0, pr_out = out1, pr_err = ''''\<rparr>
         else \<lparr>pr_exit = 1, pr_out = out1, pr_err = ''Zone not found: '' @ rs_zone (hd rest)\<rparr>)"
  by (induction zones rs out rule: submit_resources.induct) (auto simp: Let_def split: option.split)

text \<open>The entry of a zone: its first complete description.\<close>

definition zone_entry :: "string \<Rightarrow> (string \<times> SlurmZone) option" where
  "zone_entry z =
     (case split_at (CHR '':'') z of
        [name, slots, slurmCfg, envCfg] \<Rightarrow>
          (case stoul slots of Inl _ \<Rightarrow> None
           | Inr n \<Rightarrow> Some (name, \<lparr>sz_numSlots = n, sz_slurmCfgPath = slurmCfg, sz_envCfgPath = envCfg\<rparr>))
      | _ \<Rightarrow> None)"

lemma getZoneConfig_loop_entries:
  "getZoneConfig_loop zs result = Inr zones \<Longrightarrow> (\<forall>z \<in> set zs. zone_entry z \<noteq> None) \<and>
     map_of zones name = (case map_of result name of Some v \<Rightarrow> Some v | None \<Rightarrow> map_of (List.map_filter zone_entry zs) name)"
proof (induction zs result rule: getZoneConfig_loop.induct)
  case (2 z zs result)
  then obtain n slots sc ec w where s: "split_at (CHR '':'') z = [n, slots, sc, ec]" "stoul slots = Inr w"
    "getZoneConfig_loop zs (smap_emplace n \<lparr>sz_numSlots = w, sz_slurmCfgPath = sc, sz_envCfgPath = ec\<rparr> result) = Inr zones"
    by (auto simp: bind_exn_def split: list.splits sum.splits)
  have e: "zone_entry z = Some (n, \<lparr>sz_numSlots = w, sz_slurmCfgPath = sc, sz_envCfgPath = ec\<rparr>)"
    using s by (simp add: zone_entry_def)
  show ?case
    using "2.IH" [OF s(1) refl refl refl refl s(3)] by (auto simp: e List.map_filter_simps split: option.splits)
qed (simp add: List.map_filter_simps split: option.split)

lemma getZoneConfig_loop_ok: "\<forall>z \<in> set zs. zone_entry z \<noteq> None \<Longrightarrow> \<exists>zones. getZoneConfig_loop zs result = Inr zones"
proof (induction zs arbitrary: result)
  case (Cons z zs)
  then obtain n slots sc ec w where "split_at (CHR '':'') z = [n, slots, sc, ec]" "stoul slots = Inr w"
    by (auto simp: zone_entry_def split: list.splits sum.splits)
  with Cons show ?case by simp
qed simp

text \<open>
  The zones are accepted exactly if each has four fields, the second one a number; a zone that is described twice
  keeps its first description. The three fields of the example in the plugin's README are refused.
\<close>
theorem getZoneConfig_accepts:
  "((\<exists>zones. getZoneConfig zs = Inr zones) \<longleftrightarrow> list_all (\<lambda>z. zone_entry z \<noteq> None) zs) \<and>
   (case getZoneConfig zs of Inl _ \<Rightarrow> True | Inr zones \<Rightarrow> map_of zones name = map_of (List.map_filter zone_entry zs) name) \<and>
   \<not> (\<exists>zones. getZoneConfig [''online:8:/home/user/slurm-online.cfg''] = Inr zones)"
proof (intro conjI)
  show "(\<exists>zones. getZoneConfig zs = Inr zones) \<longleftrightarrow> list_all (\<lambda>z. zone_entry z \<noteq> None) zs"
    using getZoneConfig_loop_ok [of zs "[]"] getZoneConfig_loop_entries [of zs "[]"] by (auto simp: getZoneConfig_def list_all_iff)
  show "case getZoneConfig zs of Inl _ \<Rightarrow> True | Inr zones \<Rightarrow> map_of zones name = map_of (List.map_filter zone_entry zs) name"
    using getZoneConfig_loop_entries [of zs "[]" _ name] by (auto simp: getZoneConfig_def split: sum.split)
  show "\<not> (\<exists>zones. getZoneConfig [''online:8:/home/user/slurm-online.cfg''] = Inr zones)"
    by (simp add: getZoneConfig_def)
qed

text \<open>
  C37: The controller takes all of a request or nothing: run through \<^verbatim>\<open>execPlugin\<close>, the plugin gives one submission for each
  resource, in order and with the settings of its zone, when every zone is known, and otherwise an error that names the first
  unknown zone, whatever it printed before.
\<close>
theorem slurm_plugin_all_or_nothing:
  assumes "map_of plugins plugin = Some cmd"
    and "run (cmd @ '' --res '' @ quoted resources @ '' --id '' @ quoted partitionID) timeout = Inr (pr_out p, pr_err p, pr_exit p)"
    and "p = slurm_main api help version (Inr opts)" and "\<not> so_help opts" and "\<not> so_version opts"
    and "Resources api (so_res opts) = Inr rs" and "getZoneConfig (so_zones opts) = Inr zones"
  shows "execPlugin run plugins plugin resources partitionID timeout =
    (case filter (\<lambda>r. map_of zones (rs_zone r) = None) rs of
       [] \<Rightarrow> Inr (concat (map (\<lambda>r. submit_line r (the (map_of zones (rs_zone r)))) rs))
     | r # _ \<Rightarrow> Inl (RuntimeError (''Execution of plugin '' @ quoted plugin @ '' failed with exit code: 1, error: '' @
         ''Zone not found: '' @ rs_zone r)))"
proof -
  let ?known = "\<lambda>r. map_of zones (rs_zone r) \<noteq> None"
  have p: "p = submit_resources zones rs ''''" using assms(3-7) by (simp add: slurm_main_def)
  have first: "filter (\<lambda>r. \<not> P r) xs = (case dropWhile P xs of [] \<Rightarrow> [] | r # rest \<Rightarrow> r # filter (\<lambda>r. \<not> P r) rest)" for P and xs :: "Resource list"
    by (induction xs) auto
  show ?thesis
  proof (cases "dropWhile ?known rs")
    case Nil
    then have t: "takeWhile ?known rs = rs" using takeWhile_dropWhile_id [of ?known rs] by simp
    show ?thesis
      using assms(1,2) first [of ?known rs] Nil by (simp add: execPlugin_def p submit_resources_split Let_def t del: not_None_eq)
  next
    case (Cons r rest)
    have "string_of_int 1 = ''1''" by code_simp
    with Cons first [of ?known rs] show ?thesis
      using assms(1,2) by (simp add: execPlugin_def p submit_resources_split Let_def)
  qed
qed

section \<open>Witness\<close>

text \<open>A description with one resource per word, each of the form \<open>zone\<close>, of ten agents.\<close>

definition sample_json :: "string json_api" where
  "sample_json = \<lparr>js_read = (\<lambda>s. Inr s), js_children = (\<lambda>s. map (\<lambda>w. ('''', w)) (if CHR '','' \<in> set s then split_at (CHR '','') s else [])),
     js_at_empty = Inr, js_string = (\<lambda>s k. Inr s), js_int32 = (\<lambda>s k d. 10)\<rparr>"

definition sample_options :: slurm_options where
  "sample_options = \<lparr>so_help = False, so_version = False, so_res = ''online,calib'', so_zones = [''online:8:a:b'', ''online:9:c:d'']\<rparr>"

theorem slurm_plugin_all_or_nothing_witness:
  "execPlugin (\<lambda>cmd t. let p = slurm_main sample_json '''' '''' (Inr sample_options) in Inr (pr_out p, pr_err p, pr_exit p))
     [(''slurm'', ''odc-rp-epn-slurm'')] ''slurm'' ''online,calib'' ''p'' 30 =
   Inl (RuntimeError (''Execution of plugin '' @ quoted ''slurm'' @ '' failed with exit code: 1, error: Zone not found: calib''))"
proof -
  have z: "getZoneConfig (so_zones sample_options) = Inr [(''online'', \<lparr>sz_numSlots = 8, sz_slurmCfgPath = ''a'', sz_envCfgPath = ''b''\<rparr>)]"
    by code_simp
  have r: "Resources sample_json (so_res sample_options) = Inr [\<lparr>rs_zone = ''online'', rs_n = 10\<rparr>, \<lparr>rs_zone = ''calib'', rs_n = 10\<rparr>]"
    by code_simp
  have o: "\<not> so_help sample_options" "\<not> so_version sample_options" by (simp_all add: sample_options_def)
  show ?thesis
    by (subst slurm_plugin_all_or_nothing [OF _ _ refl o r z, where cmd = "''odc-rp-epn-slurm''"]) (simp_all add: Let_def)
qed

end
