(* ===== verification/Process.thy ===== *)
theory Process
  imports Controller_Samples
begin

text \<open>
  \<^verbatim>\<open>src/odc/Process.h\<close>: running a shell command under a watchdog, and what that means for the controller's calls of it.
  \<^verbatim>\<open>boost::this_process::environment()\<close> is a handle on the environment of the running process, so the extra variables
  are set there: the environment is state that every run passes on. Parameters (\<open>shell\<close>): what becomes of the child, that is
  how long it lives if nobody
  stops it, what has been read of its output by then, and its exit codes. Times are milliseconds after the start; a
  child that ends in the millisecond the watchdog expires is late.
\<close>

section \<open>Running a command\<close>

record child =
  ch_lifetime :: "nat option"
  ch_out :: "nat \<Rightarrow> string"
  ch_err :: "nat \<Rightarrow> string"
  ch_exit :: int
  ch_killed :: int

type_synonym environment = "(string \<times> string) list"

record shell =
  sh_spawn :: "string \<Rightarrow> environment \<Rightarrow> exn + child option"

text \<open>\<^verbatim>\<open>env[e.first] = e.second\<close> for the extra variables in order.\<close>

definition child_env :: "environment \<Rightarrow> (string \<times> string) list \<Rightarrow> environment" where
  "child_env env extraEnv = fold (\<lambda>(k, v). smap_set k v) extraEnv env"

text \<open>The deadline timer; one with a negative duration has expired already.\<close>

definition watchdog :: "int \<Rightarrow> nat" where
  "watchdog timeout = nat (1000 * timeout)"

text \<open>
  \<^verbatim>\<open>ios.run()\<close> and \<^verbatim>\<open>c.wait()\<close>: either the exit handler comes first and cancels the watchdog, or the watchdog stops the
  service and terminates the child. The time at which the call goes on, the error flag, and what was collected.
\<close>

record io_result =
  io_time :: nat
  io_errorFlag :: bool
  io_outBuf :: string
  io_errBuf :: string
  io_exit_code :: int

definition io_run :: "int \<Rightarrow> child \<Rightarrow> io_result" where
  "io_run timeout c =
     (let killed = \<lparr>io_time = watchdog timeout, io_errorFlag = True, io_outBuf = ch_out c (watchdog timeout),
            io_errBuf = ch_err c (watchdog timeout), io_exit_code = ch_killed c\<rparr>
      in case ch_lifetime c of
           None \<Rightarrow> killed
         | Some t \<Rightarrow>
             if t < watchdog timeout
             then \<lparr>io_time = t, io_errorFlag = False, io_outBuf = ch_out c t, io_errBuf = ch_err c t, io_exit_code = ch_exit c\<rparr>
             else killed)"

definition execute_child :: "shell \<Rightarrow> environment \<Rightarrow> string \<Rightarrow> int \<Rightarrow> exn + string \<times> string \<times> int" where
  "execute_child sh env cmd timeout =
     bind_exn (sh_spawn sh cmd env) (\<lambda>c. case c of
       None \<Rightarrow> Inl (RuntimeError ''Can't execute the given process.'')
     | Some c \<Rightarrow>
         (let r = io_run timeout c in
          if io_errorFlag r then Inl (RuntimeError ''Timeout has been reached, command execution will be terminated.'')
          else Inr (io_outBuf r, io_errBuf r, io_exit_code r)))"

text \<open>
  Every exception is reported as one of \<^verbatim>\<open>execute\<close>. On success: standard output, standard error, exit code. Next to the
  outcome stands the environment the process is left with.
\<close>

definition execute ::
  "shell \<Rightarrow> environment \<Rightarrow> string \<Rightarrow> int \<Rightarrow> (string \<times> string) list \<Rightarrow> (exn + string \<times> string \<times> int) \<times> environment" where
  "execute sh env cmd timeout extraEnv =
     (let env1 = child_env env extraEnv in
      (case execute_child sh env1 cmd timeout of
         Inl e \<Rightarrow> Inl (RuntimeError (''execute: '' @ what e))
       | Inr r \<Rightarrow> Inr r, env1))"

text \<open>Commands one after the other, each with its timeout and its extra variables: their outcomes, the environment left.\<close>

fun execute_all ::
  "shell \<Rightarrow> environment \<Rightarrow> (string \<times> int \<times> (string \<times> string) list) list \<Rightarrow>
     (exn + string \<times> string \<times> int) list \<times> environment" where
  "execute_all sh env [] = ([], env)"
| "execute_all sh env ((cmd, timeout, extraEnv) # cmds) =
     (let (r, env1) = execute sh env cmd timeout extraEnv; (rs, env2) = execute_all sh env1 cmds in (r # rs, env2))"

section \<open>Facts\<close>

definition overruns :: "int \<Rightarrow> child \<Rightarrow> bool" where
  "overruns timeout c \<longleftrightarrow> (case ch_lifetime c of None \<Rightarrow> True | Some t \<Rightarrow> watchdog timeout \<le> t)"

abbreviation timeout_error :: exn where
  "timeout_error \<equiv> RuntimeError ''execute: Timeout has been reached, command execution will be terminated.''"

lemma io_run_overruns: "io_errorFlag (io_run timeout c) \<longleftrightarrow> overruns timeout c"
  by (auto simp: io_run_def overruns_def Let_def split: option.split)

lemma execute_started:
  assumes "sh_spawn sh cmd (child_env env extraEnv) = Inr (Some c)"
  shows "fst (execute sh env cmd timeout extraEnv) =
    (if overruns timeout c then Inl timeout_error
     else Inr (ch_out c (the (ch_lifetime c)), ch_err c (the (ch_lifetime c)), ch_exit c))"
  using assms
  by (auto simp: execute_def execute_child_def io_run_def overruns_def Let_def split: option.splits)

lemma map_of_child_env: "map_of (child_env env extraEnv) = map_of env ++ map_of (rev extraEnv)"
  unfolding child_env_def
proof (induction extraEnv arbitrary: env)
  case (Cons e es)
  then show ?case by (cases e) (simp add: map_add_def fun_eq_iff split: option.splits)
qed simp

lemma execute_env [simp]: "snd (execute sh env cmd timeout extraEnv) = child_env env extraEnv"
  by (simp add: execute_def Let_def)

lemma execute_all_env:
  "map_of (snd (execute_all sh env cmds)) = map_of env ++ map_of (rev (concat (map (\<lambda>(cmd, timeout, extraEnv). extraEnv) cmds)))"
proof (induction cmds arbitrary: env)
  case (Cons c cmds)
  obtain cmd timeout extraEnv where c: "c = (cmd, timeout, extraEnv)" by (cases c)
  obtain r env1 where e: "execute sh env cmd timeout extraEnv = (r, env1)" by fastforce
  have "env1 = child_env env extraEnv" using execute_env [of sh env cmd timeout extraEnv] e by simp
  moreover have "snd (execute_all sh env (c # cmds)) = snd (execute_all sh env1 cmds)"
    by (simp add: c e split: prod.split)
  ultimately show ?case by (simp add: Cons.IH map_of_child_env c)
qed simp

lemma execute_all_snoc:
  "fst (execute_all sh env (cmds @ [(cmd, timeout, extraEnv)])) =
     fst (execute_all sh env cmds) @ [fst (execute sh (snd (execute_all sh env cmds)) cmd timeout extraEnv)]"
proof (induction cmds arbitrary: env)
  case (Cons c cmds)
  obtain cmd timeout extraEnv where c: "c = (cmd, timeout, extraEnv)" by (cases c)
  then show ?case by (simp add: split_beta Cons.IH)
qed (simp add: split_beta)

section \<open>Properties\<close>


definition sample_shell :: "child \<Rightarrow> shell" where
  "sample_shell c = \<lparr>sh_spawn = (\<lambda>_ _. Inr (Some c))\<rparr>"

definition sample_child :: "nat option \<Rightarrow> child" where
  "sample_child l = \<lparr>ch_lifetime = l, ch_out = (\<lambda>_. ''<topology/>''), ch_err = (\<lambda>_. ''''), ch_exit = 0, ch_killed = 9\<rparr>"






end
