(* ===== verification/Semaphore.thy ===== *)
theory Semaphore
  imports ODC_Prelude
begin

text \<open>
  \<^verbatim>\<open>src/odc/Semaphore.h\<close>: the semaphore behind the blocking calls of a topology, as an interleaving of the threads that
  use it. What a thread does under \<^verbatim>\<open>fMutex\<close> is one step; \<^verbatim>\<open>fCv.wait\<close> gives the mutex up while it sleeps, and
  \<^verbatim>\<open>Signal\<close> notifies after it has unlocked. A sleeping thread may wake up for no reason, as a condition variable
  allows. The second part is the hand-over all blocking calls of \<^verbatim>\<open>src/odc/Topology.h\<close> are made of: a completion
  handler that stores its result and signals, and a caller that waits and then reads it.
\<close>

section \<open>The semaphore\<close>

type_synonym thread = nat

text \<open>Where a thread is: not in the semaphore, asleep in the condition variable, awake but not yet holding the mutex
  again, or between the increment of \<^verbatim>\<open>Signal\<close> and its notification.\<close>

datatype place = Outside | Sleeping | Woken | Notifying

record sem =
  fCount :: u64
  sm_place :: "thread \<Rightarrow> place"

definition new_sem :: "u64 \<Rightarrow> sem" where
  "new_sem initial_count = \<lparr>fCount = initial_count, sm_place = (\<lambda>_. Outside)\<rparr>"

definition move :: "thread \<Rightarrow> place \<Rightarrow> sem \<Rightarrow> sem" where
  "move t p s = s\<lparr>sm_place := (sm_place s)(t := p)\<rparr>"

text \<open>\<^verbatim>\<open>Wait\<close> up to its return or to sleep, and after waking up; the flag says that the call returns.\<close>

definition Wait_enter :: "thread \<Rightarrow> sem \<Rightarrow> sem \<times> bool" where
  "Wait_enter t s = (if fCount s > 0 then (s\<lparr>fCount := fCount s - 1\<rparr>, True) else (move t Sleeping s, False))"

definition Wait_recheck :: "thread \<Rightarrow> sem \<Rightarrow> sem \<times> bool" where
  "Wait_recheck t s =
     (if fCount s > 0 then (move t Outside (s\<lparr>fCount := fCount s - 1\<rparr>), True) else (move t Sleeping s, False))"

text \<open>\<^verbatim>\<open>Signal\<close>: the increment under the mutex, then \<^verbatim>\<open>notify_one\<close>, which wakes up one thread if any sleeps.\<close>

definition Signal_increment :: "thread \<Rightarrow> sem \<Rightarrow> sem" where
  "Signal_increment t s = move t Notifying (s\<lparr>fCount := fCount s + 1\<rparr>)"

definition Signal_notify :: "thread \<Rightarrow> thread option \<Rightarrow> sem \<Rightarrow> sem" where
  "Signal_notify t w s = move t Outside (case w of None \<Rightarrow> s | Some v \<Rightarrow> move v Woken s)"

definition GetCount :: "sem \<Rightarrow> u64" where
  "GetCount s = fCount s"

text \<open>Whom a notification may wake up.\<close>

definition may_wake :: "sem \<Rightarrow> thread option \<Rightarrow> bool" where
  "may_wake s w \<longleftrightarrow> (case w of None \<Rightarrow> \<forall>v. sm_place s v \<noteq> Sleeping | Some v \<Rightarrow> sm_place s v = Sleeping)"

section \<open>Interleavings\<close>

text \<open>\<open>sem_reach n s r g\<close>: from the initial count \<open>n\<close>, state \<open>s\<close> is reached when \<open>r\<close> waits have returned and
  \<open>g\<close> signals were sent.\<close>

inductive sem_reach :: "u64 \<Rightarrow> sem \<Rightarrow> nat \<Rightarrow> nat \<Rightarrow> bool" for n where
  initial: "sem_reach n (new_sem n) 0 0"
| enter: "sem_reach n s r g \<Longrightarrow> sm_place s t = Outside \<Longrightarrow> Wait_enter t s = (s', ret) \<Longrightarrow>
    sem_reach n s' (if ret then Suc r else r) g"
| spurious: "sem_reach n s r g \<Longrightarrow> sm_place s t = Sleeping \<Longrightarrow> sem_reach n (move t Woken s) r g"
| recheck: "sem_reach n s r g \<Longrightarrow> sm_place s t = Woken \<Longrightarrow> Wait_recheck t s = (s', ret) \<Longrightarrow>
    sem_reach n s' (if ret then Suc r else r) g"
| increment: "sem_reach n s r g \<Longrightarrow> sm_place s t = Outside \<Longrightarrow> sem_reach n (Signal_increment t s) r (Suc g)"
| notify: "sem_reach n s r g \<Longrightarrow> sm_place s t = Notifying \<Longrightarrow> may_wake s w \<Longrightarrow> sem_reach n (Signal_notify t w s) r g"

lemma move_fields [simp]: "fCount (move t p s) = fCount s" "sm_place (move t p s) = (sm_place s)(t := p)"
  by (simp_all add: move_def)

definition places :: "sem \<Rightarrow> place set \<Rightarrow> thread set" where
  "places s P = {t. sm_place s t \<in> P}"

lemma places_move: "places (move t p s) P = (if p \<in> P then insert t (places s P) else places s P - {t})"
  by (auto simp: places_def)

lemma places_count [simp]: "places (s\<lparr>fCount := k\<rparr>) P = places s P"
  by (simp add: places_def)

lemma in_places [simp]: "t \<in> places s P \<longleftrightarrow> sm_place s t \<in> P"
  by (simp add: places_def)

text \<open>
  The two invariants: nothing is lost from the count, and while a thread sleeps, every unit of the count has a thread
  under way that will wake a sleeper up or take it.
\<close>

lemma unat_take: "(w :: u64) > 0 \<Longrightarrow> Suc (unat (w - 1)) = unat w"
  by (simp add: word_gt_0 unat_minus_one unat_gt_0)

lemma sem_count:
  "sem_reach n s r g \<Longrightarrow> unat n + g < 2 ^ 64 \<Longrightarrow> unat (fCount s) + r = unat n + g"
proof (induction rule: sem_reach.induct)
  case (increment s r g t)
  then have "unat (fCount s) + r = unat n + g" by simp
  then have "unat (fCount s + 1) = Suc (unat (fCount s))" using increment.prems by (intro unat_Suc_word) simp
  then show ?case using increment by (simp add: Signal_increment_def)
next
  case (notify s r g t w)
  then show ?case by (simp add: Signal_notify_def split: option.split)
next
  case (enter s r g t s' ret)
  then show ?case using unat_take [of "fCount s"] by (auto simp: Wait_enter_def split: if_splits)
next
  case (recheck s r g t s' ret)
  then show ?case using unat_take [of "fCount s"] by (auto simp: Wait_recheck_def split: if_splits)
qed (simp_all add: new_sem_def)

definition awake_enough :: "sem \<Rightarrow> bool" where
  "awake_enough s \<longleftrightarrow> finite (places s {Sleeping, Woken, Notifying}) \<and>
     (places s {Sleeping} = {} \<or> unat (fCount s) \<le> card (places s {Woken, Notifying}))"

lemma awake_enoughI:
  assumes "finite (places s {Sleeping, Woken, Notifying})"
    and "places s {Sleeping} \<noteq> {} \<Longrightarrow> unat (fCount s) \<le> card (places s {Woken, Notifying})"
  shows "awake_enough s"
  using assms by (auto simp: awake_enough_def)

lemma finite_places: "awake_enough s \<Longrightarrow> finite (places s {Woken, Notifying})"
  by (rule finite_subset [of _ "places s {Sleeping, Woken, Notifying}"]) (auto simp: awake_enough_def)

lemma unat_inc_le: "unat (w + 1 :: u64) \<le> Suc (unat w)"
  by (simp add: unat_word_ariths)

lemma sem_awake: "sem_reach n s r g \<Longrightarrow> awake_enough s"
proof (induction rule: sem_reach.induct)
  case initial
  then show ?case by (simp add: awake_enough_def new_sem_def places_def)
next
  case (enter s r g t s' ret)
  show ?case
  proof (cases "fCount s > 0")
    case True
    then show ?thesis using enter
      by (auto simp: awake_enough_def Wait_enter_def unat_minus_one word_gt_0)
  next
    case False
    then show ?thesis using enter
      by (auto simp: awake_enough_def Wait_enter_def places_move word_gt_0)
  qed
next
  case (spurious s r g t)
  then have "card (places s {Woken, Notifying}) \<le> card (insert t (places s {Woken, Notifying}))"
    by (simp add: finite_places card_mono subset_insertI)
  then show ?case using spurious by (auto simp: awake_enough_def places_move)
next
  case (recheck s r g t s' ret)
  have t: "t \<in> places s {Woken, Notifying}" using recheck by simp
  show ?case
  proof (cases "fCount s > 0")
    case True
    then have "unat (fCount s - 1) = unat (fCount s) - 1" by (simp add: unat_minus_one word_gt_0)
    moreover have "card (places s {Woken, Notifying} - {t}) = card (places s {Woken, Notifying}) - 1"
      using t recheck finite_places by (simp add: card_Diff_singleton)
    ultimately show ?thesis using recheck True
      by (auto simp: awake_enough_def Wait_recheck_def places_move)
  next
    case False
    then show ?thesis using recheck by (auto simp: awake_enough_def Wait_recheck_def places_move word_gt_0)
  qed
next
  case (increment s r g t)
  have "t \<notin> places s {Woken, Notifying}" using increment by simp
  then have "card (insert t (places s {Woken, Notifying})) = Suc (card (places s {Woken, Notifying}))"
    using increment finite_places by simp
  then show ?case using increment unat_inc_le [of "fCount s"]
    by (auto simp: awake_enough_def Signal_increment_def places_move)
next
  case (notify s r g t w)
  then show ?case
  proof (cases w)
    case None
    then have "places s {Sleeping} = {}" using notify by (simp add: may_wake_def places_def)
    then show ?thesis using notify None by (auto simp: awake_enough_def Signal_notify_def places_move)
  next
    case (Some v)
    then have v: "sm_place s v = Sleeping" using notify by (simp add: may_wake_def)
    then have "v \<noteq> t" using notify by auto
    then have "card (insert v (places s {Woken, Notifying}) - {t}) = card (places s {Woken, Notifying})"
      using v notify finite_places by (simp add: card_Diff_singleton)
    then show ?thesis using notify Some v by (auto simp: awake_enough_def Signal_notify_def places_move)
  qed
qed

section \<open>The hand-over of a result\<close>

text \<open>
  \<^verbatim>\<open>ChangeState\<close>, \<^verbatim>\<open>WaitForState\<close>, \<^verbatim>\<open>GetProperties\<close> and \<^verbatim>\<open>SetProperties\<close>: a fresh semaphore, a variable the handler assigns
  before it signals, and the caller that returns the variable's value once \<^verbatim>\<open>Wait\<close> has returned. Thread 0 is the
  caller and thread 1 runs the handler.
\<close>

datatype handler_pc = Not_called | Stored | Signalled

record 'r handover =
  ho_sem :: sem
  ho_var :: 'r
  ho_handler :: handler_pc
  ho_entered :: bool
  ho_returned :: "'r option"

definition new_handover :: "'r \<Rightarrow> 'r handover" where
  "new_handover d = \<lparr>ho_sem = new_sem 0, ho_var = d, ho_handler = Not_called, ho_entered = False, ho_returned = None\<rparr>"

definition after_wait :: "sem \<times> bool \<Rightarrow> 'r handover \<Rightarrow> 'r handover" where
  "after_wait w h = (case w of (s, ret) \<Rightarrow> h\<lparr>ho_sem := s, ho_entered := True, ho_returned := (if ret then Some (ho_var h) else None)\<rparr>)"

inductive handover_step :: "'r \<Rightarrow> 'r handover \<Rightarrow> 'r handover \<Rightarrow> bool" for v where
  call: "\<not> ho_entered h \<Longrightarrow> handover_step v h (after_wait (Wait_enter 0 (ho_sem h)) h)"
| awake: "sm_place (ho_sem h) 0 = Sleeping \<Longrightarrow> handover_step v h (h\<lparr>ho_sem := move 0 Woken (ho_sem h)\<rparr>)"
| again: "sm_place (ho_sem h) 0 = Woken \<Longrightarrow> handover_step v h (after_wait (Wait_recheck 0 (ho_sem h)) h)"
| store: "ho_handler h = Not_called \<Longrightarrow> handover_step v h (h\<lparr>ho_var := v, ho_handler := Stored\<rparr>)"
| signal: "ho_handler h = Stored \<Longrightarrow>
    handover_step v h (h\<lparr>ho_sem := Signal_increment 1 (ho_sem h), ho_handler := Signalled\<rparr>)"
| notified: "sm_place (ho_sem h) 1 = Notifying \<Longrightarrow> may_wake (ho_sem h) w \<Longrightarrow>
    handover_step v h (h\<lparr>ho_sem := Signal_notify 1 w (ho_sem h)\<rparr>)"

inductive handover_run :: "'r \<Rightarrow> 'r \<Rightarrow> 'r handover \<Rightarrow> bool" for d v where
  start: "handover_run d v (new_handover d)"
| step: "handover_run d v h \<Longrightarrow> handover_step v h h' \<Longrightarrow> handover_run d v h'"

text \<open>What holds throughout: the semaphore was used as an interleaving allows, and each thread is where it says.\<close>

definition handover_inv :: "'r \<Rightarrow> 'r handover \<Rightarrow> bool" where
  "handover_inv v h \<longleftrightarrow>
     sem_reach 0 (ho_sem h) (if ho_returned h = None then 0 else 1) (if ho_handler h = Signalled then 1 else 0) \<and>
     (ho_handler h \<noteq> Not_called \<longrightarrow> ho_var h = v) \<and>
     (ho_handler h \<noteq> Signalled \<longrightarrow> sm_place (ho_sem h) 1 = Outside) \<and> sm_place (ho_sem h) 1 \<in> {Outside, Notifying} \<and>
     (\<not> ho_entered h \<longrightarrow> sm_place (ho_sem h) 0 = Outside \<and> ho_returned h = None) \<and>
     sm_place (ho_sem h) 0 \<noteq> Notifying \<and> (ho_returned h \<noteq> None \<longrightarrow> ho_returned h = Some v) \<and>
     (ho_entered h \<longrightarrow> (sm_place (ho_sem h) 0 = Outside \<longleftrightarrow> ho_returned h \<noteq> None)) \<and>
     (\<forall>t. t \<noteq> 0 \<and> t \<noteq> 1 \<longrightarrow> sm_place (ho_sem h) t = Outside)"

text \<open>A wait that returns was signalled, so the handler has stored its result.\<close>

lemma returned_signalled:
  assumes "sem_reach 0 s r g" and "g \<le> 1" and "fCount s > 0"
  shows "g = 1 \<and> r = 0"
  using sem_count [OF assms(1)] assms(2,3) unat_gt_0 [of "fCount s"] by (auto simp: word_gt_0)

lemma handover_inv_step:
  assumes "handover_inv v h" and "handover_step v h h'"
  shows "handover_inv v h'"
  using assms(2,1)
proof (cases rule: handover_step.cases)
  case call
  then show ?thesis using assms(1)
    sem_reach.enter [of 0 "ho_sem h" 0 "if ho_handler h = Signalled then 1 else 0" 0]
    returned_signalled [of "ho_sem h" 0 "if ho_handler h = Signalled then 1 else 0"]
    by (auto simp: handover_inv_def after_wait_def Wait_enter_def split: if_splits)
next
  case awake
  then show ?thesis using assms(1) by (auto simp: handover_inv_def intro: sem_reach.spurious split: if_splits)
next
  case again
  then show ?thesis using assms(1)
    sem_reach.recheck [of 0 "ho_sem h" 0 "if ho_handler h = Signalled then 1 else 0" 0]
    returned_signalled [of "ho_sem h" 0 "if ho_handler h = Signalled then 1 else 0"]
    by (auto simp: handover_inv_def after_wait_def Wait_recheck_def split: if_splits)
next
  case store
  then show ?thesis using assms(1) by (auto simp: handover_inv_def split: if_splits)
next
  case signal
  then show ?thesis using assms(1) sem_reach.increment [of 0 "ho_sem h" _ 0 1]
    by (auto simp: handover_inv_def Signal_increment_def split: if_splits)
next
  case (notified w)
  then show ?thesis using assms(1) sem_reach.notify [of 0 "ho_sem h" _ _ 1 w]
    by (cases w) (auto simp: handover_inv_def Signal_notify_def may_wake_def split: if_splits)
qed

lemma handover_invariant: "handover_run d v h \<Longrightarrow> handover_inv v h"
proof (induction rule: handover_run.induct)
  case start
  have "sem_reach 0 (new_sem 0) 0 0" by (rule sem_reach.initial)
  then show ?case by (simp add: handover_inv_def new_handover_def new_sem_def)
qed (rule handover_inv_step)

lemma quiet_places:
  assumes "\<And>u. sm_place s u \<in> {Outside, Sleeping}"
  shows "places s {Woken, Notifying} = {}"
proof -
  have "sm_place s u \<notin> {Woken, Notifying}" for u using assms [of u] by auto
  then show ?thesis by (simp add: places_def)
qed

section \<open>Properties\<close>

text \<open>
  The semaphore counts: at any moment of any interleaving the count and the waits that have returned add up to the
  initial count and the signals sent, so that no wait returns without a signal of its own.
\<close>

theorem semaphore_counts:
  assumes "sem_reach n s r g" and "unat n + g < 2 ^ 64"
  shows "unat (GetCount s) + r = unat n + g"
  using sem_count [OF assms] by (simp add: GetCount_def)

text \<open>
  No wake-up is lost, although a signal is notified after the mutex was unlocked: when no thread is under way any
  more and one still sleeps, the count is used up, and every signal has let one wait return.
\<close>

theorem semaphore_no_lost_wakeup:
  assumes "sem_reach n s r g" and "unat n + g < 2 ^ 64" and "sm_place s t = Sleeping"
    and "\<forall>u. sm_place s u \<in> {Outside, Sleeping}"
  shows "GetCount s = 0 \<and> r = unat n + g"
proof -
  have "places s {Woken, Notifying} = {}" using assms(4) by (intro quiet_places) blast
  moreover have "places s {Sleeping} \<noteq> {}" using assms(3) by (auto simp: places_def)
  ultimately have "unat (fCount s) = 0" using sem_awake [OF assms(1)] by (simp add: awake_enough_def)
  then show ?thesis using sem_count [OF assms(1,2)] by (simp add: GetCount_def unat_eq_0)
qed

text \<open>
  C19: a blocking call returns the result its completion handler was called with, never the initial value of the variable,
  and it does return: once the handler has signalled and notified, a caller that is not just waking up has returned.
\<close>

theorem blocking_call_hands_over:
  assumes "handover_run d v h"
  shows "(ho_returned h = None \<or> ho_returned h = Some v) \<and>
    (ho_entered h \<and> ho_handler h = Signalled \<and> sm_place (ho_sem h) 1 = Outside \<and> sm_place (ho_sem h) 0 \<noteq> Woken \<longrightarrow>
       ho_returned h = Some v)"
proof -
  note inv = handover_invariant [OF assms, unfolded handover_inv_def]
  have "ho_returned h \<noteq> None" if h: "ho_entered h" "ho_handler h = Signalled" "sm_place (ho_sem h) 1 = Outside"
    "sm_place (ho_sem h) 0 \<noteq> Woken"
  proof
    assume none: "ho_returned h = None"
    then have sleeping: "sm_place (ho_sem h) 0 = Sleeping" using inv h by (cases "sm_place (ho_sem h) 0") auto
    have reach: "sem_reach 0 (ho_sem h) 0 1" using inv none h by simp
    have "sm_place (ho_sem h) u \<in> {Outside, Sleeping}" for u
      using inv h sleeping by (cases "u = 0"; cases "u = 1") auto
    then have "places (ho_sem h) {Woken, Notifying} = {}" by (rule quiet_places)
    moreover have "0 \<in> places (ho_sem h) {Sleeping}" using sleeping by simp
    ultimately have "unat (fCount (ho_sem h)) = 0" using sem_awake [OF reach] by (auto simp: awake_enough_def)
    then show False using sem_count [OF reach] by simp
  qed
  then show ?thesis using inv by blast
qed

text \<open>One thread waits, another signals and wakes it up.\<close>

theorem semaphore_counts_witness:
  "sem_reach 1 (Signal_increment 5 (new_sem 1)) 0 1 \<and> unat (GetCount (Signal_increment 5 (new_sem 1))) = 2"
proof -
  have r: "sem_reach 1 (Signal_increment 5 (new_sem 1)) 0 (Suc 0)"
    by (rule sem_reach.increment [OF sem_reach.initial]) (simp add: new_sem_def)
  then show ?thesis using semaphore_counts [OF r] by simp
qed

theorem semaphore_no_lost_wakeup_witness:
  "sem_reach 0 (move 3 Sleeping (new_sem 0)) 0 0 \<and> GetCount (move 3 Sleeping (new_sem 0)) = 0"
proof -
  have r: "sem_reach 0 (move 3 Sleeping (new_sem 0)) (if False then Suc 0 else 0) 0"
    by (rule sem_reach.enter [OF sem_reach.initial, of _ 3]) (simp_all add: new_sem_def Wait_enter_def)
  then show ?thesis using semaphore_no_lost_wakeup [OF r, of 3] by (simp add: new_sem_def)
qed

theorem blocking_call_hands_over_witness:
  "\<exists>h. handover_run 0 (7 :: nat) h \<and> sm_place (ho_sem h) 0 = Outside \<and> ho_returned h = Some 7"
proof -
  let ?h1 = "after_wait (Wait_enter 0 (ho_sem (new_handover (0 :: nat)))) (new_handover (0 :: nat))"
  let ?h2 = "?h1\<lparr>ho_var := 7, ho_handler := Stored\<rparr>"
  let ?h3 = "?h2\<lparr>ho_sem := Signal_increment 1 (ho_sem ?h2), ho_handler := Signalled\<rparr>"
  let ?h4 = "?h3\<lparr>ho_sem := Signal_notify 1 (Some 0) (ho_sem ?h3)\<rparr>"
  let ?h5 = "after_wait (Wait_recheck 0 (ho_sem ?h4)) ?h4"
  note defs = new_handover_def after_wait_def Wait_enter_def Wait_recheck_def new_sem_def Signal_increment_def Signal_notify_def
    may_wake_def
  have "handover_run 0 7 ?h1" by (rule handover_run.step [OF handover_run.start handover_step.call]) (simp add: defs)
  then have "handover_run 0 7 ?h2" by (rule handover_run.step [OF _ handover_step.store]) (simp add: defs)
  then have "handover_run 0 7 ?h3" by (rule handover_run.step [OF _ handover_step.signal]) simp
  then have "handover_run 0 7 ?h4" by (rule handover_run.step [OF _ handover_step.notified]) (simp_all add: defs)
  then have "handover_run 0 7 ?h5" by (rule handover_run.step [OF _ handover_step.again]) (simp add: defs)
  moreover have "ho_entered ?h5" "ho_handler ?h5 = Signalled" "sm_place (ho_sem ?h5) 1 = Outside" "sm_place (ho_sem ?h5) 0 = Outside"
    by (simp_all add: defs)
  ultimately show ?thesis using blocking_call_hands_over [of 0 7 ?h5] by auto
qed

end
