(* ===== verification/Async_Object.thy ===== *)
theory Async_Object
  imports Async_Op
begin

text \<open>
  The objects behind an asynchronous operation: \<^verbatim>\<open>AsioAsyncOp\<close> and \<^verbatim>\<open>AsioAsyncOpImpl\<close> of \<^verbatim>\<open>src/odc/AsioAsyncOp.h\<close>, with their
  two work guards and the memory that holds them, and the proof that they implement the two states of \<open>async_op\<close>.
  A work guard that owns work counts as outstanding work of its executor. Dispatching a handler that throws is not an error
  of the operation, since the exception is caught and logged. Executors and allocators are parameters.
\<close>

section \<open>The implementation object\<close>

record ('e, 'a) op_impl =
  im_ex1 :: 'e
  im_alloc1 :: 'a
  fWork1 :: bool
  fWork2 :: bool

definition impl_new :: "'e \<Rightarrow> 'a \<Rightarrow> ('e, 'a) op_impl" where
  "impl_new ex1 alloc1 = \<lparr>im_ex1 = ex1, im_alloc1 = alloc1, fWork1 = True, fWork2 = True\<rparr>"

definition impl_IsCompleted :: "('e, 'a) op_impl \<Rightarrow> bool" where
  "impl_IsCompleted im \<longleftrightarrow> \<not> fWork1 im \<and> \<not> fWork2 im"

definition impl_work :: "('e, 'a) op_impl \<Rightarrow> nat" where
  "impl_work im = (if fWork1 im then 1 else 0) + (if fWork2 im then 1 else 0)"

section \<open>The operation\<close>

text \<open>Besides its members: the calls of the handler, and the work outstanding on the executors because of it.\<close>

record ('e, 'a, 'r) op_object =
  fImpl :: "('e, 'a) op_impl option"
  oo_calls :: "(error_code \<times> 'r) list"
  oo_work :: nat

definition AsioAsyncOp_default :: "('e, 'a, 'r) op_object" where
  "AsioAsyncOp_default = \<lparr>fImpl = None, oo_calls = [], oo_work = 0\<rparr>"

definition AsioAsyncOp_new :: "'e \<Rightarrow> 'a \<Rightarrow> ('e, 'a, 'r) op_object" where
  "AsioAsyncOp_new ex1 alloc1 =
     (let im = impl_new ex1 alloc1 in AsioAsyncOp_default\<lparr>fImpl := Some im, oo_work := impl_work im\<rparr>)"

text \<open>With a default allocator, and on the system executor.\<close>

definition AsioAsyncOp_new2 :: "'a \<Rightarrow> 'e \<Rightarrow> ('e, 'a, 'r) op_object" where
  "AsioAsyncOp_new2 default_alloc ex1 = AsioAsyncOp_new ex1 default_alloc"

definition AsioAsyncOp_new3 :: "'a \<Rightarrow> 'e \<Rightarrow> ('e, 'a, 'r) op_object" where
  "AsioAsyncOp_new3 default_alloc system_executor = AsioAsyncOp_new2 default_alloc system_executor"

definition object_IsCompleted :: "('e, 'a, 'r) op_object \<Rightarrow> bool" where
  "object_IsCompleted ob = (case fImpl ob of None \<Rightarrow> True | Some im \<Rightarrow> impl_IsCompleted im)"

abbreviation completed_error :: exn where
  "completed_error \<equiv> RuntimeError ''Async operation already completed''"

text \<open>The implementation dispatches the handler and releases both guards.\<close>

definition impl_Complete :: "error_code \<Rightarrow> 'r \<Rightarrow> ('e, 'a) op_impl \<Rightarrow> (('e, 'a) op_impl \<times> (error_code \<times> 'r) list) \<times> exn option" where
  "impl_Complete ec args im =
     (if impl_IsCompleted im then ((im, []), Some completed_error)
      else ((im\<lparr>fWork1 := False, fWork2 := False\<rparr>, [(ec, args)]), None))"

definition object_Complete :: "error_code \<Rightarrow> 'r \<Rightarrow> ('e, 'a, 'r) op_object \<Rightarrow> ('e, 'a, 'r) op_object \<times> exn option" where
  "object_Complete ec args ob =
     (if object_IsCompleted ob then (ob, Some completed_error)
      else case fImpl ob of
        None \<Rightarrow> (ob, Some completed_error)
      | Some im \<Rightarrow>
         (case impl_Complete ec args im of
            ((im1, calls), Some e) \<Rightarrow> (ob\<lparr>fImpl := Some im1\<rparr>, Some e)
          | ((im1, calls), None) \<Rightarrow>
              (ob\<lparr>fImpl := None, oo_calls := oo_calls ob @ calls,
                  oo_work := oo_work ob - (impl_work im - impl_work im1)\<rparr>, None)))"

definition object_Complete_ok :: "'r \<Rightarrow> ('e, 'a, 'r) op_object \<Rightarrow> ('e, 'a, 'r) op_object \<times> exn option" where
  "object_Complete_ok args ob = object_Complete None args ob"

definition object_Cancel :: "'r \<Rightarrow> ('e, 'a, 'r) op_object \<Rightarrow> ('e, 'a, 'r) op_object \<times> exn option" where
  "object_Cancel args ob = object_Complete (MakeErrorCode OperationCanceled) args ob"

definition object_Timeout :: "'r \<Rightarrow> ('e, 'a, 'r) op_object \<Rightarrow> ('e, 'a, 'r) op_object \<times> exn option" where
  "object_Timeout args ob = object_Complete (MakeErrorCode OperationTimeout) args ob"

text \<open>
  Destruction: the deleter of \<^verbatim>\<open>fImpl\<close> gives the memory back to the allocator and runs no destructor, so that guards which
  still own work keep it.
\<close>

definition object_destroy :: "('e, 'a, 'r) op_object \<Rightarrow> ('e, 'a, 'r) op_object" where
  "object_destroy ob = ob\<lparr>fImpl := None\<rparr>"

section \<open>Implementing the abstract operation\<close>

definition object_inv :: "('e, 'a, 'r) op_object \<Rightarrow> bool" where
  "object_inv ob \<longleftrightarrow> (case fImpl ob of
       Some im \<Rightarrow> fWork1 im \<and> fWork2 im \<and> oo_calls ob = [] \<and> oo_work ob = 2
     | None \<Rightarrow> length (oo_calls ob) = 1 \<and> oo_work ob = 0)"

definition object_abs :: "('e, 'a, 'r) op_object \<Rightarrow> 'r async_op" where
  "object_abs ob = (case oo_calls ob of [] \<Rightarrow> Pending | (ec, r) # _ \<Rightarrow> Completed ec r)"

lemma object_new [simp]:
  "object_inv (AsioAsyncOp_new ex1 alloc1)" "object_abs (AsioAsyncOp_new ex1 alloc1) = Pending"
  by (simp_all add: object_inv_def object_abs_def AsioAsyncOp_new_def AsioAsyncOp_default_def impl_new_def impl_work_def Let_def)

lemma object_IsCompleted_abs: "object_inv ob \<Longrightarrow> object_IsCompleted ob \<longleftrightarrow> op_IsCompleted (object_abs ob)"
  by (cases "oo_calls ob")
    (auto simp: object_inv_def object_abs_def object_IsCompleted_def impl_IsCompleted_def split: option.splits)

lemma object_Complete_abs:
  assumes "object_inv ob" and "object_Complete ec args ob = (ob', e)"
  shows "object_inv ob' \<and> op_Complete ec args (object_abs ob) = (object_abs ob', e)"
proof (cases "fImpl ob")
  case None
  then obtain ec' r where "oo_calls ob = [(ec', r)]"
    using assms(1) by (cases "oo_calls ob") (auto simp: object_inv_def)
  then show ?thesis using None assms by (auto simp: object_Complete_def object_IsCompleted_def object_abs_def)
next
  case (Some im)
  then show ?thesis
    using assms by (auto simp: object_inv_def object_Complete_def object_IsCompleted_def impl_IsCompleted_def impl_Complete_def
        object_abs_def impl_work_def)
qed

section \<open>Properties\<close>

text \<open>What a client may do with an operation.\<close>

datatype 'r client_call = CallComplete error_code 'r | CallCancel 'r | CallTimeout 'r

fun object_call :: "'r client_call \<Rightarrow> ('e, 'a, 'r) op_object \<Rightarrow> ('e, 'a, 'r) op_object \<times> exn option" where
  "object_call (CallComplete ec r) = object_Complete ec r"
| "object_call (CallCancel r) = object_Cancel r"
| "object_call (CallTimeout r) = object_Timeout r"

fun op_call :: "'r client_call \<Rightarrow> 'r async_op \<Rightarrow> 'r async_op \<times> exn option" where
  "op_call (CallComplete ec r) = op_Complete ec r"
| "op_call (CallCancel r) = op_Cancel r"
| "op_call (CallTimeout r) = op_Timeout r"

lemma object_call_abs:
  "object_inv ob \<Longrightarrow> object_call c ob = (ob', e) \<Longrightarrow> object_inv ob' \<and> op_call c (object_abs ob) = (object_abs ob', e)"
  by (cases c; simp add: object_Cancel_def object_Timeout_def op_Cancel_def op_Timeout_def; drule (1) object_Complete_abs; simp)

text \<open>A sequence of calls, with what each of them throws.\<close>

fun run_calls :: "('c \<Rightarrow> 's \<Rightarrow> 's \<times> exn option) \<Rightarrow> 'c list \<Rightarrow> 's \<Rightarrow> 's \<times> exn option list" where
  "run_calls f [] s = (s, [])"
| "run_calls f (c # cs) s = (case f c s of (s1, e) \<Rightarrow> case run_calls f cs s1 of (s2, es) \<Rightarrow> (s2, e # es))"

text \<open>
  C24: an operation object implements the abstract operation: after any calls it throws what the abstract operation throws and
  holds its result, its handler was called exactly when the operation has completed, once and with that result, and no work
  is left outstanding. Destroying an object that has not completed leaves the work of its two guards outstanding.
\<close>

theorem operation_object_refines:
  assumes "run_calls object_call cs (AsioAsyncOp_new ex1 alloc1) = (ob, es)"
  shows "run_calls op_call cs Pending = (object_abs ob, es) \<and>
    oo_calls ob = (case object_abs ob of Pending \<Rightarrow> [] | Completed ec r \<Rightarrow> [(ec, r)]) \<and>
    oo_work (object_destroy ob) = (if cs = [] then 2 else 0)"
proof -
  have run: "object_inv ob' \<and> run_calls op_call cs (object_abs s) = (object_abs ob', es')"
    if "run_calls object_call cs s = (ob', es')" "object_inv s" for cs and s :: "('a, 'b, 'c) op_object" and ob' es'
    using that
  proof (induction cs arbitrary: s es')
    case (Cons c cs)
    obtain s1 e where s1: "object_call c s = (s1, e)" by fastforce
    then show ?case using Cons object_call_abs [OF Cons.prems(2) s1] by (auto split: prod.splits)
  qed simp
  from run [OF assms] have inv: "object_inv ob" and abs: "run_calls op_call cs Pending = (object_abs ob, es)" by simp_all
  have stays: "fst (run_calls op_call ds (Completed ec r)) = Completed ec r" for ds and ec and r :: 'c
  proof (induction ds)
    case (Cons d ds)
    then show ?case by (cases d) (auto simp: op_Cancel_def op_Timeout_def split: prod.splits)
  qed simp
  have completes: "object_abs ob \<noteq> Pending" if ne: "cs \<noteq> []"
  proof -
    obtain c ds where cs: "cs = c # ds" using ne by (cases cs) auto
    obtain ec r where "fst (op_call c Pending) = Completed ec r"
      by (cases c) (simp_all add: op_Cancel_def op_Timeout_def)
    then show ?thesis using abs stays [of ds ec r] by (auto simp: cs split: prod.splits)
  qed
  have "oo_calls ob = (case object_abs ob of Pending \<Rightarrow> [] | Completed ec r \<Rightarrow> [(ec, r)])"
    using inv by (cases "oo_calls ob") (auto simp: object_inv_def object_abs_def split: option.splits)
  moreover have "oo_work ob = (if cs = [] then 2 else 0)"
    using inv assms completes
    by (auto simp: object_inv_def object_abs_def AsioAsyncOp_new_def AsioAsyncOp_default_def impl_work_def impl_new_def split: option.splits)
  ultimately show ?thesis using abs by (simp add: object_destroy_def)
qed

theorem operation_object_refines_witness:
  "\<exists>ob :: (unit, unit, nat) op_object. \<exists>es. run_calls object_call [CallTimeout 1, CallCancel 2] (AsioAsyncOp_new () ()) = (ob, es) \<and>
     oo_calls ob = [(MakeErrorCode OperationTimeout, 1)] \<and> es = [None, Some completed_error]"
proof -
  obtain ob :: "(unit, unit, nat) op_object" and es
    where ob: "run_calls object_call [CallTimeout 1, CallCancel 2] (AsioAsyncOp_new () ()) = (ob, es)" by fastforce
  from operation_object_refines [OF ob]
  have "object_abs ob = Completed (MakeErrorCode OperationTimeout) 1" "es = [None, Some completed_error]"
    "oo_calls ob = (case object_abs ob of Pending \<Rightarrow> [] | Completed ec r \<Rightarrow> [(ec, r)])"
    by (simp_all add: op_Cancel_def op_Timeout_def)
  then show ?thesis using ob by auto
qed

end
