(* ===== verification/Command_Tables.thy ===== *)
theory Command_Tables
  imports Custom_Commands
begin

text \<open>
  The container \<^verbatim>\<open>Cmds\<close> of \<^verbatim>\<open>src/odc/cc/CustomCommands.h\<close>, and a typing of the tables \<^verbatim>\<open>Serialize\<close> and \<^verbatim>\<open>Deserialize\<close> of
  \<^verbatim>\<open>src/odc/cc/CustomCommands.cpp\<close> exchange: which fields the table of a command must have, and in which range. A sender
  writes tables of the type of its commands, and a receiver decodes exactly the well-typed tables.
\<close>

section \<open>The container\<close>

definition new_Cmds :: Cmds where
  "new_Cmds = []"

fun Unpack :: "Cmd list \<Rightarrow> Cmds \<Rightarrow> Cmds" where
  "Unpack [] fCmds = fCmds"
| "Unpack (first # rest) fCmds = Unpack rest (fCmds @ [first])"

text \<open>The constructor with commands; \<^verbatim>\<open>make\<close> builds each of them.\<close>

definition Cmds_of :: "Cmd list \<Rightarrow> Cmds" where
  "Cmds_of args = Unpack args new_Cmds"

definition Cmds_Size :: "Cmds \<Rightarrow> nat" where
  "Cmds_Size cmds = length cmds"

definition Cmds_Reset :: "Cmds \<Rightarrow> Cmds" where
  "Cmds_Reset cmds = []"

lemma Unpack_append: "Unpack args fCmds = fCmds @ args"
  by (induction args arbitrary: fCmds) simp_all

lemma Cmds_of_args [simp]: "Cmds_of args = args"
  by (simp add: Cmds_of_def Unpack_append new_Cmds_def)

lemma Cmds_At_Add: "Cmds_At (Cmds_Add c cmds) (Cmds_Size cmds) = Inr c"
  by (simp add: Cmds_At_def Cmds_Add_def Cmds_Size_def)

section \<open>A typing of the tables\<close>

definition result_range :: "int \<Rightarrow> bool" where
  "result_range v \<longleftrightarrow> v \<in> {0..1}"

definition state_range :: "int \<Rightarrow> bool" where
  "state_range v \<longleftrightarrow> v \<in> {0..15}"

definition transition_range :: "int \<Rightarrow> bool" where
  "transition_range v \<longleftrightarrow> v \<in> {0..11}"

definition complete_props :: "(string option \<times> string option) list option \<Rightarrow> bool" where
  "complete_props p = (case p of None \<Rightarrow> False | Some l \<Rightarrow> list_all (\<lambda>(k, v). k \<noteq> None \<and> v \<noteq> None) l)"

fun typed_fields :: "Type \<Rightarrow> FBCommand \<Rightarrow> bool" where
  "typed_fields Type_change_state b = transition_range (fb_transition b)"
| "typed_fields Type_get_properties b = (fb_property_query b \<noteq> None)"
| "typed_fields Type_set_properties b = complete_props (fb_properties b)"
| "typed_fields Type_transition_status b = (fb_device_id b \<noteq> None \<and> result_range (fb_result b) \<and>
     transition_range (fb_transition b) \<and> state_range (fb_current_state b))"
| "typed_fields Type_config b = (fb_device_id b \<noteq> None \<and> fb_config_string b \<noteq> None)"
| "typed_fields Type_state_change_subscription b = (fb_device_id b \<noteq> None \<and> result_range (fb_result b))"
| "typed_fields Type_state_change_unsubscription b = (fb_device_id b \<noteq> None \<and> result_range (fb_result b))"
| "typed_fields Type_state_change b = (fb_device_id b \<noteq> None \<and> state_range (fb_last_state b) \<and> state_range (fb_current_state b))"
| "typed_fields Type_properties b = (fb_device_id b \<noteq> None \<and> result_range (fb_result b) \<and> complete_props (fb_properties b))"
| "typed_fields Type_properties_set b = (fb_device_id b \<noteq> None \<and> result_range (fb_result b))"
| "typed_fields _ b = True"

definition has_type :: "FBCommand \<Rightarrow> Type \<Rightarrow> bool" where
  "has_type b t \<longleftrightarrow> fb_command_id b = FBCmd_value t \<and> typed_fields t b"

lemma array_at_Inr: "(\<exists>x. array_at xs i = Inr x) \<longleftrightarrow> i \<in> {0..int (length xs) - 1}"
  by (auto simp: array_at_def)

lemma table_ranges:
  "(\<exists>r. GetResult v = Inr r) \<longleftrightarrow> result_range v"
  "(\<exists>s. GetMQState v = Inr s) \<longleftrightarrow> state_range v"
  "(\<exists>t. GetMQTransition v = Inr t) \<longleftrightarrow> transition_range v"
  unfolding GetResult_def GetMQState_def GetMQTransition_def array_at_Inr
  by (simp_all add: result_range_def state_range_def transition_range_def fbResultToResult_def fbStateToMQState_def
      fbTransitionToMQTransition_def)

lemma deref_Inr: "deref p = Inr v \<longleftrightarrow> p = Some v"
  by (cases p) simp_all

lemma bind_exn_eq_Inr: "bind_exn x f = Inr y \<longleftrightarrow> (\<exists>v. x = Inr v \<and> f v = Inr y)"
  by (cases x) auto

lemma read_props_Inr: "(\<exists>ps. read_props p = Inr ps) \<longleftrightarrow> complete_props p"
proof -
  have "(\<exists>ps. read_props_list l = Inr ps) \<longleftrightarrow> list_all (\<lambda>(k, v). k \<noteq> None \<and> v \<noteq> None) l" for l
  proof (induction l)
    case (Cons e l)
    obtain k v where e: "e = (k, v)" by fastforce
    show ?case using Cons by (cases k; cases v) (auto simp: e bind_exn_eq_Inr)
  qed simp
  then show ?thesis by (cases p) (simp_all add: read_props_def complete_props_def)
qed

lemma FBCmd_value_inject: "FBCmd_value t = FBCmd_value u \<longleftrightarrow> t = u"
  by (cases t; cases u) (simp_all add: FBCmd_decl_def)

lemma FBCmd_values:
  "FBCmd_value Type_check_state = 0" "FBCmd_value Type_change_state = 1" "FBCmd_value Type_dump_config = 2"
  "FBCmd_value Type_subscribe_to_state_change = 3" "FBCmd_value Type_unsubscribe_from_state_change = 4"
  "FBCmd_value Type_get_properties = 5" "FBCmd_value Type_set_properties = 6" "FBCmd_value Type_subscription_heartbeat = 7"
  "FBCmd_value Type_transition_status = 8" "FBCmd_value Type_config = 9" "FBCmd_value Type_state_change_subscription = 10"
  "FBCmd_value Type_state_change_unsubscription = 11" "FBCmd_value Type_state_change = 12" "FBCmd_value Type_properties = 13"
  "FBCmd_value Type_properties_set = 14"
  by (simp_all add: FBCmd_decl_def)

text \<open>What the switch of \<^verbatim>\<open>Deserialize\<close> does for the table of a given type.\<close>

lemma Deserialize_cmd_typed:
  assumes "fb_command_id b = FBCmd_value t"
  shows "(\<exists>c. Deserialize_cmd b = Inr c) \<longleftrightarrow> typed_fields t b"
  unfolding Deserialize_cmd_def assms FBCmd_value_inject
  by (cases t) (simp_all add: bind_exn_eq_Inr deref_Inr flip: table_ranges read_props_Inr, blast+)

lemma Deserialize_cmd_type: "Deserialize_cmd b = Inr c \<Longrightarrow> fb_command_id b = FBCmd_value (GetType c)"
  by (auto simp: Deserialize_cmd_def bind_exn_eq_Inr split: if_splits)

section \<open>Properties\<close>

text \<open>
  C22: the tables of commands are typed: the table a sender writes for a command has the type of the command, a receiver
  decodes a table to a command of a type exactly when the table has that type, and no table has two types.
\<close>

theorem command_tables_typed:
  assumes "mq_numbering N"
  shows "(\<exists>b. Serialize_cmd N cmd = Inr b \<and> has_type b (GetType cmd)) \<and>
    ((\<exists>c. Deserialize_cmd b = Inr c \<and> GetType c = t) \<longleftrightarrow> has_type b t) \<and>
    (has_type b t \<and> has_type b u \<longrightarrow> t = u)"
proof -
  obtain b' where b': "Serialize_cmd N cmd = Inr b'" "Deserialize_cmd b' = Inr cmd"
    using Deserialize_Serialize_cmd [OF assms] by blast
  have "has_type b' (GetType cmd)"
    using Deserialize_cmd_type [OF b'(2)] Deserialize_cmd_typed b'(2) unfolding has_type_def by blast
  moreover have "(\<exists>c. Deserialize_cmd b = Inr c \<and> GetType c = t) \<longleftrightarrow> has_type b t"
    using Deserialize_cmd_type [of b] Deserialize_cmd_typed [of b t] FBCmd_value_inject unfolding has_type_def by metis
  moreover have "has_type b t \<and> has_type b u \<longrightarrow> t = u" using FBCmd_value_inject unfolding has_type_def by metis
  ultimately show ?thesis using b'(1) by blast
qed

text \<open>A request without its query string has no type, and is not decoded.\<close>

theorem command_tables_typed_witness:
  "(\<exists>b. Serialize_cmd fairmq_numbers (GetProperties \<lparr>gpr_requestId = 1, gpr_query = ''q''\<rparr>) = Inr b \<and>
      has_type b Type_get_properties) \<and>
   \<not> has_type (FBCommandBuilder\<lparr>fb_command_id := 5\<rparr>) Type_get_properties \<and>
   (\<nexists>c. Deserialize_cmd (FBCommandBuilder\<lparr>fb_command_id := 5\<rparr>) = Inr c \<and> GetType c = Type_get_properties)"
proof -
  have "\<not> has_type (FBCommandBuilder\<lparr>fb_command_id := 5\<rparr>) Type_get_properties"
    by (simp add: has_type_def FBCommandBuilder_def)
  then show ?thesis
    using command_tables_typed [OF mq_numbering_fairmq, of "GetProperties \<lparr>gpr_requestId = 1, gpr_query = ''q''\<rparr>"
        "FBCommandBuilder\<lparr>fb_command_id := 5\<rparr>" Type_get_properties Type_get_properties] by simp
qed

end
