(* ===== verification/Device_Shutdown.thy ===== *)
theory Device_Shutdown
  imports Device_Plugin Cli
begin

text \<open>
  The life of a device plugin from its constructor to its destructor (\<^verbatim>\<open>src/plugins/fmq/ODC.cpp\<close>, \<^verbatim>\<open>ODC.h\<close>): the events its threads
  handle, the worker thread, which waits on \<^verbatim>\<open>fUpdateCondition\<close> before every update, and \<^verbatim>\<open>~ODC\<close>, which joins it; and the
  options of the plugin.
\<close>

section \<open>Options\<close>

definition odc_plugin_options :: "opt_decl list" where
  "odc_plugin_options = [opt ''dds-i'' KStrings None None, opt ''dds-i-n'' KStrings None None,
     opt ''wait-for-exiting-ack-timeout'' KNumber (Some (ONumber 1000)) None]"

section \<open>The life of a plugin\<close>

text \<open>
  The device enters a state, DDS reports a key and its value, DDS delivers a message, or the worker takes its next update.
\<close>

datatype plugin_event =
    EntersState int mq_state
  | KeyValue string string u64
  | DeliversCmd int u64 string
  | WorkerTurn

text \<open>
  The plugin and its worker. \<open>dv_running\<close> is also the worker's guard, which \<^verbatim>\<open>Exiting\<close> and the destructor drop: from then on
  \<^verbatim>\<open>run\<close> returns as soon as no update is left, and an update posted later is not taken any more.
\<close>

record plugin =
  pn_device :: device
  pn_working :: bool

definition worker_ends :: "plugin \<Rightarrow> plugin" where
  "worker_ends p =
     p\<lparr>pn_working := pn_working p \<and> (dv_running (pn_device p) \<or> dv_updates (pn_device p) \<noteq> [])\<rparr>"

text \<open>The constructor starts the worker last, so a device that was not set up has none.\<close>

definition new_plugin :: "plugin_api \<Rightarrow> plugin" where
  "new_plugin api = \<lparr>pn_device = new_device api, pn_working = dv_running (new_device api)\<rparr>"

text \<open>After \<^verbatim>\<open>Exiting\<close> the plugin is no longer subscribed to state changes; DDS goes on delivering keys and messages.\<close>

fun plugin_event_device :: "fb_codec \<Rightarrow> plugin_api \<Rightarrow> bool \<Rightarrow> plugin_event \<Rightarrow> device \<Rightarrow> device" where
  "plugin_event_device fb api working (EntersState now st) d = (if dv_running d then fst (onDeviceStateChange api now st d) else d)"
| "plugin_event_device fb api working (KeyValue key val sender) d = onKeyValue key val sender d"
| "plugin_event_device fb api working (DeliversCmd now sender msg) d = fst (onCustomCommand fb api now sender msg d)"
| "plugin_event_device fb api working WorkerTurn d = (if working then worker_step d else d)"

definition plugin_event_step :: "fb_codec \<Rightarrow> plugin_api \<Rightarrow> plugin_event \<Rightarrow> plugin \<Rightarrow> plugin" where
  "plugin_event_step fb api ev p =
     worker_ends (p\<lparr>pn_device := plugin_event_device fb api (pn_working p) ev (pn_device p)\<rparr>)"

definition plugin_life :: "fb_codec \<Rightarrow> plugin_api \<Rightarrow> plugin_event list \<Rightarrow> plugin" where
  "plugin_life fb api evs = fold (plugin_event_step fb api) evs (new_plugin api)"

text \<open>
  Joining the worker: it takes the updates that are left. Each waits for \<^verbatim>\<open>fUpdatesAllowed\<close>; with the subscription to state
  changes gone nobody sets it any more, so a wait is \<open>None\<close>.
\<close>

fun worker_drain :: "(string \<times> string \<times> u64) list \<Rightarrow> device \<Rightarrow> device option" where
  "worker_drain [] d = Some d"
| "worker_drain (u # us) d =
     (if dv_updatesAllowed d then worker_drain us (handle_update u (d\<lparr>dv_updates := us\<rparr>)) else None)"

text \<open>The destructor: unsubscribe, drop the guard and join the worker.\<close>

definition plugin_destroy :: "plugin \<Rightarrow> device option" where
  "plugin_destroy p =
     (let d = (pn_device p)\<lparr>dv_running := False\<rparr> in if pn_working p then worker_drain (dv_updates d) d else Some d)"

section \<open>Lemmas\<close>

text \<open>What filling the channels and an update leave alone: all but the channel containers.\<close>

definition without_channels :: "device \<Rightarrow> device" where
  "without_channels d = d\<lparr>dv_bindingChans := [], dv_connectingChans := [], dv_I := [], dv_IofN := [], dv_out := []\<rparr>"

lemma without_channels_simps [simp]:
  "without_channels (d\<lparr>dv_bindingChans := b\<rparr>) = without_channels d"
  "without_channels (d\<lparr>dv_connectingChans := c\<rparr>) = without_channels d"
  "without_channels (d\<lparr>dv_I := i\<rparr>) = without_channels d" "without_channels (d\<lparr>dv_IofN := x\<rparr>) = without_channels d"
  "without_channels (emit out d) = without_channels d"
  by (simp_all add: without_channels_def emit_def)

lemma fill_channels_without: "without_channels (fst (fill_channels api cs d)) = without_channels d"
  by (induction api cs d rule: fill_channels.induct) (simp_all add: Let_def split: sum.split option.split prod.split)

lemma fill_I_without: "without_channels (fst (fill_I vs d)) = without_channels d"
  by (induction vs d rule: fill_I.induct) (simp_all split: sum.split prod.split)

lemma fill_IofN_without: "without_channels (fill_IofN vs d) = without_channels d"
  by (induction vs d rule: fill_IofN.induct) (simp_all split: sum.split prod.split)

lemma Fill_without: "without_channels (FillChannelContainers api d) = without_channels d"
proof -
  obtain d1 b1 where 1: "fill_channels api (pl_channelInfo api) d = (d1, b1)" by (metis surj_pair)
  obtain d2 b2 where 2: "fill_I (option_list (pl_getList api ''dds-i'')) d1 = (d2, b2)" by (metis surj_pair)
  show ?thesis
    using fill_channels_without [of api "pl_channelInfo api" d] fill_I_without [of "option_list (pl_getList api ''dds-i'')" d1]
    by (simp add: FillChannelContainers_def 1 2 fill_IofN_without)
qed

lemma handle_update_without: "without_channels (handle_update u d) = without_channels d"
  by (cases u) (simp add: handle_update_def Let_def split: option.split sum.split prod.split)

lemma without_eqD:
  assumes "without_channels d' = without_channels d"
  shows "dv_updates d' = dv_updates d" "dv_updatesAllowed d' = dv_updatesAllowed d" "dv_running d' = dv_running d"
  using arg_cong [OF assms, of dv_updates] arg_cong [OF assms, of dv_updatesAllowed] arg_cong [OF assms, of dv_running]
  by (simp_all add: without_channels_def)

lemmas handle_update_queue [simp] = without_eqD [OF handle_update_without]
lemmas Fill_queue [simp] = without_eqD [OF Fill_without]

text \<open>
  Whether the updates are let through after a run of events: the last of \<^verbatim>\<open>Bound\<close> and \<^verbatim>\<open>ResettingDevice\<close> before \<^verbatim>\<open>Exiting\<close>
  decides.
\<close>

fun gate :: "bool \<Rightarrow> plugin_event list \<Rightarrow> bool" where
  "gate b [] = b"
| "gate b (EntersState now st # evs) =
     (if st = Exiting then b else gate (st = Bound \<or> b \<and> st \<noteq> ResettingDevice) evs)"
| "gate b (KeyValue k v s # evs) = gate b evs"
| "gate b (DeliversCmd now s m # evs) = gate b evs"
| "gate b (WorkerTurn # evs) = gate b evs"

lemma HandleDeviceCmd_queue [simp]:
  "dv_updates (HandleDeviceCmd api now s cmd d) = dv_updates d"
  "dv_updatesAllowed (HandleDeviceCmd api now s cmd d) = dv_updatesAllowed d"
  "dv_running (HandleDeviceCmd api now s cmd d) = dv_running d"
  by (cases cmd; simp add: HandleDeviceCmd_def Let_def split: prod.split sum.split)+

lemma HandleDeviceCmds_queue [simp]:
  "dv_updates (fold (HandleDeviceCmd api now s) cmds d) = dv_updates d"
  "dv_updatesAllowed (fold (HandleDeviceCmd api now s) cmds d) = dv_updatesAllowed d"
  "dv_running (fold (HandleDeviceCmd api now s) cmds d) = dv_running d"
  by (induction cmds arbitrary: d) simp_all

lemma onCustomCommand_queue [simp]:
  "dv_updates (fst (onCustomCommand fb api now s msg d)) = dv_updates d"
  "dv_updatesAllowed (fst (onCustomCommand fb api now s msg d)) = dv_updatesAllowed d"
  "dv_running (fst (onCustomCommand fb api now s msg d)) = dv_running d"
  by (simp_all add: onCustomCommand_def split: prod.split option.split)

lemma onDeviceStateChange_queue [simp]:
  "dv_updates (fst (onDeviceStateChange api now st d)) = dv_updates d"
  "dv_updatesAllowed (fst (onDeviceStateChange api now st d)) = (st = Bound \<or> dv_updatesAllowed d \<and> st \<noteq> ResettingDevice)"
  "dv_running (fst (onDeviceStateChange api now st d)) = (dv_running d \<and> st \<noteq> Exiting)"
  by (cases st; simp add: onDeviceStateChange_def enter_state_def PublishBoundChannels_def EmptyChannelContainers_def Let_def
        split: sum.split)+

lemma worker_step_queue [simp]:
  "dv_updatesAllowed (worker_step d) = dv_updatesAllowed d" "dv_running (worker_step d) = dv_running d"
  "\<not> dv_updatesAllowed d \<Longrightarrow> worker_step d = d"
  by (simp_all add: worker_step_def split: list.split)

lemma onKeyValue_queue [simp]:
  "dv_updatesAllowed (onKeyValue key val s d) = dv_updatesAllowed d" "dv_running (onKeyValue key val s d) = dv_running d"
  "dv_updates d \<noteq> [] \<Longrightarrow> dv_updates (onKeyValue key val s d) \<noteq> []"
  by (simp_all add: onKeyValue_def)

lemma plugin_event_step_device [simp]:
  "pn_device (plugin_event_step fb api ev p) = plugin_event_device fb api (pn_working p) ev (pn_device p)"
  by (simp add: plugin_event_step_def worker_ends_def)

lemma gate_step:
  assumes "dv_running (pn_device p)"
  shows "gate (dv_updatesAllowed (pn_device p)) (ev # evs) =
           (if dv_running (pn_device (plugin_event_step fb api ev p))
            then gate (dv_updatesAllowed (pn_device (plugin_event_step fb api ev p))) evs
            else dv_updatesAllowed (pn_device (plugin_event_step fb api ev p)))"
  using assms by (cases ev) auto

lemma not_running_step:
  "\<not> dv_running (pn_device p) \<Longrightarrow> \<not> dv_running (pn_device (plugin_event_step fb api ev p)) \<and>
     dv_updatesAllowed (pn_device (plugin_event_step fb api ev p)) = dv_updatesAllowed (pn_device p)"
  by (cases ev) auto

lemma life_gate:
  "dv_updatesAllowed (pn_device (fold (plugin_event_step fb api) evs p)) =
     (if dv_running (pn_device p) then gate (dv_updatesAllowed (pn_device p)) evs else dv_updatesAllowed (pn_device p))"
proof (induction evs arbitrary: p)
  case (Cons ev evs)
  show ?case
    using gate_step [of p ev evs fb api] not_running_step [of p fb api ev]
    by (simp add: Cons.IH del: plugin_event_step_device gate.simps)
qed simp

lemma drain_returns: "dv_updatesAllowed d \<Longrightarrow> \<exists>d'. worker_drain us d = Some d'"
  by (induction us arbitrary: d) simp_all

text \<open>A plugin with an update that waits for a device that never becomes \<^verbatim>\<open>Bound\<close>.\<close>

definition stuck_update :: "plugin \<Rightarrow> bool" where
  "stuck_update p \<longleftrightarrow> pn_working p \<and> dv_updates (pn_device p) \<noteq> [] \<and> \<not> dv_updatesAllowed (pn_device p)"

lemma stuck_stays:
  assumes "stuck_update p" "\<forall>now. ev \<noteq> EntersState now Bound"
  shows "stuck_update (plugin_event_step fb api ev p)"
  using assms by (cases ev) (auto simp: stuck_update_def plugin_event_step_def worker_ends_def)

lemma stuck_for_ever:
  "stuck_update p \<Longrightarrow> \<forall>now. EntersState now Bound \<notin> set evs \<Longrightarrow> stuck_update (fold (plugin_event_step fb api) evs p)"
proof (induction evs arbitrary: p)
  case (Cons ev evs)
  have "stuck_update (plugin_event_step fb api ev p)" by (rule stuck_stays) (use Cons.prems in auto)
  then show ?case using Cons by simp
qed simp

lemma stuck_destroy: "stuck_update p \<Longrightarrow> plugin_destroy p = None"
  by (auto simp: stuck_update_def plugin_destroy_def Let_def neq_Nil_conv)

text \<open>A plugin at work whose updates are not let through yet.\<close>

definition closed_plugin :: "plugin \<Rightarrow> bool" where
  "closed_plugin p \<longleftrightarrow> pn_working p \<and> dv_running (pn_device p) \<and> \<not> dv_updatesAllowed (pn_device p)"

lemma closed_stays:
  assumes "closed_plugin p" "\<forall>now. ev \<noteq> EntersState now Bound \<and> ev \<noteq> EntersState now Exiting"
  shows "closed_plugin (plugin_event_step fb api ev p)"
  using assms by (cases ev) (auto simp: closed_plugin_def plugin_event_step_def worker_ends_def)

lemma closed_run:
  "closed_plugin p \<Longrightarrow> \<forall>now. EntersState now Bound \<notin> set evs \<and> EntersState now Exiting \<notin> set evs \<Longrightarrow>
     closed_plugin (fold (plugin_event_step fb api) evs p)"
proof (induction evs arbitrary: p)
  case (Cons ev evs)
  have "closed_plugin (plugin_event_step fb api ev p)" by (rule closed_stays) (use Cons.prems in auto)
  then show ?case using Cons by simp
qed simp

lemma new_plugin_closed: "dv_running (new_device api) \<Longrightarrow> closed_plugin (new_plugin api)"
  by (auto simp: closed_plugin_def new_plugin_def new_device_def emit_def Let_def split: option.splits sum.splits if_splits)

lemma closed_update: "closed_plugin p \<Longrightarrow> stuck_update (plugin_event_step fb api (KeyValue (''fmqchan_'' @ chan) val s) p)"
  by (simp add: closed_plugin_def stuck_update_def plugin_event_step_def worker_ends_def onKeyValue_def)

section \<open>Properties\<close>

text \<open>
  C20: when the destructor of a plugin returns. It returns if updates were last let through, that is if of \<^verbatim>\<open>Bound\<close> and
  \<^verbatim>\<open>ResettingDevice\<close> the device last entered \<^verbatim>\<open>Bound\<close>; but if a channel update of another device arrives while the plugin runs and
  the device never becomes \<^verbatim>\<open>Bound\<close>, the worker waits for \<^verbatim>\<open>fUpdatesAllowed\<close> for ever and the destructor, which joins it, does not
  return.
\<close>

theorem plugin_destructor_outcome:
  assumes "dv_running (new_device api)"
  shows "(gate False evs \<longrightarrow> (\<exists>d. plugin_destroy (plugin_life fb api evs) = Some d)) \<and>
         ((\<forall>now. EntersState now Bound \<notin> set (as @ bs) \<and> EntersState now Exiting \<notin> set as) \<longrightarrow>
            plugin_destroy (plugin_life fb api (as @ KeyValue (''fmqchan_'' @ chan) val s # bs)) = None)"
proof (intro conjI impI)
  have new: "closed_plugin (new_plugin api)" by (rule new_plugin_closed [OF assms])
  { assume "gate False evs"
    then have "dv_updatesAllowed (pn_device (plugin_life fb api evs))"
      using new by (simp add: plugin_life_def life_gate closed_plugin_def)
    then show "\<exists>d. plugin_destroy (plugin_life fb api evs) = Some d"
      by (simp add: plugin_destroy_def Let_def drain_returns) }
  { assume never: "\<forall>now. EntersState now Bound \<notin> set (as @ bs) \<and> EntersState now Exiting \<notin> set as"
    then have "closed_plugin (fold (plugin_event_step fb api) as (new_plugin api))" by (intro closed_run new) auto
    from stuck_for_ever [OF closed_update [OF this]] never
    show "plugin_destroy (plugin_life fb api (as @ KeyValue (''fmqchan_'' @ chan) val s # bs)) = None"
      by (simp add: plugin_life_def stuck_destroy) }
qed

theorem plugin_destructor_outcome_witness:
  "\<forall>fb. (\<exists>d. plugin_destroy (plugin_life fb sample_api [KeyValue ''fmqchan_data'' ''tcp://a:5'' 22, EntersState 0 Bound]) = Some d) \<and>
   plugin_destroy (plugin_life fb sample_api [KeyValue ''fmqchan_data'' ''tcp://a:5'' 22, EntersState 0 Exiting]) = None"
proof
  fix fb
  have r: "dv_running (new_device sample_api)" by code_simp
  show "(\<exists>d. plugin_destroy (plugin_life fb sample_api [KeyValue ''fmqchan_data'' ''tcp://a:5'' 22, EntersState 0 Bound]) = Some d) \<and>
      plugin_destroy (plugin_life fb sample_api [KeyValue ''fmqchan_data'' ''tcp://a:5'' 22, EntersState 0 Exiting]) = None"
    using plugin_destructor_outcome [OF r, of "[KeyValue ''fmqchan_data'' ''tcp://a:5'' 22, EntersState 0 Bound]" fb
        "[]" "[EntersState 0 Exiting]" "''data''" "''tcp://a:5''" 22]
    by simp
qed

end
