(* ===== verification/Logging.thy ===== *)
theory Logging
  imports Cli
begin

text \<open>
  Logging: \<^verbatim>\<open>src/odc/LoggerSeverity.h\<close> (severities and their text), \<^verbatim>\<open>src/odc/InfoLogger.h\<close> (the sink that hands messages to
  the ALICE InfoLogger, when ODC is built with it) and \<^verbatim>\<open>src/odc/Logger.h\<close> (the macros, the sinks that are set up), with
  the log options of \<^verbatim>\<open>src/odc/CliHelper.h\<close>. Boost.Log gives a record to every sink whose filter accepts its severity.
  Parameters: the file system, \<open>smart_path\<close>'s environment, and whether InfoLogger is available. The layout of a
  line of the log file is not part of the model.
\<close>

section \<open>Severities\<close>

datatype ESeverity = Sev_debug | Sev_info | Sev_warning | Sev_error | Sev_fatal

definition all_severities :: "ESeverity list" where
  "all_severities = [Sev_debug, Sev_info, Sev_warning, Sev_error, Sev_fatal]"

text \<open>\<^verbatim>\<open>static_cast\<close> to a number: the order of the declaration, which is also how severities compare.\<close>

fun severity_value :: "ESeverity \<Rightarrow> nat" where
  "severity_value Sev_debug = 0"
| "severity_value Sev_info = 1"
| "severity_value Sev_warning = 2"
| "severity_value Sev_error = 3"
| "severity_value Sev_fatal = 4"

lemma severity_value_inject [simp]: "severity_value a = severity_value b \<longleftrightarrow> a = b"
  by (cases a; cases b) simp_all

instantiation ESeverity :: linorder
begin

definition less_eq_ESeverity :: "ESeverity \<Rightarrow> ESeverity \<Rightarrow> bool" where
  "less_eq_ESeverity a b \<longleftrightarrow> severity_value a \<le> severity_value b"

definition less_ESeverity :: "ESeverity \<Rightarrow> ESeverity \<Rightarrow> bool" where
  "less_ESeverity a b \<longleftrightarrow> severity_value a < severity_value b"

instance
  by standard (auto simp: less_eq_ESeverity_def less_ESeverity_def)

end

text \<open>The array has eight entries and five initialisers: the other entries are null pointers.\<close>

definition gSeverityNames :: "string option list" where
  "gSeverityNames = [Some ''dbg'', Some ''inf'', Some ''wrn'', Some ''err'', Some ''fat'', None, None, None]"

definition to_lower_char :: "char \<Rightarrow> char" where
  "to_lower_char c = (let n = of_char c :: nat in if 65 \<le> n \<and> n \<le> 90 then char_of (n + 32) else c)"

definition to_lower :: "string \<Rightarrow> string" where
  "to_lower s = map to_lower_char s"

text \<open>\<^verbatim>\<open>in >> token\<close>.\<close>

definition read_token :: "string \<Rightarrow> string" where
  "read_token s = takeWhile (\<lambda>c. \<not> is_space c) (dropWhile is_space s)"

text \<open>
  \<^verbatim>\<open>std::find\<close> of a string among C strings. The comparison with a null pointer has no defined result: \<open>None\<close>. Otherwise the
  position, or the length at the end.
\<close>

fun find_c_string :: "string option list \<Rightarrow> string \<Rightarrow> nat option" where
  "find_c_string [] token = Some 0"
| "find_c_string (None # ns) token = None"
| "find_c_string (Some n # ns) token = (if n = token then Some 0 else map_option Suc (find_c_string ns token))"

text \<open>Reading a severity.\<close>

definition read_severity :: "string \<Rightarrow> (exn + ESeverity) option" where
  "read_severity s =
     (let token = to_lower (read_token s) in
      case find_c_string gSeverityNames token of
        None \<Rightarrow> None
      | Some i \<Rightarrow>
          if i = length gSeverityNames
          then Some (Inl (RuntimeError (''Can't convert string '' @ token @ '' to ODC log severity'')))
          else Some (Inr (all_severities ! i)))"

text \<open>Writing one; a null pointer would be written if there were more severities than names.\<close>

definition severity_text :: "ESeverity \<Rightarrow> exn + string option" where
  "severity_text s =
     (case at gSeverityNames (severity_value s) of None \<Rightarrow> Inl (OutOfRange ''array::at'') | Some n \<Rightarrow> Inr n)"

section \<open>InfoLogger\<close>

datatype il_severity = IL_Debug | IL_Info | IL_Warning | IL_Error | IL_Fatal | IL_Undefined

fun convertSeverity :: "ESeverity \<Rightarrow> il_severity" where
  "convertSeverity Sev_debug = IL_Debug"
| "convertSeverity Sev_info = IL_Info"
| "convertSeverity Sev_warning = IL_Warning"
| "convertSeverity Sev_error = IL_Error"
| "convertSeverity Sev_fatal = IL_Fatal"

fun convertSeverityToLevel :: "ESeverity \<Rightarrow> int" where
  "convertSeverityToLevel Sev_debug = 14"
| "convertSeverityToLevel Sev_info = 13"
| "convertSeverityToLevel Sev_warning = 11"
| "convertSeverityToLevel Sev_error = 2"
| "convertSeverityToLevel Sev_fatal = 1"

record il_context =
  ic_facility :: string
  ic_system :: string
  ic_role :: string

record il_message = il_context +
  im_severity :: il_severity
  im_level :: int
  im_partition :: string
  im_run :: string
  im_text :: string

text \<open>The channel of a record is \<^verbatim>\<open>partition:run\<close>; without a colon both stay empty.\<close>

definition split_channel :: "string \<Rightarrow> string \<times> string" where
  "split_channel channel =
     (case str_find '':'' channel 0 of
        None \<Rightarrow> ('''', '''')
      | Some i \<Rightarrow> (take i channel, drop (i + 1) channel))"

definition infologger_log :: "il_context \<Rightarrow> ESeverity \<Rightarrow> string \<Rightarrow> string \<Rightarrow> il_message" where
  "infologger_log ctx sev channel msg =
     (let (partitionID, run) = split_channel channel in
      \<lparr>ic_facility = ic_facility ctx, ic_system = ic_system ctx, ic_role = ic_role ctx, im_severity = convertSeverity sev,
       im_level = convertSeverityToLevel sev, im_partition = partitionID, im_run = run, im_text = msg\<rparr>)"

section \<open>The logger\<close>

record log_config =
  lc_severity :: ESeverity
  lc_logDir :: string
  lc_infologger :: bool
  lc_infologgerSystem :: string
  lc_infologgerFacility :: string
  lc_infologgerRole :: string

definition new_log_config :: log_config where
  "new_log_config = \<lparr>lc_severity = Sev_info, lc_logDir = '''', lc_infologger = False, lc_infologgerSystem = '''',
     lc_infologgerFacility = '''', lc_infologgerRole = ''''\<rparr>"

text \<open>A sink with the severity its filter asks for, and what the sinks have been given.\<close>

datatype sink = FileSink string ESeverity | InfoSink ESeverity

datatype log_output = FileLine string ESeverity string string | InfoMessage il_message

record logger =
  lg_started :: bool
  lg_sinks :: "sink list"
  lg_context :: il_context
  lg_out :: "log_output list"

definition new_logger :: logger where
  "new_logger = \<lparr>lg_started = False, lg_sinks = [], lg_context = \<lparr>ic_facility = '''', ic_system = '''', ic_role = ''''\<rparr>, lg_out = []\<rparr>"

definition consume :: "il_context \<Rightarrow> ESeverity \<Rightarrow> string \<Rightarrow> string \<Rightarrow> sink \<Rightarrow> log_output list" where
  "consume ctx sev channel msg snk =
     (case snk of
        FileSink file least \<Rightarrow> if sev \<ge> least then [FileLine file sev channel msg] else []
      | InfoSink least \<Rightarrow> if sev \<ge> least then [InfoMessage (infologger_log ctx sev channel msg)] else [])"

definition log_record :: "ESeverity \<Rightarrow> string \<Rightarrow> string \<Rightarrow> logger \<Rightarrow> logger" where
  "log_record sev channel msg l = l\<lparr>lg_out := lg_out l @ concat (map (consume (lg_context l) sev channel msg) (lg_sinks l))\<rparr>"

text \<open>The three forms of the macro.\<close>

definition OLOG_SEVERITY :: "ESeverity \<Rightarrow> string \<Rightarrow> logger \<Rightarrow> logger" where
  "OLOG_SEVERITY sev msg l = log_record sev '''' msg l"

definition OLOG_SEVERITY_COMMON :: "ESeverity \<Rightarrow> CommonParams \<Rightarrow> string \<Rightarrow> logger \<Rightarrow> logger" where
  "OLOG_SEVERITY_COMMON sev common msg l =
     log_record sev (cp_partitionID common @ '':'' @ u64_text (cp_runNr common)) msg l"

definition OLOG_SEVERITY_PARTITION_RUN :: "ESeverity \<Rightarrow> string \<Rightarrow> u64 \<Rightarrow> string \<Rightarrow> logger \<Rightarrow> logger" where
  "OLOG_SEVERITY_PARTITION_RUN sev partitionID run msg l = log_record sev (partitionID @ '':'' @ u64_text run) msg l"

text \<open>Setting up; without InfoLogger the functions of \<^verbatim>\<open>CInfoLogger\<close> are empty.\<close>

definition setContext :: "bool \<Rightarrow> string \<Rightarrow> string \<Rightarrow> string \<Rightarrow> logger \<Rightarrow> logger" where
  "setContext avail facility system role l =
     (if avail then l\<lparr>lg_context := \<lparr>ic_facility = facility, ic_system = system, ic_role = role\<rparr>\<rparr> else l)"

definition registerSink :: "bool \<Rightarrow> ESeverity \<Rightarrow> bool \<Rightarrow> logger \<Rightarrow> logger" where
  "registerSink avail sev infologger l =
     (if avail \<and> infologger then l\<lparr>lg_sinks := lg_sinks l @ [InfoSink sev]\<rparr> else l)"

record log_fs =
  lf_paths :: path_env
  lf_exists :: "string \<Rightarrow> bool"
  lf_create_directories :: "string \<Rightarrow> exn + bool"

text \<open>\<^verbatim>\<open>createFileSink\<close>; \<open>None\<close> where \<open>smart_path\<close> has no defined result or does not return.\<close>

definition createFileSink :: "log_fs \<Rightarrow> log_config \<Rightarrow> logger \<Rightarrow> (logger \<times> exn option) option" where
  "createFileSink fs cfg l =
     (if lc_logDir cfg = [] then Some (l, None)
      else case smart_path (lf_paths fs) (lc_logDir cfg) of
        None \<Rightarrow> None
      | Some logDir \<Rightarrow>
          let ok = l\<lparr>lg_sinks := lg_sinks l @ [FileSink (logDir @ ''/odc_%Y-%m-%d.%N.log'') (lc_severity cfg)]\<rparr> in
          if lf_exists fs logDir then Some (ok, None)
          else (case lf_create_directories fs logDir of
                  Inl e \<Rightarrow> Some (l, Some e)
                | Inr created \<Rightarrow>
                    if \<not> created
                    then Some (l, Some (RuntimeError (''Can't initialize file sink of logger: failed to create directory '' @ quoted logDir)))
                    else Some (ok, None)))"

text \<open>\<^verbatim>\<open>Logger::init\<close>; \<^verbatim>\<open>started\<close> is set before anything can be thrown.\<close>

definition Logger_init :: "log_fs \<Rightarrow> bool \<Rightarrow> log_config \<Rightarrow> logger \<Rightarrow> (logger \<times> exn option) option" where
  "Logger_init fs avail cfg l =
     (if lg_started l then Some (l, None)
      else case createFileSink fs cfg (l\<lparr>lg_started := True\<rparr>) of
        None \<Rightarrow> None
      | Some (l1, Some e) \<Rightarrow> Some (l1, Some e)
      | Some (l1, None) \<Rightarrow>
          let l2 = setContext avail (lc_infologgerFacility cfg) (lc_infologgerSystem cfg) (lc_infologgerRole cfg) l1;
              l3 = registerSink avail (lc_severity cfg) (lc_infologger cfg) l2
          in (case severity_text (lc_severity cfg) of
                Inl e \<Rightarrow> Some (l3, Some e)
              | Inr None \<Rightarrow> None
              | Inr (Some name) \<Rightarrow>
                  Some (OLOG_SEVERITY Sev_info (''Log engine is initialized with severety '' @ [CHR 0x22] @ name @ [CHR 0x22]) l3, None)))"

section \<open>Log options\<close>

definition log_options :: "string \<Rightarrow> opt_decl list" where
  "log_options defaultLogDir =
     [opt ''logdir'' KString (Some (OString defaultLogDir)) None, opt ''severity'' KString (Some (OString ''inf'')) None,
      opt ''infologger'' KSwitch (Some (OFlag False)) None, opt ''infologger-system'' KString (Some (OString ''ODC'')) None,
      opt ''infologger-facility'' KString (Some (OString ''ODC'')) None, opt ''infologger-role'' KString (Some (OString ''production'')) None]"

text \<open>The values stored in the configuration; the severity is read from its text.\<close>

definition read_log_config :: "string \<Rightarrow> variables_map \<Rightarrow> (exn + log_config) option" where
  "read_log_config defaultLogDir vm =
     (case read_severity (vm_string vm ''severity'' ''inf'') of
        None \<Rightarrow> None
      | Some (Inl e) \<Rightarrow> Some (Inl e)
      | Some (Inr sev) \<Rightarrow> Some (Inr
          \<lparr>lc_severity = sev, lc_logDir = vm_string vm ''logdir'' defaultLogDir, lc_infologger = vm_flag vm ''infologger'' False,
           lc_infologgerSystem = vm_string vm ''infologger-system'' ''ODC'',
           lc_infologgerFacility = vm_string vm ''infologger-facility'' ''ODC'',
           lc_infologgerRole = vm_string vm ''infologger-role'' ''production''\<rparr>))"

section \<open>Properties\<close>

text \<open>
  A severity is read from exactly the texts that write it, in any case and after blanks. An unknown text is never
  reported: the search runs into the null pointers of the array of names before it reaches its end.
\<close>

theorem read_severity_outcome:
  "(read_severity s = Some (Inr sev) \<longleftrightarrow> severity_text sev = Inr (Some (to_lower (read_token s)))) \<and>
   (\<forall>e. read_severity s \<noteq> Some (Inl e)) \<and>
   (read_severity s = None \<longleftrightarrow> to_lower (read_token s) \<notin> {''dbg'', ''inf'', ''wrn'', ''err'', ''fat''})"
proof -
  define token where "token = to_lower (read_token s)"
  have rs: "read_severity s =
    (if token = ''dbg'' then Some (Inr Sev_debug) else if token = ''inf'' then Some (Inr Sev_info)
     else if token = ''wrn'' then Some (Inr Sev_warning) else if token = ''err'' then Some (Inr Sev_error)
     else if token = ''fat'' then Some (Inr Sev_fatal) else None)"
    by (auto simp: read_severity_def gSeverityNames_def all_severities_def simp flip: token_def)
  have st: "severity_text v = Inr (Some (case v of Sev_debug \<Rightarrow> ''dbg'' | Sev_info \<Rightarrow> ''inf'' | Sev_warning \<Rightarrow> ''wrn''
      | Sev_error \<Rightarrow> ''err'' | Sev_fatal \<Rightarrow> ''fat''))" for v
    by (cases v) (simp_all add: severity_text_def gSeverityNames_def at_def)
  show ?thesis unfolding rs st token_def [symmetric] by (cases sev) auto
qed

definition infos :: "log_output list \<Rightarrow> il_message list" where
  "infos out = concat (map (\<lambda>x. case x of InfoMessage m \<Rightarrow> [m] | FileLine _ _ _ _ \<Rightarrow> []) out)"

lemma infos_append [simp]: "infos (xs @ ys) = infos xs @ infos ys"
  by (simp add: infos_def)

lemma find_sub_char: "find_sub [c] s = (if c \<in> set s then Some (length (takeWhile (\<lambda>x. x \<noteq> c) s)) else None)"
  by (induction s) auto

lemma split_channel_first:
  assumes "CHR '':'' \<notin> set a"
  shows "split_channel (a @ CHR '':'' # b) = (a, b)"
proof -
  have "takeWhile (\<lambda>x. x \<noteq> CHR '':'') (a @ CHR '':'' # b) = a" using assms by (subst takeWhile_append2) auto
  then have "find_sub '':'' (a @ CHR '':'' # b) = Some (length a)" by (simp add: find_sub_char)
  then show ?thesis by (simp add: split_channel_def str_find_def)
qed

lemma infos_files [simp]: "infos (concat (map (consume ctx sev channel msg) (map (\<lambda>f. FileSink f least) files))) = []"
  by (induction files) (auto simp: consume_def infos_def)

text \<open>A logger that was set up with InfoLogger: its sinks and its context, which no message changes.\<close>

definition logger_ready :: "log_config \<Rightarrow> logger \<Rightarrow> bool" where
  "logger_ready cfg l \<longleftrightarrow> (\<exists>files. lg_sinks l = map (\<lambda>f. FileSink f (lc_severity cfg)) files @ [InfoSink (lc_severity cfg)]) \<and>
     lg_context l = \<lparr>ic_facility = lc_infologgerFacility cfg, ic_system = lc_infologgerSystem cfg, ic_role = lc_infologgerRole cfg\<rparr>"

lemma log_record_ready [simp]: "logger_ready cfg (log_record sev channel msg l) \<longleftrightarrow> logger_ready cfg l"
  by (simp add: logger_ready_def log_record_def)

lemma OLOG_ready [simp]:
  "logger_ready cfg (OLOG_SEVERITY sev msg l) \<longleftrightarrow> logger_ready cfg l"
  "logger_ready cfg (OLOG_SEVERITY_COMMON sev common msg l) \<longleftrightarrow> logger_ready cfg l"
  by (simp_all add: OLOG_SEVERITY_def OLOG_SEVERITY_COMMON_def)

lemma Logger_init_ready:
  assumes "Logger_init fs True cfg new_logger = Some (l, None)" and "lc_infologger cfg"
  shows "logger_ready cfg l"
proof -
  obtain l1 where l1: "createFileSink fs cfg (new_logger\<lparr>lg_started := True\<rparr>) = Some (l1, None)"
    and l: "\<exists>name. l = OLOG_SEVERITY Sev_info name (registerSink True (lc_severity cfg) (lc_infologger cfg)
      (setContext True (lc_infologgerFacility cfg) (lc_infologgerSystem cfg) (lc_infologgerRole cfg) l1))"
    using assms(1) by (auto simp: Logger_init_def new_logger_def Let_def split: option.splits prod.splits sum.splits)
  have "\<exists>files. lg_sinks l1 = map (\<lambda>f. FileSink f (lc_severity cfg)) files"
    using l1 by (auto simp: createFileSink_def Let_def new_logger_def split: if_splits option.splits sum.splits intro: exI [of _ "[]"]
        exI [of _ "[_]"])
  then show ?thesis using l assms(2) by (auto simp: logger_ready_def registerSink_def setContext_def OLOG_SEVERITY_def log_record_def)
qed

definition info_message :: "log_config \<Rightarrow> CommonParams \<Rightarrow> ESeverity \<Rightarrow> string \<Rightarrow> il_message" where
  "info_message cfg common sev msg =
     \<lparr>ic_facility = lc_infologgerFacility cfg, ic_system = lc_infologgerSystem cfg, ic_role = lc_infologgerRole cfg,
      im_severity = convertSeverity sev, im_level = convertSeverityToLevel sev, im_partition = cp_partitionID common,
      im_run = u64_text (cp_runNr common), im_text = msg\<rparr>"

lemma OLOG_COMMON_infos:
  assumes "logger_ready cfg l" and "CHR '':'' \<notin> set (cp_partitionID common)"
  shows "infos (lg_out (OLOG_SEVERITY_COMMON sev common msg l)) = infos (lg_out l) @
    (if lc_severity cfg \<le> sev then [info_message cfg common sev msg] else [])"
proof -
  have chan: "split_channel (cp_partitionID common @ CHR '':'' # u64_text (cp_runNr common)) =
      (cp_partitionID common, u64_text (cp_runNr common))"
    using assms(2) by (simp add: split_channel_first)
  obtain files where "lg_sinks l = map (\<lambda>f. FileSink f (lc_severity cfg)) files @ [InfoSink (lc_severity cfg)]"
    using assms(1) by (auto simp: logger_ready_def)
  then show ?thesis
    using assms(1) by (simp add: OLOG_SEVERITY_COMMON_def log_record_def logger_ready_def del: map_map)
      (simp add: consume_def infos_def infologger_log_def chan info_message_def)
qed

text \<open>
  Once logging was set up with InfoLogger, a message reaches it exactly when its severity is at least the configured
  one, with the facility, system and role of the configuration, and with the partition and run it was logged for,
  unless the name of the partition has a colon.
\<close>

theorem OLOG_reaches_infologger:
  assumes "Logger_init fs True cfg new_logger = Some (l, None)" and "lc_infologger cfg"
    and "CHR '':'' \<notin> set (cp_partitionID common)"
  shows "infos (lg_out (OLOG_SEVERITY_COMMON sev common msg l)) = infos (lg_out l) @
    (if lc_severity cfg \<le> sev
     then [\<lparr>ic_facility = lc_infologgerFacility cfg, ic_system = lc_infologgerSystem cfg, ic_role = lc_infologgerRole cfg,
            im_severity = convertSeverity sev, im_level = convertSeverityToLevel sev, im_partition = cp_partitionID common,
            im_run = u64_text (cp_runNr common), im_text = msg\<rparr>]
     else [])"
  using OLOG_COMMON_infos [OF Logger_init_ready [OF assms(1,2)] assms(3)] by (simp add: info_message_def)

text \<open>A file sink and InfoLogger; a partition whose name has a colon is cut short.\<close>

definition sample_log_fs :: log_fs where
  "sample_log_fs = \<lparr>lf_paths = \<lparr>pe_homedir = (\<lambda>u. ''/home/'' @ u), pe_realpath = (\<lambda>p. Some p), pe_getenv = (\<lambda>_. None)\<rparr>,
     lf_exists = (\<lambda>d. d = ''/log''), lf_create_directories = (\<lambda>_. Inr False)\<rparr>"

definition sample_log_config :: log_config where
  "sample_log_config = new_log_config\<lparr>lc_logDir := ''/log'', lc_infologger := True, lc_infologgerRole := ''test''\<rparr>"

lemma sample_log_path: "smart_path (lf_paths sample_log_fs) ''/log'' = Some ''/log''"
  by (simp add: smart_path.simps [of _ "''/log''"] sample_log_fs_def expand_tilde_def trim_left_def str_find_def canonical_path_def)

lemma sample_log_init: "\<exists>l. Logger_init sample_log_fs True sample_log_config new_logger = Some (l, None)"
  by (simp add: Logger_init_def sample_log_config_def new_log_config_def new_logger_def createFileSink_def sample_log_path
      severity_text_def gSeverityNames_def at_def Let_def) (simp add: sample_log_fs_def severity_text_def gSeverityNames_def Let_def)

theorem OLOG_reaches_infologger_witness:
  "\<exists>l. Logger_init sample_log_fs True sample_log_config new_logger = Some (l, None) \<and>
     infos (lg_out (OLOG_SEVERITY_COMMON Sev_error \<lparr>cp_partitionID = ''p'', cp_runNr = 5, cp_timeout = 0\<rparr> ''m'' l)) =
       infos (lg_out l) @ [\<lparr>ic_facility = '''', ic_system = '''', ic_role = ''test'', im_severity = IL_Error, im_level = 2,
         im_partition = ''p'', im_run = ''5'', im_text = ''m''\<rparr>] \<and>
     split_channel ''a:b:5'' = (''a'', ''b:5'')"
proof -
  obtain l where l: "Logger_init sample_log_fs True sample_log_config new_logger = Some (l, None)"
    using sample_log_init by blast
  have "u64_text 5 = ''5''" by code_simp
  then show ?thesis
    using l OLOG_reaches_infologger [OF l, of "\<lparr>cp_partitionID = ''p'', cp_runNr = 5, cp_timeout = 0\<rparr>" Sev_error "''m''"]
    by (simp add: sample_log_config_def new_log_config_def less_eq_ESeverity_def split_channel_def str_find_def)
qed

end
