(* ===== verification/Service_Log.thy ===== *)
theory Service_Log
  imports Grpc_Service Logging
begin

text \<open>
  What the service and the controller write to the log: the requests and replies of \<^verbatim>\<open>src/odc/grpc/Controller.h\<close>, the report
  of the requirements a topology has (\<^verbatim>\<open>Controller::extractRequirements\<close>) and \<^verbatim>\<open>Session::debug\<close>, with the stream operators
  of \<^verbatim>\<open>Error\<close> and \<^verbatim>\<open>DDSSubmitParams\<close>. The text Protobuf makes of a reply for debugging is a parameter.
\<close>

section \<open>Texts\<close>

definition Error_text :: "(error_code \<Rightarrow> string) \<Rightarrow> Error \<Rightarrow> string" where
  "Error_text code_text e = code_text (mCode e) @ '' ('' @ mDetails e @ '')''"

definition DDSSubmitParams_text :: "DDSSubmitParams \<Rightarrow> string" where
  "DDSSubmitParams_text p = ''DDSSubmitParams: rms: '' @ su_rms p @ ''; zone: '' @ su_zone p @ ''; agentGroup: '' @ su_agentGroup p @
     ''; numAgents: '' @ u32_text (su_numAgents p) @ ''; minAgents: '' @ u32_text (su_minAgents p) @
     ''; numSlots: '' @ u32_text (su_numSlots p) @ ''; numCores: '' @ u32_text (su_numCores p) @
     ''; configFile: '' @ quoted (su_configFile p) @ ''; envFile: '' @ quoted (su_envFile p)"

definition OLOG_lines :: "ESeverity \<Rightarrow> CommonParams \<Rightarrow> string list \<Rightarrow> logger \<Rightarrow> logger" where
  "OLOG_lines sev common msgs l = fold (OLOG_SEVERITY_COMMON sev common) msgs l"

section \<open>Requests and replies\<close>

definition clientMetadataAsString :: "string \<Rightarrow> (string \<times> string) list \<Rightarrow> string" where
  "clientMetadataAsString peer metadata = ''['' @ peer @ ''] '' @
     fold (\<lambda>(k, v) prefix. prefix @ (if prefix = '''' then '''' else '','') @ k @ '':'' @ v) metadata ''''"

definition logCommonRequest :: "string \<Rightarrow> string \<Rightarrow> CommonParams \<Rightarrow> 'q CommonRequest_scheme \<Rightarrow> logger \<Rightarrow> logger" where
  "logCommonRequest label client common req =
     OLOG_SEVERITY_COMMON Sev_info common (label @ '' request from '' @ client @ '': partitionId: '' @ q_partitionid req @
       ''; runnr: '' @ u64_text (q_runnr req) @ ''; timeout: '' @ u32_text (q_timeout req))"

definition general_reply_text :: "string \<Rightarrow> GeneralReply \<Rightarrow> string" where
  "general_reply_text label rep =
     label @ '' reply: partitionId: '' @ p_partitionid rep @ ''; runnr: '' @ u64_text (p_runnr rep) @ ''; sessionid: '' @
     p_sessionid rep @ ''; state: '' @ p_state rep @ ''; msg: '' @ p_msg rep @ ''; exectime: '' @ i32_text (p_exectime rep) @ ''ms'' @
     (if p_hosts rep \<noteq> [] then ''; hosts: '' @ join_with '', '' (p_hosts rep) else '''')"

text \<open>An error that was not set reads as the default message, with no text and the code 0.\<close>

definition reply_error :: "GeneralReply \<Rightarrow> GError" where
  "reply_error rep = (case p_error rep of None \<Rightarrow> \<lparr>ge_msg = '''', ge_code = 0\<rparr> | Some e \<Rightarrow> e)"

definition logGeneralReply ::
  "(GeneralReply \<Rightarrow> string) \<Rightarrow> string \<Rightarrow> CommonParams \<Rightarrow> GeneralReply \<Rightarrow> logger \<Rightarrow> logger" where
  "logGeneralReply DebugString label common rep =
     (if p_status rep = Reply_ERROR
      then OLOG_SEVERITY_COMMON Sev_error common (general_reply_text label rep @ ''; ERROR: '' @ ge_msg (reply_error rep) @ '' ('' @
             i32_text (ge_code (reply_error rep)) @ '') '')
      else if p_status rep = Reply_SUCCESS then OLOG_SEVERITY_COMMON Sev_info common (general_reply_text label rep)
      else OLOG_SEVERITY_COMMON Sev_error common (label @ '' reply: '' @ DebugString rep))"

definition device_log_text :: "GDevice \<Rightarrow> string" where
  "device_log_text d = ''id: '' @ u64_text (gd_id d) @ ''; state: '' @ gd_state d @ ''; path: '' @ gd_path d @ ''; ignored: '' @
     bool_text (gd_ignored d) @ ''; host: '' @ gd_host d"

definition logStateReply :: "(GeneralReply \<Rightarrow> string) \<Rightarrow> string \<Rightarrow> CommonParams \<Rightarrow> StateReply \<Rightarrow> logger \<Rightarrow> logger" where
  "logStateReply DebugString label common rep l =
     (let l1 = logGeneralReply DebugString label common (p_reply rep) l in
      if p_devices rep \<noteq> []
      then OLOG_lines Sev_info common (''Detailed list of devices:'' # map device_log_text (p_devices rep)) l1
      else l1)"

definition partition_log_text :: "GPartitionStatus \<Rightarrow> string" where
  "partition_log_text p = ''  partitionId: '' @ gp_partitionid p @ ''; DDS session: '' @ SessionStatus_Name (gp_status p) @
     ''; DDS session ID: '' @ gp_sessionid p @ ''; Run Nr.: '' @ u64_text (gp_runnr p) @ ''; topology state: '' @ gp_state p"

definition logStatusReply :: "(StatusReply \<Rightarrow> string) \<Rightarrow> StatusReply \<Rightarrow> logger \<Rightarrow> logger" where
  "logStatusReply DebugString rep =
     (if ps_status rep = Reply_SUCCESS
      then fold (OLOG_SEVERITY Sev_info)
             ((''Status: found '' @ string_of_nat (length (ps_partitions rep)) @ '' partition(s)'' @
                 (if length (ps_partitions rep) > 0 then '':'' else '''')) #
              map partition_log_text (ps_partitions rep))
      else OLOG_SEVERITY Sev_error (''Status: '' @ DebugString rep))"

section \<open>Reports of the controller\<close>

text \<open>The end of \<^verbatim>\<open>extractRequirements\<close>.\<close>

definition zone_report :: "string \<times> ZoneGroup list \<Rightarrow> string list" where
  "zone_report z = (case z of (name, groups) \<Rightarrow>
     (''  '' @ quoted name @ '':'') #
     map (\<lambda>zi. ''    n: '' @ string_of_int (zg_n zi) @ '', nCores: '' @ string_of_int (zg_nCores zi) @ '', agentGroup: '' @ zg_agentGroup zi)
       groups)"

definition requirements_report :: "'d session \<Rightarrow> string list" where
  "requirements_report s =
     (if s_zoneInfo s \<noteq> [] then ''Zones from the topology:'' # concat (map zone_report (s_zoneInfo s)) else []) @
     (if s_nInfo s \<noteq> []
      then ''N info:'' # map (\<lambda>(collection, nmin). ''  collection: '' @ collection @ '', '' @ CollectionNInfo_text nmin) (s_nInfo s) else []) @
     (if s_collections s \<noteq> [] then ''Collections:'' # map (\<lambda>(_, col). ''  '' @ CollectionInfo_text col) (s_collections s) else []) @
     (if s_standaloneTasks s \<noteq> []
      then ''Tasks (outside of collections):'' # map (\<lambda>task. ''  '' @ TaskInfo_text task) (s_standaloneTasks s) else []) @
     ''Agent groups:'' # map (\<lambda>(_, agi). ''  '' @ AgentGroupInfo_text agi) (s_agentGroupInfo s)"

definition log_requirements :: "CommonParams \<Rightarrow> 'd session \<Rightarrow> logger \<Rightarrow> logger" where
  "log_requirements common s = OLOG_lines Sev_info common (requirements_report s)"

text \<open>\<^verbatim>\<open>Session::debug\<close>.\<close>

definition session_debug :: "'d session \<Rightarrow> logger \<Rightarrow> logger" where
  "session_debug s = fold (OLOG_SEVERITY Sev_info)
     (''tasks:'' # map (\<lambda>(_, t). TaskDetails_text t) (s_taskDetails s) @
      ''collections:'' # map (\<lambda>(_, c). CollectionDetails_text c) (s_collectionDetails s) @
      ''agents:'' # map (\<lambda>(_, a). AgentDetails_text a) (s_agentDetails s))"

section \<open>Facts\<close>

lemma OLOG_lines_infos:
  assumes "logger_ready cfg l" and "CHR '':'' \<notin> set (cp_partitionID common)"
  shows "infos (lg_out (OLOG_lines sev common msgs l)) = infos (lg_out l) @
    (if lc_severity cfg \<le> sev then map (info_message cfg common sev) msgs else [])"
  using assms(1)
proof (induction msgs arbitrary: l)
  case (Cons m ms)
  have "logger_ready cfg (OLOG_SEVERITY_COMMON sev common m l)" using Cons.prems by simp
  from Cons.IH [OF this] show ?case
    using OLOG_COMMON_infos [OF Cons.prems assms(2), of sev m] by (simp add: OLOG_lines_def)
qed (simp add: OLOG_lines_def)

lemma setupGeneralReply_status:
  "p_status (setupGeneralReply names order res rep) = (if rr_statusCode res = Status_ok then Reply_SUCCESS else Reply_ERROR)"
  by (simp add: setupGeneralReply_def)

section \<open>Properties\<close>


definition sample_failed :: RequestResult where
  "sample_failed = \<lparr>rr_statusCode = Status_error, rr_msg = ''m'', rr_execTime = 1, rr_error = no_error, rr_partitionID = ''p'',
     rr_runNr = 5, rr_ddsSessionID = ''s'', rr_topologyState = default_TopologyState, rr_hosts = {}\<rparr>"


end
