(* ===== verification/System_Utils.thy ===== *)
theory System_Utils
  imports Misc_Utils
begin

text \<open>
  The functions of \<^verbatim>\<open>src/odc/MiscUtils.h\<close> that ask the system: the password file (\<open>user_db\<close>: \<^verbatim>\<open>getpwuid\<close>, \<^verbatim>\<open>getpwnam\<close> and the
  ids of the process), random UUIDs and the clock, which are parameters, and \<^verbatim>\<open>toString\<close>; then what \<open>smart_path\<close> makes of
  a path below the home directory of a user.
\<close>

section \<open>Users\<close>

record passwd =
  pw_name :: string
  pw_dir :: string

record user_db =
  getpwuid :: "nat \<Rightarrow> passwd option"
  getpwnam :: "string \<Rightarrow> passwd option"
  getuid :: nat
  geteuid :: nat

definition get_cuser_name :: "user_db \<Rightarrow> string" where
  "get_cuser_name db = (case getpwuid db (geteuid db) of Some pwd \<Rightarrow> pw_name pwd | None \<Rightarrow> '''')"

definition get_homedir_uid :: "user_db \<Rightarrow> nat \<Rightarrow> string" where
  "get_homedir_uid db uid = (case getpwuid db uid of Some pwd \<Rightarrow> pw_dir pwd | None \<Rightarrow> '''')"

definition get_homedir :: "user_db \<Rightarrow> string \<Rightarrow> string" where
  "get_homedir db uname = (case getpwnam db uname of Some pwd \<Rightarrow> pw_dir pwd | None \<Rightarrow> '''')"

definition get_cuser_homedir :: "user_db \<Rightarrow> string" where
  "get_cuser_homedir db = get_homedir_uid db (getuid db)"

text \<open>The environment of \<open>smart_path\<close> on a system with these users.\<close>

definition with_users :: "user_db \<Rightarrow> path_env \<Rightarrow> path_env" where
  "with_users db env = env\<lparr>pe_homedir := get_homedir db\<rparr>"

section \<open>Text\<close>

text \<open>What the arguments write to the stream, one after the other.\<close>

definition toString :: "string list \<Rightarrow> string" where
  "toString args = concat args"

text \<open>\<^verbatim>\<open>put_time\<close> with the format of \<^verbatim>\<open>getDateTime\<close>: year, month, day, hour, minute and second of the local time.\<close>

record local_time =
  tm_year :: nat
  tm_mon :: nat
  tm_mday :: nat
  tm_hour :: nat
  tm_min :: nat
  tm_sec :: nat

definition two_digits :: "nat \<Rightarrow> string" where
  "two_digits n = (if n < 10 then ''0'' else '''') @ string_of_nat n"

definition getDateTime :: "local_time \<Rightarrow> string" where
  "getDateTime t = string_of_nat (tm_year t) @ ''-'' @ two_digits (tm_mon t) @ ''-'' @ two_digits (tm_mday t) @ ''_'' @
     two_digits (tm_hour t) @ ''-'' @ two_digits (tm_min t) @ ''-'' @ two_digits (tm_sec t)"

section \<open>Properties\<close>

lemma str_find_none: "c \<notin> set s \<Longrightarrow> str_find [c] s 0 = None"
proof -
  assume c: "c \<notin> set s"
  have "find_sub [c] s = None" using c by (induction s) auto
  then show ?thesis by (simp add: str_find_def)
qed

lemma str_find_first: "c \<notin> set a \<Longrightarrow> str_find [c] (a @ c # b) 0 = Some (length a)"
proof -
  assume c: "c \<notin> set a"
  have "find_sub [c] (a @ c # b) = Some (length a)" using c by (induction a) auto
  then show ?thesis by (simp add: str_find_def)
qed

text \<open>
  A path below \<^verbatim>\<open>~user\<close> becomes the same path below the user's home directory, made canonical. For a user the password
  file does not know, the home directory is empty, and the path silently becomes one below the root directory.
\<close>

theorem smart_path_user:
  assumes "u \<noteq> []" and "CHR ''/'' \<notin> set u" and "CHR ''$'' \<notin> set (get_homedir db u)" and "CHR ''$'' \<notin> set rest"
  shows "smart_path (with_users db env) (''~'' @ u @ ''/'' @ rest) =
      Some (canonical_path (with_users db env) (get_homedir db u @ ''/'' @ rest)) \<and>
    (getpwnam db u = None \<longrightarrow>
       smart_path (with_users db env) (''~'' @ u @ ''/'' @ rest) = Some (canonical_path (with_users db env) (''/'' @ rest)))"
proof -
  let ?p = "''~'' @ u @ ''/'' @ rest"
  have find: "str_find ''/'' ?p 0 = Some (Suc (length u))"
    using str_find_first [of "CHR ''/''" "CHR ''~'' # u" rest] assms(2) by simp
  have "hd u \<noteq> CHR ''/''" using assms(1,2) by (cases u) auto
  then have second: "\<not> (length ?p > 1 \<and> ?p ! 1 = CHR ''/'')" using assms(1) by (cases u) auto
  have "expand_tilde (with_users db env) ?p = Some (get_homedir db u @ ''/'' @ rest)"
    using find second by (simp add: expand_tilde_def trim_left_def with_users_def)
  moreover have "str_find ''$'' (get_homedir db u @ ''/'' @ rest) 0 = None"
    using assms(3,4) by (intro str_find_none) auto
  ultimately have "smart_path (with_users db env) ?p = Some (canonical_path (with_users db env) (get_homedir db u @ ''/'' @ rest))"
    by (subst smart_path.simps) simp
  moreover have "getpwnam db u = None \<longrightarrow> get_homedir db u = ''''" by (simp add: get_homedir_def)
  ultimately show ?thesis by simp
qed

definition sample_users :: user_db where
  "sample_users = \<lparr>getpwuid = (\<lambda>_. None), getpwnam = (\<lambda>u. if u = ''epn'' then Some \<lparr>pw_name = ''epn'', pw_dir = ''/home/epn''\<rparr> else None),
     getuid = 1, geteuid = 1\<rparr>"

definition sample_path_env :: path_env where
  "sample_path_env = \<lparr>pe_homedir = (\<lambda>_. ''''), pe_realpath = (\<lambda>_. None), pe_getenv = (\<lambda>_. None)\<rparr>"

theorem smart_path_user_witness:
  "smart_path (with_users sample_users sample_path_env) ''~epn/log'' = Some ''/home/epn/log'' \<and>
   smart_path (with_users sample_users sample_path_env) ''~nobody/log'' = Some ''/log''"
  using smart_path_user [of "''epn''" sample_users "''log''" sample_path_env]
    smart_path_user [of "''nobody''" sample_users "''log''" sample_path_env]
  by (simp add: sample_users_def sample_path_env_def get_homedir_def canonical_path_def with_users_def)

end
