(* ===== verification/Tools.thy ===== *)
theory Tools
  imports Cli System_Utils
begin

text \<open>
  The small programs \<^verbatim>\<open>src/plugins/rp-same/odc-rp-same.cpp\<close>, the resource plugin that is always there and returns the resources
  it was given, and \<^verbatim>\<open>src/odc/uuidGenerator.cpp\<close>; and the description of the commands that \<^verbatim>\<open>.help\<close> prints
  (\<^verbatim>\<open>src/odc/CliControllerHelper.h\<close>).
\<close>

section \<open>The programs\<close>

text \<open>The exit status and what was written to standard output; the text of the options is left out.\<close>

datatype tool_output = Printed string | PrintedOptions

definition rp_same_decls :: "opt_decl list" where
  "rp_same_decls = [opt ''id'' KString (Some (OString '''')) None, opt ''res'' KString (Some (OString '''')) None,
     opt ''version,v'' KSwitch None None, help_option]"

definition rp_same_main :: "(opt_decl list \<Rightarrow> string list \<Rightarrow> exn + variables_map) \<Rightarrow> string \<Rightarrow> string list \<Rightarrow> nat \<times> tool_output" where
  "rp_same_main parse version argv =
     (case parse rp_same_decls argv of
        Inl e \<Rightarrow> (1, Printed '''')
      | Inr vm \<Rightarrow>
          if vm ''help'' \<noteq> None then (0, PrintedOptions)
          else if vm ''version'' \<noteq> None then (0, Printed (version @ newline))
          else (0, Printed (vm_string vm ''res'' '''')))"

definition uuid_decls :: "opt_decl list" where
  "uuid_decls = [opt ''hash'' KSwitch None (Some (OFlag True)), opt ''help'' KSwitch None None]"

definition uuid_generator_main ::
  "(opt_decl list \<Rightarrow> string list \<Rightarrow> exn + variables_map) \<Rightarrow> string \<Rightarrow> u64 \<Rightarrow> string list \<Rightarrow> nat \<times> tool_output" where
  "uuid_generator_main parse uuid uuidHash argv =
     (case parse uuid_decls argv of
        Inl e \<Rightarrow> (2, Printed '''')
      | Inr vm \<Rightarrow>
          if vm ''help'' \<noteq> None then (0, PrintedOptions)
          else if vm_flag vm ''hash'' False then (0, Printed (u64_text uuidHash @ newline))
          else (0, Printed (uuid @ newline)))"

section \<open>The description of the commands\<close>

definition command_descriptions :: "(string \<times> string) list" where
  "command_descriptions =
    [(''.init'', ''Initialize. Creates a new DDS session or attaches to an existing DDS session.''),
     (''.submit'', ''Submit DDS agents. Can be called multiple times.''),
     (''.activate'', ''Activates DDS topology (devices enter Idle state).''),
     (''.run'', ''Combines Initialize, Submit and Activate commands. A new DDS session is always created.''),
     (''.prop'', ''Set device properties.''),
     (''.upscale'', ''Upscale topology.''),
     (''.downscale'', ''Downscale topology.''),
     (''.state'', ''Get current aggregated state of devices.''),
     (''.config'', ''Transitions devices to Ready state (InitDevice->CompleteInit->Bind->Connect->InitTask).''),
     (''.start'', ''Transitions devices to Running state (via Run transition).''),
     (''.stop'', ''Transitions devices to Ready state (via Stop transition).''),
     (''.reset'', ''Transitions devices to Idle state (via ResetTask->ResetDevice transitions).''),
     (''.term'', ''Shutdown devices via End transition.''),
     (''.down'', ''Shutdown DDS session.''),
     (''.status'', ''Show statuses of managed partitions/sessions.''),
     (''.batch'', ''Execute an array of commands.''),
     (''.sleep'', ''Sleep for X ms.''),
     (''.help'', ''List available commands.''),
     (''.quit'', ''Quit the program.'')]"

definition printDescription :: string where
  "printDescription = ''Available commands:'' @ newline @ newline @
     concat (map (\<lambda>(c, d). c @ '' - '' @ d @ newline) command_descriptions) @ newline @
     ''View command options with '' @ [CHR 0x22] @ ''<command> --help'' @ [CHR 0x22] @ newline"

section \<open>Properties\<close>

text \<open>Whether the dispatcher knows a command.\<close>

definition dispatched :: "string \<Rightarrow> bool" where
  "dispatched cmd \<longleftrightarrow> map_of request_table cmd \<noteq> None \<or> cmd \<in> {''.status'', ''.sleep'', ''.help'', ''.batch'', ''.quit''}"

text \<open>
  The command line is consistent: the commands that completion offers are those that \<^verbatim>\<open>.help\<close> describes, each once, and
  exactly those that are dispatched.
\<close>

theorem commands_consistent:
  "distinct commands \<and> distinct (map fst command_descriptions) \<and> set (map fst command_descriptions) = set commands \<and>
   (dispatched cmd \<longleftrightarrow> cmd \<in> set commands)"
proof -
  have "map fst request_table = [''.init'', ''.submit'', ''.activate'', ''.run'', ''.upscale'', ''.downscale'', ''.config'',
      ''.state'', ''.prop'', ''.start'', ''.stop'', ''.reset'', ''.term'', ''.down'']"
    by (simp add: request_table_def)
  then have "dispatched cmd \<longleftrightarrow> cmd \<in> set [''.init'', ''.submit'', ''.activate'', ''.run'', ''.upscale'', ''.downscale'', ''.config'',
      ''.state'', ''.prop'', ''.start'', ''.stop'', ''.reset'', ''.term'', ''.down'', ''.status'', ''.sleep'', ''.help'', ''.batch'', ''.quit'']"
    unfolding dispatched_def map_of_eq_None_iff set_map [symmetric] by auto
  moreover have "set (map fst command_descriptions) = set commands" by code_simp
  moreover have "distinct commands \<and> distinct (map fst command_descriptions)" by code_simp
  moreover have "set [''.init'', ''.submit'', ''.activate'', ''.run'', ''.upscale'', ''.downscale'', ''.config'',
      ''.state'', ''.prop'', ''.start'', ''.stop'', ''.reset'', ''.term'', ''.down'', ''.status'', ''.sleep'', ''.help'', ''.batch'', ''.quit''] = set commands"
    by code_simp
  ultimately show ?thesis by blast
qed

text \<open>
  The default resource plugin gives the controller back the resources of the request, for a shell that runs it with them
  as the value of its option.
\<close>

theorem default_plugin_returns_resources:
  assumes "map_of plugins ''odc-rp-same'' = Some c"
    and "parse rp_same_decls argv = Inr vm" and "vm ''help'' = None" and "vm ''version'' = None" and "vm ''res'' = Some (OString resources)"
    and "run (c @ '' --res '' @ quoted resources @ '' --id '' @ quoted partitionID) timeout =
      (case rp_same_main parse version argv of (status, Printed out) \<Rightarrow> Inr (out, '''', int status) | (status, _) \<Rightarrow> Inr ('''', '''', int status))"
  shows "execPlugin run plugins ''odc-rp-same'' resources partitionID timeout = Inr resources"
  using assms by (simp add: execPlugin_def rp_same_main_def vm_string_def)

end
