(* ===== verification/Epn_Topo.thy ===== *)
theory Epn_Topo
  imports Requirements Cli
begin

text \<open>
  \<^verbatim>\<open>src/examples/odc-epn-topo.cpp\<close>: the generator of EPN topologies, and its small sibling
  \<^verbatim>\<open>src/examples/odc-topo.cpp\<close>. The first merges the tasks of several
  reconstruction files into one collection inside a group, adds every calibration file as a collection of its
  own, and leaves in custom requirements what \<^verbatim>\<open>Controller::extractRequirements\<close> reads back.

  The objects of the topology API are the records of what the program writes into them: a new element or
  requirement is the last one of its parent. Parameters: the XML files (\<open>xml_files\<close>, \<^verbatim>\<open>initFromXML\<close> of a task and
  of a collection, which may throw), saving and opening the result. The type variable is the content of a task the
  program does not touch. Progress messages are not part of the model.
\<close>

section \<open>Topology objects\<close>

datatype 'b topo_element =
    TaskElement (el_name: string) (el_exe: string) (el_body: 'b)
  | OtherElement (el_name: string)

record 'b collection_object =
  co_name :: string
  co_elements :: "'b topo_element list"
  co_requirements :: "requirement list"

datatype 'b main_element =
    GroupElement string u64 "'b collection_object"
  | TaskGroupElement string u64 "'b topo_element"
  | CollectionElement "'b collection_object"

record 'b xml_files =
  xml_task :: "string \<Rightarrow> string \<Rightarrow> exn + string \<times> 'b"
  xml_collection :: "string \<Rightarrow> string \<Rightarrow> exn + 'b topo_element list \<times> requirement list"

definition addRequirement :: "string \<Rightarrow> RequirementType \<Rightarrow> string \<Rightarrow> 'b collection_object \<Rightarrow> 'b collection_object" where
  "addRequirement name type value c =
     c\<lparr>co_requirements := co_requirements c @ [\<lparr>req_name = name, req_type = type, req_value = value\<rparr>]\<rparr>"

text \<open>A task that is added under a name, initialised from a file, and given a longer command.\<close>

definition init_task :: "('b, 'z) xml_files_scheme \<Rightarrow> string \<Rightarrow> string \<Rightarrow> string \<Rightarrow> exn + 'b topo_element" where
  "init_task X file name prependExe =
     bind_exn (xml_task X file name) (\<lambda>(exe, body). Inr (TaskElement name (prependExe @ exe) body))"

fun init_tasks :: "('b, 'z) xml_files_scheme \<Rightarrow> string \<Rightarrow> string list \<Rightarrow> string \<Rightarrow> exn + 'b topo_element list" where
  "init_tasks X file [] prependExe = Inr []"
| "init_tasks X file (name # names) prependExe =
     bind_exn (init_task X file name prependExe) (\<lambda>t.
     bind_exn (init_tasks X file names prependExe) (\<lambda>ts. Inr (t # ts)))"

text \<open>The first new task whose name the collection already has.\<close>

definition clash :: "'b topo_element list \<Rightarrow> 'b topo_element list \<Rightarrow> string option" where
  "clash new old = map_option el_name (find (\<lambda>t. el_name t \<in> el_name ` set old) new)"

fun combineDPLCollections ::
  "('b, 'z) xml_files_scheme \<Rightarrow> string list \<Rightarrow> string \<Rightarrow> string \<Rightarrow> 'b topo_element list \<Rightarrow> exn + 'b topo_element list" where
  "combineDPLCollections X [] name prependExe old = Inr old"
| "combineDPLCollections X (filepath # topos) name prependExe old =
     bind_exn (xml_collection X filepath ''DPL'') (\<lambda>(elements, _).
       case clash elements old of
         Some task \<Rightarrow> Inl (RuntimeError (''Task named '' @ quoted task @ '' from '' @ quoted filepath @
           '' already exists in the output collection '' @ quoted name))
       | None \<Rightarrow> bind_exn (init_tasks X filepath (map el_name elements) prependExe) (\<lambda>ts.
           combineDPLCollections X topos name prependExe (old @ ts)))"

section \<open>The name of a calibration collection\<close>

fun rfind_char :: "char \<Rightarrow> string \<Rightarrow> nat option" where
  "rfind_char c [] = None"
| "rfind_char c (x # xs) =
     (case rfind_char c xs of Some i \<Rightarrow> Some (Suc i) | None \<Rightarrow> if x = c then Some 0 else None)"

text \<open>\<^verbatim>\<open>substr(pos, count)\<close>, where a count of \<open>None\<close> is \<^verbatim>\<open>npos\<close>.\<close>

definition substr :: "string \<Rightarrow> nat \<Rightarrow> nat option \<Rightarrow> string" where
  "substr s pos count = (case count of None \<Rightarrow> drop pos s | Some n \<Rightarrow> take n (drop pos s))"

definition getFilenameComponent :: "string \<Rightarrow> string" where
  "getFilenameComponent str =
     (case rfind_char (CHR ''/'') str of
        None \<Rightarrow> substr str 0 (rfind_char (CHR ''.'') str)
      | Some pos \<Rightarrow> substr str (pos + 1) (rfind_char (CHR ''.'') str))"

text \<open>\<^verbatim>\<open>file:ncores\<close>; the \<^verbatim>\<open>int\<close> that \<^verbatim>\<open>stoi\<close> returns is converted to a \<^verbatim>\<open>size_t\<close>.\<close>

definition calib_spec :: "string \<Rightarrow> exn + string \<times> u64" where
  "calib_spec calibTopo =
     (case rfind_char (CHR '':'') calibTopo of
        None \<Rightarrow> Inr (calibTopo, 0)
      | Some pos \<Rightarrow> bind_exn (stoi (drop (pos + 1) calibTopo)) (\<lambda>v. Inr (take pos calibTopo, word_of_int v)))"

section \<open>Building the topology\<close>

record epn_options =
  eo_dd :: string
  eo_reco :: "string list"
  eo_recozone :: string
  eo_mon :: string
  eo_n :: u64
  eo_nmin :: u64
  eo_calib :: "string list"
  eo_calibzone :: string
  eo_prependexe :: string
  eo_output :: string

text \<open>How \<^verbatim>\<open>main\<close> stops before the topology is complete.\<close>

datatype epn_stop = StopsThrowing exn | StopsWith nat

definition reco_tasks :: "('b, 'z) xml_files_scheme \<Rightarrow> epn_options \<Rightarrow> exn + 'b topo_element list" where
  "reco_tasks X opts =
     bind_exn (if eo_dd opts \<noteq> [] then bind_exn (init_task X (eo_dd opts) ''TfBuilderTask'' (eo_prependexe opts)) (\<lambda>t. Inr [t])
               else Inr []) (\<lambda>ts.
     bind_exn (combineDPLCollections X (eo_reco opts) ''RecoCollection'' (eo_prependexe opts) ts) (\<lambda>ts.
     if eo_mon opts \<noteq> [] then bind_exn (init_task X (eo_mon opts) ''ErrorMonitorTask'' (eo_prependexe opts)) (\<lambda>t. Inr (ts @ [t]))
     else Inr ts))"

definition reco_collection :: "('b, 'z) xml_files_scheme \<Rightarrow> epn_options \<Rightarrow> epn_stop + 'b collection_object" where
  "reco_collection X opts =
     (case reco_tasks X opts of
        Inl e \<Rightarrow> Inl (StopsThrowing e)
      | Inr ts \<Rightarrow>
          let c1 = addRequirement ''RecoInstanceRequirement'' Req_MaxInstancesPerHost ''1''
                     \<lparr>co_name = ''RecoCollection'', co_elements = ts, co_requirements = []\<rparr>
          in if eo_nmin opts > 0 \<and> eo_nmin opts > eo_n opts then Inl (StopsWith 1)
             else
              let c2 = (if eo_nmin opts > 0
                        then addRequirement ''odc_nmin_RecoCollection'' Req_Custom (u64_text (eo_nmin opts)) c1 else c1)
              in Inr (if eo_recozone opts \<noteq> []
                      then addRequirement ''odc_zone_reco'' Req_Custom (eo_recozone opts)
                             (addRequirement ''RecoAgentGroupRequirement'' Req_GroupName (eo_recozone opts) c2)
                      else c2))"

definition prepend_exe :: "string \<Rightarrow> 'b topo_element \<Rightarrow> 'b topo_element" where
  "prepend_exe prependExe e =
     (case e of TaskElement n exe b \<Rightarrow> TaskElement n (prependExe @ exe) b | OtherElement n \<Rightarrow> OtherElement n)"

text \<open>One calibration collection; \<open>count\<close> is the number of calibration collections so far, this one included.\<close>

definition calib_collection ::
  "('b, 'z) xml_files_scheme \<Rightarrow> epn_options \<Rightarrow> string \<Rightarrow> string \<Rightarrow> u64 \<Rightarrow> nat \<Rightarrow> exn + 'b collection_object" where
  "calib_collection X opts filename calibName ncores count =
     bind_exn (xml_collection X filename ''DPL'') (\<lambda>(elements, reqs).
       let es = (if eo_prependexe opts \<noteq> [] then map (prepend_exe (eo_prependexe opts)) elements else elements);
           c1 = \<lparr>co_name = calibName, co_elements = es, co_requirements = reqs\<rparr>;
           c2 = (if ncores > 0 then addRequirement (''odc_ncores_'' @ calibName) Req_Custom (u64_text ncores) c1 else c1)
       in bind_exn (if eo_mon opts \<noteq> []
                    then bind_exn (init_task X (eo_mon opts) ''ErrorMonitorTask'' (eo_prependexe opts))
                           (\<lambda>t. Inr (c2\<lparr>co_elements := co_elements c2 @ [t]\<rparr>))
                    else Inr c2) (\<lambda>c3.
          Inr (if eo_calibzone opts \<noteq> []
               then addRequirement ''odc_zone_calib'' Req_Custom (eo_calibzone opts)
                      (addRequirement (''CalibAgentGroupRequirement'' @ string_of_nat count) Req_GroupName
                         (eo_calibzone opts @ string_of_nat count) c3)
               else c3)))"

text \<open>The loop; \<open>calibs\<close> are the names seen so far.\<close>

fun calib_collections ::
  "('b, 'z) xml_files_scheme \<Rightarrow> epn_options \<Rightarrow> string list \<Rightarrow> string list \<Rightarrow> exn + 'b collection_object list" where
  "calib_collections X opts [] calibs = Inr []"
| "calib_collections X opts (calibTopo # calibTopos) calibs =
     bind_exn (calib_spec calibTopo) (\<lambda>(filename, ncores).
       let calibName = getFilenameComponent filename in
       if calibName \<in> set calibs then Inl (RuntimeError (''duplicate collection found: '' @ calibTopo))
       else bind_exn (calib_collection X opts filename calibName ncores (Suc (length calibs))) (\<lambda>c.
            bind_exn (calib_collections X opts calibTopos (calibName # calibs)) (\<lambda>cs. Inr (c # cs))))"

definition has_reco :: "epn_options \<Rightarrow> bool" where
  "has_reco opts \<longleftrightarrow> (eo_dd opts \<noteq> [] \<or> length (eo_reco opts) > 0) \<and> eo_n opts > 0"

definition epn_topology :: "('b, 'z) xml_files_scheme \<Rightarrow> epn_options \<Rightarrow> epn_stop + 'b main_element list" where
  "epn_topology X opts =
     (case (if has_reco opts then (case reco_collection X opts of Inl e \<Rightarrow> Inl e
                                   | Inr c \<Rightarrow> Inr [GroupElement ''RecoGroup'' (eo_n opts) c])
            else Inr []) of
        Inl e \<Rightarrow> Inl e
      | Inr reco \<Rightarrow>
         (case calib_collections X opts (eo_calib opts) [] of
            Inl e \<Rightarrow> Inl (StopsThrowing e)
          | Inr cs \<Rightarrow> Inr (reco @ map CollectionElement cs)))"

section \<open>The program\<close>

definition epn_option_decls :: "opt_decl list" where
  "epn_option_decls =
     [help_option, opt ''dd'' KString (Some (OString '''')) None, opt ''reco,r'' KStrings None None,
      opt ''recozone'' KString (Some (OString '''')) None, opt ''mon'' KString (Some (OString '''')) None,
      opt ''n'' KNumber (Some (ONumber 1)) None, opt ''nmin'' KNumber (Some (ONumber 0)) None,
      opt ''calib,c'' KStrings None None, opt ''calibzone'' KString (Some (OString '''')) None,
      opt ''prependexe,p'' KString (Some (OString '''')) None, opt ''output,o'' KString (Some (OString ''topology.xml'')) None]"

definition read_epn_options :: "variables_map \<Rightarrow> epn_options" where
  "read_epn_options vm =
     \<lparr>eo_dd = vm_string vm ''dd'' '''', eo_reco = vm_strings vm ''reco'', eo_recozone = vm_string vm ''recozone'' '''',
      eo_mon = vm_string vm ''mon'' '''', eo_n = vm_number vm ''n'' 1, eo_nmin = vm_number vm ''nmin'' 0,
      eo_calib = vm_strings vm ''calib'', eo_calibzone = vm_string vm ''calibzone'' '''',
      eo_prependexe = vm_string vm ''prependexe'' '''', eo_output = vm_string vm ''output'' ''topology.xml''\<rparr>"

text \<open>The exit status and the topology that was saved, if one was.\<close>

definition epn_topo_main ::
  "(opt_decl list \<Rightarrow> string list \<Rightarrow> exn + variables_map) \<Rightarrow> ('b, 'z) xml_files_scheme \<Rightarrow>
     (string \<Rightarrow> 'b main_element list \<Rightarrow> exn option) \<Rightarrow> (string \<Rightarrow> exn option) \<Rightarrow> string list \<Rightarrow>
     nat \<times> 'b main_element list option" where
  "epn_topo_main parse X save open_topology argv =
     (case parse epn_option_decls argv of
        Inl e \<Rightarrow> (1, None)
      | Inr vm \<Rightarrow>
          if vm ''help'' \<noteq> None then (0, None)
          else
           (case epn_topology X (read_epn_options vm) of
              Inl (StopsThrowing e) \<Rightarrow> (1, None)
            | Inl (StopsWith status) \<Rightarrow> (status, None)
            | Inr t \<Rightarrow>
               (case save (eo_output (read_epn_options vm)) t of
                  Some e \<Rightarrow> (1, None)
                | None \<Rightarrow> (if open_topology (eo_output (read_epn_options vm)) = None then 0 else 1, Some t))))"

section \<open>The simple generator\<close>

definition odc_topo_decls :: "string \<Rightarrow> opt_decl list" where
  "odc_topo_decls dataDir =
     [help_option, opt ''dpl'' KString (Some (OString (dataDir @ ''/ex-dpl-topology.xml''))) None,
      opt ''dd'' KString (Some (OString (dataDir @ ''/ex-dd-topology.xml''))) None,
      opt ''output,o'' KString (Some (OString ''topology.xml'')) None, opt ''ndpl'' KNumber (Some (ONumber 10)) None,
      opt ''ndd'' KNumber (Some (ONumber 10)) None]"

definition odc_topo_topology :: "('b, 'z) xml_files_scheme \<Rightarrow> string \<Rightarrow> string \<Rightarrow> u64 \<Rightarrow> u64 \<Rightarrow> exn + 'b main_element list" where
  "odc_topo_topology X dpl dd numDpl numDd =
     bind_exn (xml_collection X dpl ''DPL'') (\<lambda>(elements, reqs).
     bind_exn (xml_task X dd ''TfBuilderTask'') (\<lambda>(exe, body).
       Inr [GroupElement ''DPLGroup'' numDpl (addRequirement ''DPLRequirement'' Req_MaxInstancesPerHost ''1''
              \<lparr>co_name = ''DPL'', co_elements = elements, co_requirements = reqs\<rparr>),
            TaskGroupElement ''DDGroup'' numDd (TaskElement ''TfBuilderTask'' exe body)]))"

definition odc_topo_main ::
  "(opt_decl list \<Rightarrow> string list \<Rightarrow> exn + variables_map) \<Rightarrow> string \<Rightarrow> ('b, 'z) xml_files_scheme \<Rightarrow>
     (string \<Rightarrow> 'b main_element list \<Rightarrow> exn option) \<Rightarrow> (string \<Rightarrow> exn option) \<Rightarrow> string list \<Rightarrow>
     nat \<times> 'b main_element list option" where
  "odc_topo_main parse dataDir X save open_topology argv =
     (case parse (odc_topo_decls dataDir) argv of
        Inl e \<Rightarrow> (1, None)
      | Inr vm \<Rightarrow>
          if vm ''help'' \<noteq> None then (0, None)
          else
           (case odc_topo_topology X (vm_string vm ''dpl'' (dataDir @ ''/ex-dpl-topology.xml''))
                   (vm_string vm ''dd'' (dataDir @ ''/ex-dd-topology.xml'')) (vm_number vm ''ndpl'' 10) (vm_number vm ''ndd'' 10) of
              Inl e \<Rightarrow> (1, None)
            | Inr t \<Rightarrow>
               (case save (vm_string vm ''output'' ''topology.xml'') t of
                  Some e \<Rightarrow> (1, None)
                | None \<Rightarrow> (if open_topology (vm_string vm ''output'' ''topology.xml'') = None then 0 else 1, Some t))))"

section \<open>What the controller reads back\<close>

text \<open>
  The collections of a saved topology as \<^verbatim>\<open>CTopology\<close> gives them to the controller: below the group with its
  number of instances, or directly in the main group.
\<close>

definition saved_collection :: "string \<Rightarrow> string \<Rightarrow> nat \<Rightarrow> 'b collection_object \<Rightarrow> topo_collection" where
  "saved_collection parent path n c =
     \<lparr>tc_name = co_name c, tc_parentName = parent, tc_parentPath = path, tc_parentIsGroup = True,
      tc_totalCounter = int n, tc_nofTasks = int (length (co_elements c)), tc_requirements = co_requirements c\<rparr>"

fun saved_collections :: "'b main_element list \<Rightarrow> topo_collection list" where
  "saved_collections [] = []"
| "saved_collections (GroupElement name n c # es) =
     saved_collection name (''main/'' @ name) (unat n) c # saved_collections es"
| "saved_collections (TaskGroupElement name n t # es) = saved_collections es"
| "saved_collections (CollectionElement c # es) = saved_collection ''main'' ''main'' 1 c # saved_collections es"

text \<open>The requirements the options ask for.\<close>

definition reco_requirements :: "epn_options \<Rightarrow> col_reqs" where
  "reco_requirements opts = \<lparr>cr_zone = eo_recozone opts, cr_agentGroup = eo_recozone opts, cr_nCores = 0,
     cr_nmin = int (unat (eo_nmin opts))\<rparr>"

definition calib_cores :: "string \<Rightarrow> u64" where
  "calib_cores calibTopo = (case calib_spec calibTopo of Inl _ \<Rightarrow> 0 | Inr (_, ncores) \<Rightarrow> ncores)"

definition calib_requirements :: "epn_options \<Rightarrow> nat \<Rightarrow> u64 \<Rightarrow> col_reqs" where
  "calib_requirements opts count ncores = \<lparr>cr_zone = eo_calibzone opts,
     cr_agentGroup = (if eo_calibzone opts = [] then [] else eo_calibzone opts @ string_of_nat count),
     cr_nCores = int (unat ncores), cr_nmin = 0\<rparr>"

definition epn_requirements :: "epn_options \<Rightarrow> col_reqs list" where
  "epn_requirements opts = (if has_reco opts then [reco_requirements opts] else []) @
     map (\<lambda>(i, t). calib_requirements opts (Suc i) (calib_cores t)) (enumerate 0 (eo_calib opts))"

text \<open>Files that place no requirement of the kinds the controller interprets.\<close>

definition plain :: "requirement \<Rightarrow> bool" where
  "plain r \<longleftrightarrow> req_type r \<noteq> Req_GroupName \<and> req_type r \<noteq> Req_Custom"

definition plain_files :: "('b, 'z) xml_files_scheme \<Rightarrow> bool" where
  "plain_files X \<longleftrightarrow> (\<forall>f es rs. xml_collection X f ''DPL'' = Inr (es, rs) \<longrightarrow> list_all plain rs)"

lemma bind_exn_Inr: "bind_exn x f = Inr y \<longleftrightarrow> (\<exists>v. x = Inr v \<and> f v = Inr y)"
  by (cases x) auto

lemma collection_requirements_append [simp]:
  "collection_requirements c (rs @ rs') a = bind_exn (collection_requirements c rs a) (collection_requirements c rs')"
proof (induction rs arbitrary: a)
  case (Cons r rs)
  have bind: "bind_exn (bind_exn x f) g = bind_exn x (\<lambda>v. bind_exn (f v) g)" for x :: "exn + int" and f g
    by (cases x) auto
  show ?case using Cons by (simp add: bind)
qed simp

lemma collection_requirements_plain: "list_all plain rs \<Longrightarrow> collection_requirements c rs a = Inr a"
  by (induction rs) (auto simp: plain_def)

lemma strStartsWith_append [simp]: "strStartsWith (p @ s) p"
  by (simp add: strStartsWith_def)

lemma calib_collection_parse:
  assumes "calib_collection X opts f name ncores count = Inr c" and "plain_files X" and "unat ncores < 2 ^ 31"
  shows "parse_collection (saved_collection ''main'' ''main'' 1 c) = Inr (calib_requirements opts count ncores)"
proof -
  obtain es rs where xml: "xml_collection X f ''DPL'' = Inr (es, rs)"
    using assms(1) by (auto simp: calib_collection_def bind_exn_Inr)
  have "co_requirements c = rs @ (if ncores > 0 then [\<lparr>req_name = ''odc_ncores_'' @ name, req_type = Req_Custom,
        req_value = u64_text ncores\<rparr>] else []) @ (if eo_calibzone opts \<noteq> [] then
      [\<lparr>req_name = ''CalibAgentGroupRequirement'' @ string_of_nat count, req_type = Req_GroupName,
         req_value = eo_calibzone opts @ string_of_nat count\<rparr>,
       \<lparr>req_name = ''odc_zone_calib'', req_type = Req_Custom, req_value = eo_calibzone opts\<rparr>] else [])"
    using assms(1) by (auto simp: calib_collection_def xml Let_def addRequirement_def bind_exn_Inr split: if_splits)
  moreover have "list_all plain rs" using assms(2) xml by (auto simp: plain_files_def)
  moreover have "stoi (u64_text ncores) = Inr (int (unat ncores))" using assms(3) by (simp add: u64_text_def stoi_string_of_nat)
  moreover have "strStartsWith (CHR ''o'' # ''dc_ncores_'' @ name) ''odc_ncores_''" by (simp add: strStartsWith_def)
  moreover have "\<not> strStartsWith ''odc_zone_calib'' ''odc_ncores_''" "strStartsWith ''odc_zone_calib'' ''odc_zone_''"
    by (simp_all add: strStartsWith_def)
  moreover have "ncores = 0 \<Longrightarrow> int (unat ncores) = 0" by simp
  ultimately show ?thesis
    by (cases "ncores = 0") (simp_all add: parse_collection_def saved_collection_def collection_requirements_plain no_col_reqs_def
        calib_requirements_def word_gt_0)
qed

lemma calib_collections_parse:
  assumes "calib_collections X opts ts calibs = Inr cs" and "plain_files X" and "\<forall>t \<in> set ts. unat (calib_cores t) < 2 ^ 31"
  shows "map parse_collection (saved_collections (map CollectionElement cs)) =
    map Inr (map (\<lambda>(i, t). calib_requirements opts (Suc i) (calib_cores t)) (enumerate (length calibs) ts))"
  using assms(1,3)
proof (induction ts arbitrary: calibs cs)
  case (Cons t ts)
  obtain f n c cs' where t: "calib_spec t = Inr (f, n)" "cs = c # cs'"
    "calib_collection X opts f (getFilenameComponent f) n (Suc (length calibs)) = Inr c"
    "calib_collections X opts ts (getFilenameComponent f # calibs) = Inr cs'"
    using Cons.prems(1) by (auto simp: bind_exn_Inr Let_def split: if_splits)
  have "calib_cores t = n" by (simp add: calib_cores_def t)
  then show ?case
    using Cons.IH [OF t(4)] Cons.prems(2) calib_collection_parse [OF t(3) assms(2)] by (simp add: t(2))
qed simp

lemma reco_collection_parse:
  assumes "reco_collection X opts = Inr c" and "unat (eo_nmin opts) < 2 ^ 31"
  shows "parse_collection (saved_collection ''RecoGroup'' ''main/RecoGroup'' n c) = Inr (reco_requirements opts)"
proof -
  have "co_requirements c = [\<lparr>req_name = ''RecoInstanceRequirement'', req_type = Req_MaxInstancesPerHost, req_value = ''1''\<rparr>] @
    (if eo_nmin opts > 0 then [\<lparr>req_name = ''odc_nmin_RecoCollection'', req_type = Req_Custom,
       req_value = u64_text (eo_nmin opts)\<rparr>] else []) @ (if eo_recozone opts \<noteq> [] then
      [\<lparr>req_name = ''RecoAgentGroupRequirement'', req_type = Req_GroupName, req_value = eo_recozone opts\<rparr>,
       \<lparr>req_name = ''odc_zone_reco'', req_type = Req_Custom, req_value = eo_recozone opts\<rparr>] else [])"
    using assms(1) by (auto simp: reco_collection_def Let_def addRequirement_def split: sum.splits if_splits)
  moreover have "stoll (u64_text (eo_nmin opts)) = Inr (int (unat (eo_nmin opts)))"
    using assms(2) by (simp add: u64_text_def stoll_string_of_nat)
  moreover have "to_int32 (int (unat (eo_nmin opts))) = int (unat (eo_nmin opts))"
    by (rule to_int32_small [OF of_nat_0_le_iff]) (use assms(2) in \<open>simp only: of_nat_less_numeral_power_cancel_iff\<close>)
  moreover have "\<not> strStartsWith ''odc_zone_reco'' ''odc_ncores_''" "strStartsWith ''odc_zone_reco'' ''odc_zone_''"
    "\<not> strStartsWith ''odc_nmin_RecoCollection'' ''odc_ncores_''" "\<not> strStartsWith ''odc_nmin_RecoCollection'' ''odc_zone_''"
    "strStartsWith ''odc_nmin_RecoCollection'' ''odc_nmin_''"
    by (simp_all add: strStartsWith_def)
  moreover have "eo_nmin opts = 0 \<Longrightarrow> int (unat (eo_nmin opts)) = 0" by simp
  ultimately show ?thesis
    by (cases "eo_nmin opts = 0")
      (simp_all add: parse_collection_def saved_collection_def no_col_reqs_def reco_requirements_def word_gt_0)
qed

text \<open>The collection of the simple generator asks for no zone, agent group, cores or minimum.\<close>

lemma odc_topo_parse:
  assumes "odc_topo_topology X dpl dd n m = Inr t" and "plain_files X"
  shows "\<exists>c. saved_collections t = [c] \<and> tc_totalCounter c = int (unat n) \<and> parse_collection c = Inr no_col_reqs"
proof -
  obtain es rs c where t: "xml_collection X dpl ''DPL'' = Inr (es, rs)" "saved_collections t = [c]"
    "c = saved_collection ''DPLGroup'' ''main/DPLGroup'' (unat n) (addRequirement ''DPLRequirement'' Req_MaxInstancesPerHost ''1''
       \<lparr>co_name = ''DPL'', co_elements = es, co_requirements = rs\<rparr>)"
    using assms(1) by (auto simp: odc_topo_topology_def bind_exn_Inr)
  have "list_all plain (tc_requirements c)"
    using assms(2) t by (auto simp: plain_files_def saved_collection_def addRequirement_def plain_def)
  then show ?thesis
    using t(2,3) by (simp add: parse_collection_def collection_requirements_plain no_col_reqs_def) (simp add: saved_collection_def)
qed

lemma nInfo_head:
  "s_nInfo s = [] \<Longrightarrow> cr_agentGroup r \<noteq> [] \<Longrightarrow>
   map_of (s_nInfo (fold (\<lambda>(c, r). add_collection c r) ((c, r) # crs) s)) (tc_name c) =
     Some \<lparr>ni_nOriginal = tc_totalCounter c, ni_nCurrent = tc_totalCounter c, ni_nMin = cr_nmin r, ni_agentGroup = cr_agentGroup r\<rparr>"
  unfolding nInfo_first by simp

section \<open>Properties\<close>


text \<open>
  The name of a calibration collection is the name of its file without the extension only for a file of the current
  directory. For a file in a directory the count given to \<^verbatim>\<open>substr\<close> is a position, so that the extension stays, up to one
  character more than the directory has.
\<close>

lemma rfind_char_none: "rfind_char c s = None \<longleftrightarrow> c \<notin> set s"
  by (induction s) (auto split: option.splits)

lemma rfind_char_last: "c \<notin> set b \<Longrightarrow> rfind_char c (a @ c # b) = Some (length a)"
  by (induction a) (simp_all add: rfind_char_none [THEN iffD2])

theorem getFilenameComponent_extension:
  assumes "CHR ''/'' \<notin> set (stem @ ext)" and "CHR ''.'' \<notin> set ext"
  shows "getFilenameComponent (stem @ ''.'' @ ext) = stem \<and>
    getFilenameComponent (dir @ ''/'' @ stem @ ''.'' @ ext) = stem @ take (Suc (length dir)) (''.'' @ ext)"
proof -
  have "rfind_char (CHR ''/'') (stem @ ''.'' @ ext) = None" using assms(1) by (simp add: rfind_char_none)
  moreover have "rfind_char (CHR ''.'') (stem @ ''.'' @ ext) = Some (length stem)"
    using rfind_char_last [of "CHR ''.''" ext stem] assms(2) by simp
  moreover have "rfind_char (CHR ''/'') (dir @ ''/'' @ stem @ ''.'' @ ext) = Some (length dir)"
    using rfind_char_last [of "CHR ''/''" "stem @ ''.'' @ ext" dir] assms(1) by simp
  moreover have "rfind_char (CHR ''.'') (dir @ ''/'' @ stem @ ''.'' @ ext) = Some (length (dir @ ''/'' @ stem))"
    using rfind_char_last [of "CHR ''.''" ext "dir @ ''/'' @ stem"] assms(2) by simp
  ultimately show ?thesis by (simp add: getFilenameComponent_def substr_def)
qed

text \<open>Merging keeps the names of the tasks of a collection apart, and every merged task keeps its file's name.\<close>

lemma init_tasks_names: "init_tasks X file names p = Inr ts \<Longrightarrow> map el_name ts = names"
  by (induction names arbitrary: ts) (auto simp: bind_exn_Inr init_task_def)

lemma clash_None: "clash new old = None \<longleftrightarrow> el_name ` set new \<inter> el_name ` set old = {}"
  by (auto simp: clash_def find_None_iff)

theorem combineDPLCollections_distinct:
  assumes "combineDPLCollections X files name p old = Inr r" and "distinct (map el_name old)"
    and "\<forall>f \<in> set files. \<forall>es rs. xml_collection X f ''DPL'' = Inr (es, rs) \<longrightarrow> distinct (map el_name es)"
  shows "distinct (map el_name r) \<and> (\<exists>new. r = old @ new)"
  using assms
proof (induction files arbitrary: old)
  case (Cons f files)
  obtain es rs ts where f: "xml_collection X f ''DPL'' = Inr (es, rs)" "clash es old = None"
    "init_tasks X f (map el_name es) p = Inr ts" "combineDPLCollections X files name p (old @ ts) = Inr r"
    using Cons.prems(1) by (auto simp: bind_exn_Inr split: option.splits)
  have "distinct (map el_name (old @ ts))"
    using Cons.prems(2,3) f(1,2) init_tasks_names [OF f(3)] by (auto simp: clash_None simp flip: set_map)
  then show ?case using Cons.IH [OF f(4)] Cons.prems(3) by auto
qed simp

definition sample_epn_files :: "unit xml_files" where
  "sample_epn_files = \<lparr>xml_task = \<lambda>f n. Inr (''exe'', ()),
     xml_collection = \<lambda>f n. Inr ([TaskElement (''t-'' @ f) ''exe'' ()], [])\<rparr>"

definition sample_epn_options :: epn_options where
  "sample_epn_options = \<lparr>eo_dd = ''dd.xml'', eo_reco = [''r1.xml'', ''r2.xml''], eo_recozone = ''online'', eo_mon = ''m.xml'', eo_n = 20,
     eo_nmin = 15, eo_calib = [''calib_its.xml:10''], eo_calibzone = ''calib'', eo_prependexe = ''nice '', eo_output = ''o.xml''\<rparr>"

definition sample_epn_topology :: "unit main_element list" where
  "sample_epn_topology = (case epn_topology sample_epn_files sample_epn_options of Inr t \<Rightarrow> t | Inl _ \<Rightarrow> [])"

lemma sample_epn_built: "epn_topology sample_epn_files sample_epn_options = Inr sample_epn_topology"
  by code_simp

lemma sample_epn_collections: "map tc_name (saved_collections sample_epn_topology) = [''RecoCollection'', ''calib_its'']"
  by code_simp

theorem combineDPLCollections_distinct_witness:
  "\<exists>r. combineDPLCollections sample_epn_files [''a'', ''b''] ''RecoCollection'' '''' [OtherElement ''x''] = Inr r \<and> distinct (map el_name r) \<and>
     (\<exists>e. combineDPLCollections sample_epn_files [''a'', ''a''] ''RecoCollection'' '''' [] = Inl e)"
proof -
  obtain r where r: "combineDPLCollections sample_epn_files [''a'', ''b''] ''RecoCollection'' '''' [OtherElement ''x''] = Inr r"
    by (simp add: sample_epn_files_def init_task_def clash_def)
  have "\<exists>e. combineDPLCollections sample_epn_files [''a'', ''a''] ''RecoCollection'' '''' [] = Inl e"
    by (simp add: sample_epn_files_def init_task_def clash_def)
  then show ?thesis using r combineDPLCollections_distinct [OF r] by (simp add: sample_epn_files_def)
qed

theorem getFilenameComponent_extension_witness:
  "getFilenameComponent ''calib_its.xml'' = ''calib_its'' \<and> getFilenameComponent ''/home/calib_its.xml'' = ''calib_its.xml''"
  using getFilenameComponent_extension [of "''calib_its''" "''xml''" "''/home''"] by simp

definition sample_epn_ct :: ctopology where
  "sample_epn_ct = sample_ct\<lparr>ct_collections := saved_collections sample_epn_topology\<rparr>"


end
