(* ===== verification/Example_Devices.thy ===== *)
theory Example_Devices
  imports ODC_Prelude
begin

text \<open>
  The example devices \<^verbatim>\<open>src/examples/sampler.cpp\<close>, \<^verbatim>\<open>processor.cpp\<close> and \<^verbatim>\<open>sink.cpp\<close>, with which the documentation runs a
  topology. FairMQ calls \<^verbatim>\<open>InitTask\<close> when a task is initialised, and in a run calls \<^verbatim>\<open>ConditionalRun\<close> or the data
  handler again and again until it returns \<^verbatim>\<open>false\<close>. Whether a message could be sent is an argument, as is the
  matching of regular expressions.
\<close>

section \<open>The sampler and the sink\<close>

record sampler =
  sa_fIterations :: u64
  sa_fCounter :: u64

definition new_sampler :: sampler where
  "new_sampler = \<lparr>sa_fIterations = 0, sa_fCounter = 0\<rparr>"

definition Sampler_InitTask :: "u64 \<Rightarrow> sampler \<Rightarrow> sampler" where
  "Sampler_InitTask iterations s = s\<lparr>sa_fIterations := iterations\<rparr>"

text \<open>The state afterwards, and whether the run goes on; a message was sent exactly when \<open>sent\<close>.\<close>

definition Sampler_ConditionalRun :: "bool \<Rightarrow> sampler \<Rightarrow> sampler \<times> bool" where
  "Sampler_ConditionalRun sent s =
     (if \<not> sent then (s, False)
      else if sa_fIterations s > 0
      then (let s1 = s\<lparr>sa_fCounter := sa_fCounter s + 1\<rparr>
            in if sa_fCounter s1 \<ge> sa_fIterations s1 then (s1, False) else (s1, True))
      else (s, True))"

record sink_device =
  si_fIterations :: u64
  si_fCounter :: u64

definition new_sink :: sink_device where
  "new_sink = \<lparr>si_fIterations = 0, si_fCounter = 0\<rparr>"

definition Sink_InitTask :: "u64 \<Rightarrow> sink_device \<Rightarrow> sink_device" where
  "Sink_InitTask iterations s = s\<lparr>si_fIterations := iterations\<rparr>"

definition Sink_HandleData :: "sink_device \<Rightarrow> sink_device \<times> bool" where
  "Sink_HandleData s =
     (if si_fIterations s > 0
      then (let s1 = s\<lparr>si_fCounter := si_fCounter s + 1\<rparr>
            in if si_fCounter s1 \<ge> si_fIterations s1 then (s1, False) else (s1, True))
      else (s, True))"

section \<open>The processor\<close>

text \<open>
  \<^verbatim>\<open>Init\<close>: outside of DDS there is no task path, and a string made of a null pointer has no defined value (\<open>None\<close>);
  otherwise the device throws for the first pattern that matches its path.
\<close>

definition Processor_Init :: "(string \<Rightarrow> string \<Rightarrow> bool) \<Rightarrow> string option \<Rightarrow> string list \<Rightarrow> exn option option" where
  "Processor_Init regex_match taskPath selfDestructPaths =
     (case taskPath of
        None \<Rightarrow> None
      | Some path \<Rightarrow>
          Some (if list_ex (\<lambda>p. regex_match path p) selfDestructPaths
                then Some (RuntimeError ''Instructed to self-destruct. throwing runtime_error'') else None))"

text \<open>The message it sends for a message it receives, and the data handler.\<close>

definition processed :: "string \<Rightarrow> string \<Rightarrow> string" where
  "processed deviceId msg = msg @ '' (modified by '' @ deviceId @ '')''"

definition Processor_HandleData :: "string \<Rightarrow> bool \<Rightarrow> string \<Rightarrow> string list \<times> bool" where
  "Processor_HandleData deviceId sent msg = (if sent then ([processed deviceId msg], True) else ([], False))"

text \<open>The property that makes a processor abort.\<close>

definition Processor_aborts :: "string \<Rightarrow> string \<Rightarrow> bool" where
  "Processor_aborts key value \<longleftrightarrow> key = ''crash'' \<and> value = ''yes''"

section \<open>Counting runs\<close>

text \<open>Calling a step until it says stop, at most \<open>fuel\<close> times: the state, the number of calls, and whether it stopped.\<close>

fun run_until :: "('s \<Rightarrow> 's \<times> bool) \<Rightarrow> nat \<Rightarrow> 's \<Rightarrow> 's \<times> nat \<times> bool" where
  "run_until step 0 s = (s, 0, False)"
| "run_until step (Suc fuel) s =
     (case step s of
        (s1, False) \<Rightarrow> (s1, 1, True)
      | (s1, True) \<Rightarrow> (case run_until step fuel s1 of (s2, n, stopped) \<Rightarrow> (s2, Suc n, stopped)))"

text \<open>What the sampler and the sink share: a counter that is compared with a limit.\<close>

locale counting =
  fixes step :: "'s \<Rightarrow> 's \<times> bool"
    and limit :: "'s \<Rightarrow> u64"
    and counter :: "'s \<Rightarrow> u64"
  assumes keeps: "step s = (s', go_on) \<Longrightarrow> limit s' = limit s"
    and counts: "limit s > 0 \<Longrightarrow> step s = (s', go_on) \<Longrightarrow> counter s' = counter s + 1 \<and> (go_on \<longleftrightarrow> counter s + 1 < limit s)"
    and endless: "limit s = 0 \<Longrightarrow> step s = (s, True)"
begin

text \<open>The number of calls of a limited run: what the counter still lacks, but at least one.\<close>

definition calls :: "'s \<Rightarrow> nat" where
  "calls s = max 1 (unat (limit s) - unat (counter s))"

lemma run_limited:
  assumes "limit s > 0" and "unat (counter s) + calls s < 2 ^ 64" and "calls s \<le> fuel"
  shows "\<exists>s'. run_until step fuel s = (s', calls s, True) \<and> limit s' = limit s \<and>
    unat (counter s') = unat (counter s) + calls s"
  using assms
proof (induction fuel arbitrary: s)
  case 0
  then show ?case by (simp add: calls_def)
next
  case (Suc fuel)
  obtain s1 go_on where s1: "step s = (s1, go_on)" by fastforce
  note c = counts [OF Suc.prems(1) s1] and l = keeps [OF s1]
  have "1 \<le> calls s" by (simp add: calls_def)
  then have u: "unat (counter s1) = Suc (unat (counter s))"
    using c Suc.prems(2) unat_Suc_word [of "counter s"] by simp
  have go: "go_on \<longleftrightarrow> Suc (unat (counter s)) < unat (limit s)" using c u by (simp add: word_less_nat_alt)
  show ?case
  proof (cases go_on)
    case False
    then have "calls s = 1" using go by (auto simp: calls_def)
    then show ?thesis using False s1 l u by auto
  next
    case True
    then have "calls s = Suc (calls s1)" using go l u by (auto simp: calls_def)
    moreover have "0 < limit s1" using Suc.prems(1) l by simp
    ultimately show ?thesis using Suc.IH [of s1] Suc.prems(2,3) True s1 l u by auto
  qed
qed

lemma run_endless: "limit s = 0 \<Longrightarrow> run_until step fuel s = (s, fuel, False)"
  by (induction fuel) (simp_all add: endless)

end

interpretation sampler: counting "Sampler_ConditionalRun True" sa_fIterations sa_fCounter
  by unfold_locales (auto simp: Sampler_ConditionalRun_def Let_def split: if_splits)

interpretation sink: counting Sink_HandleData si_fIterations si_fCounter
  by unfold_locales (auto simp: Sink_HandleData_def Let_def split: if_splits)

section \<open>Properties\<close>

text \<open>
  A sampler that can send and has a limit of n messages sends n messages and stops; with the limit 0 it never stops by
  itself. Because initialising the task again does not reset the counter, every later run with the same limit ends after
  one message.
\<close>

theorem sampler_iterations:
  assumes "0 < n" and "unat n < 2 ^ 64 - 1" and "unat n \<le> fuel"
  shows "\<exists>s. run_until (Sampler_ConditionalRun True) fuel (Sampler_InitTask n new_sampler) = (s, unat n, True) \<and>
    (\<exists>s'. run_until (Sampler_ConditionalRun True) fuel (Sampler_InitTask n s) = (s', 1, True)) \<and>
    run_until (Sampler_ConditionalRun True) fuel (Sampler_InitTask 0 new_sampler) = (Sampler_InitTask 0 new_sampler, fuel, False)"
proof -
  have n: "1 \<le> unat n" using assms(1) by (simp add: word_gt_0 unat_gt_0 Suc_le_eq)
  let ?s0 = "Sampler_InitTask n new_sampler"
  have c0: "sampler.calls ?s0 = unat n"
    unfolding sampler.calls_def using n by (simp add: Sampler_InitTask_def new_sampler_def)
  obtain s where s: "run_until (Sampler_ConditionalRun True) fuel ?s0 = (s, unat n, True)" "sa_fIterations s = n" "sa_fCounter s = n"
    using sampler.run_limited [of ?s0 fuel] assms c0
    by (auto simp: Sampler_InitTask_def new_sampler_def word_unat_eq_iff)
  have "Sampler_InitTask n s = s" using s(2) by (cases s) (simp add: Sampler_InitTask_def)
  moreover have "sampler.calls s = 1" unfolding sampler.calls_def using s(2,3) by simp
  ultimately have "\<exists>s'. run_until (Sampler_ConditionalRun True) fuel (Sampler_InitTask n s) = (s', 1, True)"
    using sampler.run_limited [of s fuel] s(2,3) assms n by auto
  moreover have "run_until (Sampler_ConditionalRun True) fuel (Sampler_InitTask 0 new_sampler) =
      (Sampler_InitTask 0 new_sampler, fuel, False)"
    by (rule sampler.run_endless) (simp add: Sampler_InitTask_def)
  ultimately show ?thesis using s(1) by blast
qed

theorem sampler_iterations_witness:
  "\<exists>s. run_until (Sampler_ConditionalRun True) 5 (Sampler_InitTask 3 new_sampler) = (s, 3, True) \<and>
     (\<exists>s'. run_until (Sampler_ConditionalRun True) 5 (Sampler_InitTask 3 s) = (s', 1, True))"
  using sampler_iterations [of 3 5] by auto

text \<open>
  A chain of the three devices: the sink gets, in order, every message of the sampler with the processor's note.
\<close>

definition pipeline :: "string \<Rightarrow> string list \<Rightarrow> string list" where
  "pipeline deviceId msgs = concat (map (\<lambda>m. fst (Processor_HandleData deviceId True m)) msgs)"

theorem pipeline_messages: "pipeline deviceId (replicate n ''Data'') = replicate n (''Data (modified by '' @ deviceId @ '')'')"
  by (induction n) (simp_all add: pipeline_def Processor_HandleData_def processed_def)

end
