(* ===== verification/Test_Cases.thy ===== *)
theory Test_Cases
  imports DDS_Submit
begin

text \<open>
  The test cases of \<^verbatim>\<open>src/tests/requirements-tests.cpp\<close> and \<^verbatim>\<open>src/tests/parameters-tests.cpp\<close>, run on the model: the topology
  files of \<^verbatim>\<open>src/examples\<close> as DDS presents them to the controller, and what the tests expect of the session and of the
  submissions. They check that the model does on these inputs what the tests say the program does. Where a test looks
  into an \<^verbatim>\<open>unordered_map\<close> the lookup is compared, not the order.
\<close>

section \<open>Topology files\<close>

definition custom :: "string \<Rightarrow> string \<Rightarrow> requirement" where
  "custom name value = \<lparr>req_name = name, req_type = Req_Custom, req_value = value\<rparr>"

definition group_name :: "string \<Rightarrow> requirement" where
  "group_name value = \<lparr>req_name = ''group'', req_type = Req_GroupName, req_value = value\<rparr>"

definition main_collection :: "string \<Rightarrow> int \<Rightarrow> requirement list \<Rightarrow> topo_collection" where
  "main_collection name tasks reqs =
     \<lparr>tc_name = name, tc_parentName = ''main'', tc_parentPath = ''main'', tc_parentIsGroup = True, tc_totalCounter = 1,
      tc_nofTasks = tasks, tc_requirements = reqs\<rparr>"

definition group_collection :: "string \<Rightarrow> string \<Rightarrow> int \<Rightarrow> int \<Rightarrow> requirement list \<Rightarrow> topo_collection" where
  "group_collection name parent n tasks reqs =
     \<lparr>tc_name = name, tc_parentName = parent, tc_parentPath = ''main/'' @ parent, tc_parentIsGroup = True, tc_totalCounter = n,
      tc_nofTasks = tasks, tc_requirements = reqs\<rparr>"

definition file_of :: "topo_collection list \<Rightarrow> ctopology" where
  "file_of cs = \<lparr>rt_tasks = [], rt_matching = (\<lambda>_. Inr []), rt_collectionName = (\<lambda>_. Inr ''''),
     ct_runtimeTask = (\<lambda>_. Inr 1), ct_runtimeRequirements = [], ct_tasks = [], ct_collections = cs\<rparr>"

definition ex_topo_infinite :: "topo_collection list" where
  "ex_topo_infinite = [group_collection ''EPNCollection'' ''EPNGroup'' 1 12 []]"

definition ex_topo_groupname :: "topo_collection list" where
  "ex_topo_groupname =
     [main_collection ''SamplersSinks'' 2 [group_name ''calib''],
      group_collection ''Processors'' ''ProcessorGroup'' 4 1 [group_name ''online'']]"

definition ex_topo_groupname_ncores :: "topo_collection list" where
  "ex_topo_groupname_ncores =
     [main_collection ''Samplers'' 1 [custom ''odc_zone_calib'' ''calib'', group_name ''calib1'', custom ''odc_ncores_Samplers'' ''2''],
      main_collection ''Sinks'' 1 [custom ''odc_zone_calib'' ''calib'', group_name ''calib2'', custom ''odc_ncores_Sinks'' ''1''],
      group_collection ''Processors'' ''ProcessorGroup'' 4 1 [custom ''odc_zone_online'' ''online'', group_name ''online'']]"

definition ex_topo_groupname_crashing :: "topo_collection list" where
  "ex_topo_groupname_crashing =
     [main_collection ''SamplersSinks'' 2 [group_name ''calib''],
      group_collection ''Processors'' ''ProcessorGroup'' 4 2 [group_name ''online'', custom ''odc_nmin_Processors'' ''2'']]"

definition ex_epn :: "topo_collection list" where
  "ex_epn =
     [main_collection ''wf11.dds'' 17 [custom ''odc_ncores_wf11.dds'' ''128'', group_name ''calib1'', custom ''odc_zone_calib'' ''calib''],
      group_collection ''RecoCollection'' ''RecoGroup'' 50 223
        [custom ''odc_nmin_RecoCollection'' ''50'', group_name ''online'', custom ''odc_zone_reco'' ''online'']]"

lemmas file_defs = custom_def group_name_def main_collection_def group_collection_def

definition extracted :: "topo_collection list \<Rightarrow> unit session \<times> exn option" where
  "extracted cs = extractRequirements (\<lambda>_. Inr (file_of cs)) (new_session () ''test_partition'')"

text \<open>The numbers the files contain.\<close>

lemma file_numbers:
  "stoi ''1'' = Inr 1" "stoi ''2'' = Inr 2" "stoi ''128'' = Inr 128" "stoll ''2'' = Inr 2" "stoll ''50'' = Inr 50"
  by (simp_all add: stoi_def stoll_def parse_bounded_def parse_decimal_def is_space_def is_digit_def digits_value_def)

lemmas parse_defs = parse_collection_def no_col_reqs_def strStartsWith_def file_defs file_numbers to_int32_def

text \<open>With the requirements of every collection read, the session is filled collection by collection.\<close>

definition filled :: "(topo_collection \<times> col_reqs) list \<Rightarrow> unit session" where
  "filled crs = fold (\<lambda>(c, r). add_collection c r) crs (new_session () ''test_partition'')"

lemma extracted_filled:
  assumes "map parse_collection cs = map Inr rs"
  shows "extracted cs = (filled (zip cs rs), None)"
proof -
  have "extract_collections cs (new_session () ''test_partition'') = (filled (zip cs rs), None)"
    unfolding filled_def by (rule extract_collections_ok [THEN iffD2]) (use assms in blast)
  then show ?thesis
    by (simp add: extracted_def extractRequirements_def clear_requirements_def file_of_def new_session_def
        extract_expendable_def)
qed

definition reqs :: "string \<Rightarrow> string \<Rightarrow> int \<Rightarrow> int \<Rightarrow> col_reqs" where
  "reqs zone agentGroup nCores nmin = \<lparr>cr_zone = zone, cr_agentGroup = agentGroup, cr_nCores = nCores, cr_nmin = nmin\<rparr>"

text \<open>What the tests look at: zones, minimal numbers, collections and agent groups.\<close>

definition zone_groups :: "topo_collection list \<Rightarrow> (string \<times> (int \<times> int \<times> string) list) list" where
  "zone_groups cs = map (\<lambda>(z, gs). (z, map (\<lambda>g. (zg_n g, zg_nCores g, zg_agentGroup g)) gs)) (s_zoneInfo (fst (extracted cs)))"

definition n_infos :: "topo_collection list \<Rightarrow> (string \<times> int \<times> int \<times> string) list" where
  "n_infos cs = map (\<lambda>(name, i). (name, ni_nOriginal i, ni_nMin i, ni_agentGroup i)) (s_nInfo (fst (extracted cs)))"

definition collections_of :: "topo_collection list \<Rightarrow> (string \<times> string \<times> string \<times> int \<times> int \<times> int \<times> int \<times> int) list" where
  "collections_of cs = map (\<lambda>(name, i). (name, ci_zone i, ci_agentGroup i, ci_nOriginal i, ci_nMin i, ci_nCores i, ci_numTasks i,
     ci_totalTasks i)) (s_collections (fst (extracted cs)))"

definition agent_groups :: "topo_collection list \<Rightarrow> (string \<times> string \<times> int \<times> int \<times> int \<times> int) list" where
  "agent_groups cs = map (\<lambda>(name, a). (name, ag_zone a, ag_numAgents a, ag_minAgents a, ag_numSlots a, ag_numCores a))
     (s_agentGroupInfo (fst (extracted cs)))"

lemmas look_defs = zone_groups_def n_infos_def collections_of_def agent_groups_def

section \<open>Requirements\<close>

lemma parsed_simple: "map parse_collection ex_topo_infinite = map Inr [reqs '''' '''' 0 0]"
  by (simp add: ex_topo_infinite_def reqs_def parse_defs)

lemma test_simple:
  shows   "snd (extracted ex_topo_infinite) = None"
    and "zone_groups ex_topo_infinite = []"
    and "n_infos ex_topo_infinite = []"
    and "collections_of ex_topo_infinite =
     [(''EPNCollection'', '''', '''', 1, 0, 0, 12, 12)]"
    and "agent_groups ex_topo_infinite =
     [('''', '''', 1, 0, 12, 0)]"
  unfolding look_defs extracted_filled [OF parsed_simple] fst_conv snd_conv by code_simp+

lemma parsed_groupname: "map parse_collection ex_topo_groupname = map Inr [reqs ''calib'' ''calib'' 0 0, reqs ''online'' ''online'' 0 0]"
  by (simp add: ex_topo_groupname_def reqs_def parse_defs)

lemma test_groupname:
  shows   "snd (extracted ex_topo_groupname) = None"
    and "zone_groups ex_topo_groupname = [(''calib'', [(1, 0, ''calib'')]), (''online'', [(4, 0, ''online'')])]"
    and "n_infos ex_topo_groupname = [(''Processors'', 4, 0, ''online''), (''SamplersSinks'', 1, 0, ''calib'')]"
    and "collections_of ex_topo_groupname =
     [(''Processors'', ''online'', ''online'', 4, 0, 0, 1, 4),
      (''SamplersSinks'', ''calib'', ''calib'', 1, 0, 0, 2, 2)]"
    and "agent_groups ex_topo_groupname =
     [(''calib'', ''calib'', 1, 0, 2, 0), (''online'', ''online'', 4, 0, 1, 0)]"
  unfolding look_defs extracted_filled [OF parsed_groupname] fst_conv snd_conv by code_simp+

lemma parsed_ncores: "map parse_collection ex_topo_groupname_ncores = map Inr [reqs ''calib'' ''calib1'' 2 0, reqs ''calib'' ''calib2'' 1 0, reqs ''online'' ''online'' 0 0]"
  by (simp add: ex_topo_groupname_ncores_def reqs_def parse_defs)

lemma test_ncores:
  shows   "snd (extracted ex_topo_groupname_ncores) = None"
    and "zone_groups ex_topo_groupname_ncores = [(''calib'', [(1, 2, ''calib1''), (1, 1, ''calib2'')]), (''online'', [(4, 0, ''online'')])]"
    and "n_infos ex_topo_groupname_ncores = [(''Processors'', 4, 0, ''online''), (''Samplers'', 1, 0, ''calib1''), (''Sinks'', 1, 0, ''calib2'')]"
    and "collections_of ex_topo_groupname_ncores =
     [(''Processors'', ''online'', ''online'', 4, 0, 0, 1, 4),
      (''Samplers'', ''calib'', ''calib1'', 1, 0, 2, 1, 1),
      (''Sinks'', ''calib'', ''calib2'', 1, 0, 1, 1, 1)]"
    and "agent_groups ex_topo_groupname_ncores =
     [(''calib1'', ''calib'', 1, 0, 1, 2), (''calib2'', ''calib'', 1, 0, 1, 1), (''online'', ''online'', 4, 0, 1, 0)]"
  unfolding look_defs extracted_filled [OF parsed_ncores] fst_conv snd_conv by code_simp+

lemma parsed_nmin: "map parse_collection ex_topo_groupname_crashing = map Inr [reqs ''calib'' ''calib'' 0 0, reqs ''online'' ''online'' 0 2]"
  by (simp add: ex_topo_groupname_crashing_def reqs_def parse_defs)

lemma test_nmin:
  shows   "snd (extracted ex_topo_groupname_crashing) = None"
    and "zone_groups ex_topo_groupname_crashing = [(''calib'', [(1, 0, ''calib'')]), (''online'', [(4, 0, ''online'')])]"
    and "n_infos ex_topo_groupname_crashing = [(''Processors'', 4, 2, ''online''), (''SamplersSinks'', 1, 0, ''calib'')]"
    and "collections_of ex_topo_groupname_crashing =
     [(''Processors'', ''online'', ''online'', 4, 2, 0, 2, 8),
      (''SamplersSinks'', ''calib'', ''calib'', 1, 0, 0, 2, 2)]"
    and "agent_groups ex_topo_groupname_crashing =
     [(''calib'', ''calib'', 1, 0, 2, 0), (''online'', ''online'', 4, 2, 2, 0)]"
  unfolding look_defs extracted_filled [OF parsed_nmin] fst_conv snd_conv by code_simp+

lemma parsed_epn: "map parse_collection ex_epn = map Inr [reqs ''calib'' ''calib1'' 128 0, reqs ''online'' ''online'' 0 50]"
  by (simp add: ex_epn_def reqs_def parse_defs)

lemma test_epn:
  shows   "snd (extracted ex_epn) = None"
    and "zone_groups ex_epn = [(''calib'', [(1, 128, ''calib1'')]), (''online'', [(50, 0, ''online'')])]"
    and "n_infos ex_epn = [(''RecoCollection'', 50, 50, ''online''), (''wf11.dds'', 1, 0, ''calib1'')]"
    and "collections_of ex_epn =
     [(''RecoCollection'', ''online'', ''online'', 50, 50, 0, 223, 11150),
      (''wf11.dds'', ''calib'', ''calib1'', 1, 0, 128, 17, 17)]"
    and "agent_groups ex_epn =
     [(''calib1'', ''calib'', 1, 0, 17, 128), (''online'', ''online'', 50, 50, 223, 0)]"
  unfolding look_defs extracted_filled [OF parsed_epn] fst_conv snd_conv by code_simp+

section \<open>Submissions\<close>

definition ex_topo_infinite_up :: "topo_collection list" where
  "ex_topo_infinite_up = [group_collection ''EPNCollection'' ''EPNGroup'' 3 12 []]"

lemma parsed_infinite_up: "map parse_collection ex_topo_infinite_up = map Inr [reqs '''' '''' 0 0]"
  by (simp add: ex_topo_infinite_up_def reqs_def parse_defs)

text \<open>The properties of a set of parameters the tests compare.\<close>

definition params_view :: "DDSSubmitParams \<Rightarrow> string \<times> string \<times> string \<times> nat \<times> nat \<times> nat \<times> nat \<times> string" where
  "params_view p = (su_rms p, su_zone p, su_agentGroup p, unat (su_numAgents p), unat (su_minAgents p), unat (su_numSlots p),
     unat (su_numCores p), su_configFile p)"

definition slurm_zones :: "(string \<times> ZoneConfig) list" where
  "slurm_zones = [(''calib'', \<lparr>zc_cfgPath = ''/home/user/slurm-calib.cfg'', zc_envPath = ''''\<rparr>),
     (''online'', \<lparr>zc_cfgPath = ''/home/user/slurm-online.cfg'', zc_envPath = ''''\<rparr>)]"

definition topo_params :: "string \<Rightarrow> (string \<times> ZoneConfig) list \<Rightarrow> topo_collection list \<Rightarrow> _" where
  "topo_params rms zones cs = map params_view (makeParams_topo rms zones (s_agentGroupInfo (fst (extracted cs))))"

text \<open>The output of a plugin as a property tree: tags with texts or numbers, or with children.\<close>

datatype tree = Text_node string | Number_node u32 | Children (children_of: "(string \<times> tree) list")

definition tree_api :: "tree \<Rightarrow> tree ptree_api" where
  "tree_api t =
     \<lparr>pt_read_xml = (\<lambda>_. Inr t), pt_children = (\<lambda>t. case t of Children cs \<Rightarrow> cs | _ \<Rightarrow> []),
      pt_get_string = (\<lambda>k t. case t of Children cs \<Rightarrow> (case map_of cs k of Some (Text_node s) \<Rightarrow> Some s | _ \<Rightarrow> None) | _ \<Rightarrow> None),
      pt_get_u32 = (\<lambda>k t. case t of Children cs \<Rightarrow> (case map_of cs k of Some (Number_node n) \<Rightarrow> Some n | _ \<Rightarrow> None) | _ \<Rightarrow> None)\<rparr>"

definition plugin_params :: "tree \<Rightarrow> topo_collection list \<Rightarrow> _" where
  "plugin_params t cs =
     map_sum id (map params_view) (makeParams_plugin (\<lambda>_ _. Inr ('''', '''', 0)) (tree_api t) [(''plugin'', ''plugin'')] ''plugin'' '''' ''''
       (s_zoneInfo (fst (extracted cs))) (s_nInfo (fst (extracted cs))) 10)"

definition same_tree :: "string \<Rightarrow> u32 \<Rightarrow> tree" where
  "same_tree zone slots = Children [(''rms'', Text_node ''localhost''), (''agents'', Number_node 1), (''zone'', Text_node zone),
     (''slots'', Number_node slots)]"

definition slurm_tree :: "string \<Rightarrow> u32 \<Rightarrow> u32 \<Rightarrow> tree" where
  "slurm_tree zone n slots = Children [(''rms'', Text_node ''slurm''), (''configFile'', Text_node (''/home/user/slurm-'' @ zone @ ''.cfg'')),
     (''agents'', Number_node n), (''zone'', Text_node zone), (''slots'', Number_node slots)]"

lemmas params_defs = topo_params_def plugin_params_def

lemma test_rp_same_simple:
  shows "plugin_params (Children [(''rms'', Text_node ''localhost''), (''agents'', Number_node 1), (''slots'', Number_node 36)])
       ex_topo_infinite_up = Inr [(''localhost'', '''', '''', 1, 0, 36, 0, '''')]"
    and "topo_params ''localhost'' [] ex_topo_infinite_up = replicate 3 (''localhost'', '''', '''', 1, 0, 12, 0, '''')"
  unfolding params_defs extracted_filled [OF parsed_infinite_up] fst_conv by code_simp+

lemma test_rp_same_zones:
  shows "plugin_params (Children ((''submit'', same_tree ''calib'' 2) # replicate 4 (''submit'', same_tree ''online'' 1))) ex_topo_groupname =
    Inr ((''localhost'', ''calib'', ''calib'', 1, 0, 2, 0, '''') # replicate 4 (''localhost'', ''online'', ''online'', 1, 0, 1, 0, ''''))"
  unfolding params_defs extracted_filled [OF parsed_groupname] fst_conv by code_simp

lemma test_rp_epn_slurm_zones:
  shows "plugin_params (Children [(''submit'', slurm_tree ''online'' 4 2), (''submit'', slurm_tree ''calib'' 1 2)]) ex_topo_groupname_crashing =
    Inr [(''slurm'', ''online'', ''online'', 4, 2, 2, 0, ''/home/user/slurm-online.cfg''),
         (''slurm'', ''calib'', ''calib'', 1, 0, 2, 0, ''/home/user/slurm-calib.cfg'')]"
    and "set (topo_params ''slurm'' slurm_zones ex_topo_groupname_crashing) =
     {(''slurm'', ''online'', ''online'', 4, 2, 2, 0, ''/home/user/slurm-online.cfg''),
      (''slurm'', ''calib'', ''calib'', 1, 0, 2, 0, ''/home/user/slurm-calib.cfg'')}"
  unfolding params_defs extracted_filled [OF parsed_nmin] fst_conv by code_simp+

lemma test_rp_epn_slurm_ncores:
  shows "plugin_params (Children [(''submit'', slurm_tree ''calib'' 1 1), (''submit'', slurm_tree ''online'' 4 1)]) ex_topo_groupname_ncores =
    Inr [(''slurm'', ''calib'', ''calib1'', 1, 0, 1, 2, ''/home/user/slurm-calib.cfg''),
         (''slurm'', ''online'', ''online'', 4, 0, 1, 0, ''/home/user/slurm-online.cfg''),
         (''slurm'', ''calib'', ''calib2'', 1, 0, 1, 1, ''/home/user/slurm-calib.cfg'')]"
    and "set (topo_params ''slurm'' slurm_zones ex_topo_groupname_ncores) =
     {(''slurm'', ''calib'', ''calib1'', 1, 0, 1, 2, ''/home/user/slurm-calib.cfg''),
      (''slurm'', ''online'', ''online'', 4, 0, 1, 0, ''/home/user/slurm-online.cfg''),
      (''slurm'', ''calib'', ''calib2'', 1, 0, 1, 1, ''/home/user/slurm-calib.cfg'')}"
  unfolding params_defs extracted_filled [OF parsed_ncores] fst_conv by code_simp+

lemma test_extract_epn:
  "set (topo_params ''slurm'' slurm_zones ex_epn) =
     {(''slurm'', ''online'', ''online'', 50, 50, 223, 0, ''/home/user/slurm-online.cfg''),
      (''slurm'', ''calib'', ''calib1'', 1, 0, 17, 128, ''/home/user/slurm-calib.cfg'')}"
  unfolding params_defs extracted_filled [OF parsed_epn] fst_conv by code_simp

end
