(* ===== verification/Spec2Isabelle.thy ===== *)
theory Spec2Isabelle
  imports Network_Properties Blocking_Calls Topology_Overloads Programs Controller_Reports Slurm_Plugin Process Semaphore Async_Object
    Command_Tables Device_Shutdown Service_Log Tools Epn_Topo Example_Devices Test_Cases
begin

text \<open>
  ODC, the online device control: a service that runs topologies of FairMQ devices on DDS, modelled from \<^verbatim>\<open>src/odc\<close>
  and \<^verbatim>\<open>src/plugins\<close>.

  \<^bold>\<open>How the program works.\<close> A client (\<^verbatim>\<open>grpc/Client.h\<close>, or the command line of \<^verbatim>\<open>CliController.h\<close>) sends requests for a
  partition. The gRPC service (\<^verbatim>\<open>grpc/Controller.h\<close>) holds one mutex per partition while a request is served and passes
  it to the controller (\<^verbatim>\<open>Controller.cpp\<close>), which keeps a session per partition (\<^verbatim>\<open>Session.h\<close>). A request talks to DDS (sessions,
  agents, activation), reads the topology file, submits agents through resource plugins (\<^verbatim>\<open>DDSSubmit.h\<close>,
  \<^verbatim>\<open>PluginManager.h\<close>, \<^verbatim>\<open>plugins/rp-epn-slurm\<close>) and acts on the devices through the topology (\<^verbatim>\<open>Topology.h\<close>), which exchanges
  commands (\<^verbatim>\<open>cc/CustomCommands\<close>) with the plugin of every device (\<^verbatim>\<open>plugins/fmq/ODC.cpp\<close>) and waits for their answers with
  asynchronous operations (\<^verbatim>\<open>TopologyOp*.h\<close> over \<^verbatim>\<open>AsioAsyncOp.h\<close>).

  \<^bold>\<open>Theories, from the bottom.\<close>
    \<^item> \<open>ODC_Prelude\<close>, \<open>ODC_Error\<close>, \<open>Misc_Utils\<close>: exceptions as values, \<^verbatim>\<open>std::map\<close> as an association list with sorted keys and
      \<^verbatim>\<open>std::unordered_map\<close> as one with distinct keys (locale \<open>container\<close>, interpreted for both), the strings of the library,
      the error codes, and \<^verbatim>\<open>smart_path\<close>.
    \<^item> \<open>Topology_Defs\<close>: device states, transitions, statuses, aggregation.
    \<^item> \<open>Async_Op\<close>, \<open>Change_State_Op\<close>, \<open>Wait_For_State_Op\<close>, \<open>Properties_Ops\<close>: the operations, their updates and their end. The locale
      \<open>async_operation\<close> states that an operation ends once; \<open>counter_operation\<close> refines the two that count tasks to an abstract
      counter. Lemmas: exactly when an operation ends and with what, and that the two counting operations are the same machine.
    \<^item> \<open>Custom_Commands\<close>: the fifteen commands and their FlatBuffers; parsing gives back what was serialised.
    \<^item> \<open>ODC_Topology\<close>, \<open>Topology_Async\<close>, \<open>Topology_Props\<close>: the topology's state, handlers and operations; the invariant of its
      reachable states (locale \<open>transition_system\<close>), tolerated failures, a whole change of state.
    \<^item> \<open>Device_Plugin\<close>, \<open>ODC_Network\<close>: the plugin of a device, and the topology with all its devices and the messages between
      them, as one transition system: subscription reaches everyone, and the topology's view is the devices' own.
      \<open>Network_Change\<close>: a change of state through both sides, with devices that fail on the way: when it ends and with what.
      \<open>Network_Properties\<close>: a query of properties through both sides collects what the devices' own queries find.
    \<^item> \<open>Blocking_Calls\<close>: a blocking call with a timeout returns whatever else the topology handles meanwhile (locale
      \<open>timed_wait\<close>, interpreted for the four kinds of operations).
    \<^item> \<open>ODC_Session\<close>, \<open>Requirements\<close>, \<open>DDS_Submit\<close>, \<open>Slurm_Plugin\<close>: sessions, what a topology file requires, submissions.
    \<^item> \<open>Controller_State\<close>, \<open>Controller_DDS\<close>, \<open>Controller_Requests\<close>, \<open>Controller_Reports\<close>: the controller's state and settings, the steps
      that talk to DDS, the steps that act on devices with every request, and its reports. \<open>Controller_Contract\<close> states what
      a step owes its request (locale \<open>request_step\<close>, interpreted for every step); \<open>Controller_Props\<close> has the theorems on sequences
      of requests; \<open>Controller_Samples\<close> is the environment of the witnesses.
    \<^item> \<open>Semaphore\<close>, \<open>Async_Object\<close>, \<open>Topology_Overloads\<close>: what the blocking calls of the topology are made of, below the level of
      \<open>Topology_Async\<close>: the semaphore as an interleaving of threads with the hand-over of a result, the objects that hold an
      operation (they refine \<open>async_op\<close>), and the overloads.
    \<^item> \<open>Command_Tables\<close>: the container of commands, and a typing of the tables they are sent as. \<open>Device_Shutdown\<close>: a device plugin
      from constructor to destructor, with its worker thread.
    \<^item> \<open>Process\<close>, \<open>Logging\<close>, \<open>Service_Log\<close>, \<open>System_Utils\<close>: running a command under its watchdog, the log with its sinks, what service and
      controller log, and the functions that ask the system for users and time.
    \<^item> \<open>Tools\<close>, \<open>Epn_Topo\<close>, \<open>Example_Devices\<close>: the small programs, the generators of topologies (what they write is what
      \<open>Requirements\<close> reads), the example devices (locale \<open>counting\<close>). \<open>Test_Cases\<close> runs the test cases of \<^verbatim>\<open>src/tests\<close> on
      requirements and submissions on the model.
    \<^item> \<open>Printing\<close>, \<open>Grpc_Service\<close>, \<open>Grpc_Client\<close>, \<open>Cli\<close>, \<open>Restore\<close>, \<open>Programs\<close>: texts of parameters, the service with its mutexes as a
      step relation on concurrent calls, the client, the command line (locale \<open>owners\<close>: two owners that answer alike run alike,
      interpreted on controller and client), the restore file, the main functions.
    \<^item> This theory: the service on top of the controller, for every interleaving of calls.

  \<^bold>\<open>Conventions.\<close> A class is a record named after it, a method a function of the same name; C++ integers are words where
  they can wrap and \<open>int\<close> where the source only adds small numbers. An exception is \<open>Inl\<close>. What blocks on a condition
  variable takes the list of events that arrive meanwhile and is \<open>None\<close> if it still waits when the list is over; what may
  loop forever is a \<open>partial_function\<close> into an option. \<^verbatim>\<open>WaitForPublisherCount\<close> polls at most 600 times, the source's own
  bound, and \<open>poll_slots\<close> as often as the remaining timeout allows. DDS, FlatBuffers, property trees, option parsing,
  processes and files are parameters: fields of an environment \<open>env\<close> indexed by the number of the contact, so that
  every call may answer differently, or function arguments; laws about them are named hypotheses
  (\<open>env_ok\<close>, \<open>attaches\<close>, \<open>tree_laws\<close>), and each theorem that has one has a witness in which it holds.

  \<^bold>\<open>Granularity.\<close> A handler of the topology runs under its mutex and is one step. A request of a partition is one step of the
  service, since it holds the partition's mutex; GetState does not and may come between.

  \<^bold>\<open>Not modelled.\<close> The layout and rotation of the log file; the storage of executors and allocators (\<^verbatim>\<open>AsioBase.h\<close>), type traits
  and the timer class; uuids and time, which are fresh values; the wait of
  \<^verbatim>\<open>submitDDSAgents\<close> and \<^verbatim>\<open>activateDDSTopology\<close> on a condition variable beyond its timeout (their callbacks may run after
  the call has returned and refer to its locals, which has no defined meaning); the completion through readline, beyond
  the list of candidates; the tests as programs, and the DDS, FairMQ and Boost libraries. In the theories on the
  controller, running a command is a parameter, which \<open>Process\<close> instantiates.
\<close>

section \<open>The service and the controller\<close>

lemma serve_is_exec:
  assumes "serve E order q w = Some (r, w')"
  shows "\<exists>res. exec E (request_common q) (core_request q) w = Some (res, w')"
  using assms by (auto simp: serve_exec general_def stateful_def simp del: serve.simps split: if_splits)

lemma GetState_keeps_session:
  assumes "exec E common (ReqGetState p) w = Some (res, w')"
  shows "session_of E pid w' = session_of E pid w"
proof -
  have "rq_session (snd (getState path rq)) = rq_session rq" for path and rq :: "'a req"
    by (auto simp: getState_def fillAndLogError_def Let_def split: option.split sum.split)
  note kept = this
  obtain ok rq where rq: "getState (dp_path p) (begin_request E (cp_partitionID common) (detailed_request (dp_detailed p)) w) = (ok, rq)"
    "w_ctl w' = put_session (cp_partitionID common) (rq_session rq) (w_ctl w)"
    using assms by (auto simp: execGetState_def dest!: finish_ctl)
  have "rq_session rq = session_of E (cp_partitionID common) w"
    using kept [of "dp_path p" "begin_request E (cp_partitionID common) (detailed_request (dp_detailed p)) w"] by (simp add: rq(1))
  then have "w_ctl w' = put_session (cp_partitionID common) (session_of E (cp_partitionID common) w) (w_ctl w)"
    using rq(2) by simp
  then show ?thesis by (simp add: session_of_def put_session_def split: option.split)
qed

text \<open>
  C11: Whatever calls the service serves and however they interleave, from a controller set up from the program's options with the
  sessions it restored, the sessions stay well-formed: one per partition, in order, each under its own id, and its topology
  consistent with the DDS topology it was made from.
\<close>
theorem service_sessions:
  assumes "start_controller E pa binDir vm plugins = Some (Inr w)" and "server_reachable E order w s" and "env_ok E"
  shows "sorted_keys (c_sessions (w_ctl (sv_world s))) \<and>
    (\<forall>pid ss. map_of (c_sessions (w_ctl (sv_world s))) pid = Some ss \<longrightarrow> s_partitionID ss = pid \<and>
      (\<forall>tp. s_topology ss = Some tp \<longrightarrow> (\<exists>ct. s_ddsTopo ss = Some ct \<and> topo_wf tp \<and>
         map ds_taskId (tp_stateData tp) = map fst (rt_tasks ct))))"
proof -
  have "world_ok (sv_world s)" using assms(2)
  proof (induction rule: server_reachable.induct)
    case init
    then show ?case using start_controller_world_ok [OF assms(1,3)] by simp
  next
    case (step s s')
    from step(2,3) show ?case
      by (cases rule: server_step.cases) (auto dest!: serve_is_exec intro: exec_world_ok [OF _ assms(3)])
  qed
  then show ?thesis by (auto simp: world_ok_def session_ok_def topology_of_def)
qed


section \<open>Witnesses\<close>

text \<open>A GetState that is served while a Configure of the same partition is inside its handler.\<close>

lemma sample_getstate_step:
  "\<exists>r w'. serve sample_env (\<lambda>_. []) (GGetState sample_get) w = Some (r, w') \<and>
     server_step sample_env (\<lambda>_. []) \<lparr>sv_world = w, sv_mutexes = [(''p'', True)], sv_calls = [Holding (GConfigure sample_get), Arrived (GGetState sample_get)]\<rparr>
       \<lparr>sv_world = w', sv_mutexes = [(''p'', True)], sv_calls = [Holding (GConfigure sample_get), Returned r]\<rparr>"
proof -
  obtain r w' where "serve sample_env (\<lambda>_. []) (GGetState sample_get) w = Some (r, w')"
    by (auto simp: stateful_def execGetState_def finish_def split_def)
  then show ?thesis
    using server_step.unlocked [of 1 "\<lparr>sv_world = w, sv_mutexes = [(''p'', True)],
      sv_calls = [Holding (GConfigure sample_get), Arrived (GGetState sample_get)]\<rparr>" "GGetState sample_get"] by simp
qed

definition sample_path_api :: path_api where
  "sample_path_api = \<lparr>pa_split_unix = split_at (CHR '' ''), pa_canonical = Inr, pa_is_directory = (\<lambda>_. False),
     pa_replace_first = (\<lambda>s a b. b)\<rparr>"

definition sample_vm :: variables_map where
  "sample_vm = [''zones'' \<mapsto> OStrings [''online:a:b''], ''restore'' \<mapsto> OString ''r'']"

theorem service_sessions_witness:
  "\<exists>w s r. start_controller restore_env sample_path_api ''/bin'' sample_vm [(''slurm'', ''cmd'')] = Some (Inr w) \<and>
     server_reachable restore_env (\<lambda>_. []) w s \<and> sv_calls s ! 0 = Holding r \<and> sorted_keys (c_sessions (w_ctl (sv_world s)))"
proof -
  have "map_option isl
      (start_controller restore_env sample_path_api ''/bin'' sample_vm [(''slurm'', ''cmd'')]) = Some False" by code_simp
  then obtain w where w: "start_controller restore_env sample_path_api ''/bin'' sample_vm [(''slurm'', ''cmd'')] = Some (Inr w)"
    by (cases "start_controller restore_env sample_path_api ''/bin'' sample_vm [(''slurm'', ''cmd'')]") (auto simp: isl_def split: sum.splits intro: sum.exhaust)
  have re: "server_reachable restore_env (\<lambda>_. []) w \<lparr>sv_world = w, sv_mutexes = [(''p'', True)],
      sv_calls = [Holding (GConfigure sample_get), Arrived (GGetState sample_get)]\<rparr>" (is "server_reachable _ _ _ ?s")
    using two_calls_reachable [of "GConfigure sample_get" restore_env "\<lambda>_. []" w "GGetState sample_get"] by (simp add: sample_get_def)
  have "env_ok restore_env" using sample_env_ok by (simp add: env_ok_def restore_env_def)
  from w re service_sessions [OF w re this] show ?thesis by (intro exI [of _ w] exI [of _ ?s] exI [of _ "GConfigure sample_get"]) simp
qed


end
